(* ===== verification/Prelude.thy ===== *)
theory Prelude imports Main "HOL-Library.Word" "HOL-Library.Sublist" begin

text \<open>
  What every component shares: the names of the machine integers, the result type of the
  fallible operations with Rust's \<open>?\<close>, the gRPC status a failed call ends with, and the
  lemma collections the component proofs draw on.

  Integers.  \<open>u32\<close> and \<open>u64\<close> are words of their width, so a \<open>+\<close> or \<open>*\<close> that the code leaves
  unchecked wraps here as it wraps in a release build.  \<open>usize\<close> values that count elements of a
  vector (lengths, positions, depths) are \<open>nat\<close>: the target is 64-bit and no vector is longer
  than \<open>2 ^ 63 - 1\<close>.

  Strings.  A Rust \<open>String\<close> is its UTF-8 bytes: \<open>string\<close> is a list of 8-bit characters, and
  \<open>length\<close> is \<open>str::len\<close>.

  Messages.  The text of a status or a warning is kept as the pieces its format string is made
  of: \<open>Lit\<close> for the literal parts, \<open>Num\<close> for a number, \<open>Str\<close> for a string interpolated with
  \<open>{}\<close> and \<open>Dbg\<close> for one interpolated with \<open>{:?}\<close> (the escaping of \<open>{:?}\<close> is left symbolic).
\<close>

section \<open>Machine integers\<close>

type_synonym u8 = "8 word"
type_synonym u16 = "16 word"
type_synonym u32 = "32 word"
type_synonym u64 = "64 word"
type_synonym usize = nat

abbreviation u32_max :: u32 where "u32_max \<equiv> - 1"
abbreviation u64_max :: u64 where "u64_max \<equiv> - 1"

named_theorems word_nat "reading words as natural numbers"
named_theorems outcome_simps "evaluation of the fallible pipeline"
named_theorems std_defs "definitions of the modelled standard-library operations"

text \<open>Rust's \<open>u64::saturating_mul\<close>, and the widening and narrowing conversions.\<close>

definition saturating_mul :: "'a::len word \<Rightarrow> 'a word \<Rightarrow> 'a word" where
  "saturating_mul a b = (if unat a * unat b < 2 ^ LENGTH('a) then a * b else - 1)"

definition u64_of_u32 :: "u32 \<Rightarrow> u64" where
  "u64_of_u32 n = ucast n"

definition u32_try_from :: "nat \<Rightarrow> u32 option" where
  "u32_try_from n = (if n < 2 ^ 32 then Some (of_nat n) else None)"

definition u32_or_max :: "nat \<Rightarrow> u32" where
  "u32_or_max n = (case u32_try_from n of Some w \<Rightarrow> w | None \<Rightarrow> u32_max)"

lemma unat_all_ones: "unat (- 1 :: 'a::len word) = 2 ^ LENGTH('a) - 1"
  by (simp add: unsigned_minus_1_eq_mask mask_eq_exp_minus_1)

lemma unat_saturating_mul [word_nat]:
  "unat (saturating_mul a b) = min (unat a * unat b) (2 ^ LENGTH('a) - 1)"
  for a b :: "'a::len word"
proof (cases "unat a * unat b < 2 ^ LENGTH('a)")
  case True
  then have "unat (a * b) = unat a * unat b" by (simp add: unat_word_ariths)
  with True show ?thesis by (simp add: saturating_mul_def)
next
  case False
  then show ?thesis by (simp add: saturating_mul_def unat_all_ones)
qed

lemma unat_u64_of_u32 [word_nat]: "unat (u64_of_u32 n) = unat n"
proof -
  have "unat n < 2 ^ 64" using unsigned_less [of n] by (rule less_trans) simp
  then show ?thesis by (simp add: u64_of_u32_def unsigned_ucast_eq take_bit_nat_eq_self)
qed

lemma unat_u32_or_max [word_nat]: "unat (u32_or_max n) = min n (2 ^ 32 - 1)"
  by (simp add: u32_or_max_def u32_try_from_def unat_all_ones unat_of_nat take_bit_nat_eq_self)

lemma unat_of_nat_small [word_nat]: "n < 2 ^ LENGTH('a) \<Longrightarrow> unat (of_nat n :: 'a::len word) = n"
  by (simp add: unat_of_nat take_bit_nat_eq_self)

lemma unat_min [word_nat]: "unat (min a b) = min (unat a) (unat b)"
  by (auto simp: min_def word_le_nat_alt)

lemma unat_max [word_nat]: "unat (max a b) = max (unat a) (unat b)"
  by (auto simp: max_def word_le_nat_alt)

lemma unat_sub_le [word_nat]: "b \<le> a \<Longrightarrow> unat (a - b) = unat a - unat b"
  by (rule unat_sub) simp

lemma unat_add_small [word_nat]:
  "unat a + unat b < 2 ^ LENGTH('a) \<Longrightarrow> unat (a + b) = unat a + unat b" for a b :: "'a::len word"
  by (simp add: unat_word_ariths)

lemma unat_bound64: "unat (a :: u64) < 18446744073709551616"
  using unsigned_less [of a] by simp

lemma unat_bound32: "unat (a :: u32) < 4294967296"
  using unsigned_less [of a] by simp

section \<open>Results\<close>

text \<open>
  \<open>Result<T, E>\<close> is \<open>'e + 'a\<close> with \<open>Inl\<close> for \<open>Err\<close>.  \<open>and_then m f\<close> is the \<open>?\<close> operator: it
  returns the error of \<open>m\<close> early and otherwise goes on with its value.
\<close>

definition and_then :: "'e + 'a \<Rightarrow> ('a \<Rightarrow> 'e + 'b) \<Rightarrow> 'e + 'b" where
  "and_then m f = (case m of Inl e \<Rightarrow> Inl e | Inr x \<Rightarrow> f x)"

definition map_err :: "('e \<Rightarrow> 'f) \<Rightarrow> 'e + 'a \<Rightarrow> 'f + 'a" where
  "map_err g m = (case m of Inl e \<Rightarrow> Inl (g e) | Inr x \<Rightarrow> Inr x)"

definition ok_or :: "'e \<Rightarrow> 'a option \<Rightarrow> 'e + 'a" where
  "ok_or e m = (case m of None \<Rightarrow> Inl e | Some x \<Rightarrow> Inr x)"

definition guard_err :: "bool \<Rightarrow> 'e \<Rightarrow> 'e + unit" where
  "guard_err bad e = (if bad then Inl e else Inr ())"

lemma and_then_simps [simp, outcome_simps]:
  "and_then (Inl e) f = Inl e" "and_then (Inr x) f = f x"
  by (simp_all add: and_then_def)

lemma and_then_Inr [simp, outcome_simps]: "and_then m Inr = m" "and_then m (\<lambda>x. Inr x) = m"
  by (cases m; simp)+

lemma and_then_eq_Inr [outcome_simps]:
  "and_then m f = Inr y \<longleftrightarrow> (\<exists>x. m = Inr x \<and> f x = Inr y)"
  by (cases m) auto

lemma and_then_eq_Inl [outcome_simps]:
  "and_then m f = Inl e \<longleftrightarrow> m = Inl e \<or> (\<exists>x. m = Inr x \<and> f x = Inl e)"
  by (cases m) auto

lemma map_err_simps [simp, outcome_simps]:
  "map_err g (Inl e) = Inl (g e)" "map_err g (Inr x) = Inr x"
  by (simp_all add: map_err_def)

lemma map_err_eq_Inr [simp, outcome_simps]: "map_err g m = Inr x \<longleftrightarrow> m = Inr x"
  by (cases m) auto

lemma map_err_eq_Inl [outcome_simps]: "map_err g m = Inl f \<longleftrightarrow> (\<exists>e. m = Inl e \<and> f = g e)"
  by (cases m) auto

lemma ok_or_eq [simp, outcome_simps]:
  "ok_or e m = Inr x \<longleftrightarrow> m = Some x" "ok_or e m = Inl f \<longleftrightarrow> m = None \<and> f = e"
  by (cases m; auto simp: ok_or_def)+

lemma guard_err_eq [simp, outcome_simps]:
  "guard_err bad e = Inr u \<longleftrightarrow> \<not> bad" "guard_err bad e = Inl f \<longleftrightarrow> bad \<and> f = e"
  by (auto simp: guard_err_def)

text \<open>A loop that stops at the first error, collecting the values before it.\<close>

fun map_result :: "('a \<Rightarrow> 'e + 'b) \<Rightarrow> 'a list \<Rightarrow> 'e + 'b list" where
  "map_result f [] = Inr []"
| "map_result f (x # xs) =
     and_then (f x) (\<lambda>y. and_then (map_result f xs) (\<lambda>ys. Inr (y # ys)))"

lemma map_result_Inr: "map_result f xs = Inr ys \<longleftrightarrow> map f xs = map Inr ys"
  by (induction xs arbitrary: ys) (auto simp: and_then_eq_Inr Cons_eq_map_conv)

text \<open>A Rust panic, with what raised it; a function that can panic returns \<open>panic + 'a\<close>.\<close>

datatype panic = Panic string

section \<open>Statuses\<close>

datatype code =
  InvalidArgument | ResourceExhausted | Unimplemented | Internal | DeadlineExceeded | Unavailable
  | Unknown

datatype msg_part = Lit string | Num nat | Str string | Dbg string

type_synonym message = "msg_part list"

datatype status = Status (code_of: code) (message_of: message)

section \<open>Lists\<close>

text \<open>\<open>Iterator::position\<close>: the first index whose element satisfies the predicate.\<close>

fun position :: "('a \<Rightarrow> bool) \<Rightarrow> 'a list \<Rightarrow> nat option" where
  "position p [] = None"
| "position p (x # xs) = (if p x then Some 0 else map_option Suc (position p xs))"

lemma position_Some:
  "position p xs = Some i \<Longrightarrow> i < length xs \<and> p (xs ! i) \<and> (\<forall>j<i. \<not> p (xs ! j))"
proof (induction xs arbitrary: i)
  case Nil
  then show ?case by simp
next
  case (Cons x xs)
  show ?case
  proof (cases "p x")
    case True
    with Cons.prems show ?thesis by simp
  next
    case False
    with Cons.prems obtain j where "position p xs = Some j" "i = Suc j" by auto
    with Cons.IH [of j] False show ?thesis by (auto simp: nth_Cons split: nat.split)
  qed
qed

lemma position_None: "position p xs = None \<longleftrightarrow> (\<forall>x\<in>set xs. \<not> p x)"
  by (induction xs) auto

lemma position_append:
  "\<forall>x\<in>set xs. \<not> p x \<Longrightarrow> p y \<Longrightarrow> position p (xs @ y # ys) = Some (length xs)"
  by (induction xs) auto

text \<open>A lookup that both reads a slice element and fails out of range: \<open>slice::get\<close>.\<close>

definition get :: "'a list \<Rightarrow> nat \<Rightarrow> 'a option" where
  "get xs i = (if i < length xs then Some (xs ! i) else None)"

definition get_range :: "'a list \<Rightarrow> nat \<Rightarrow> nat \<Rightarrow> 'a list option" where
  "get_range xs i j = (if i \<le> j \<and> j \<le> length xs then Some (take (j - i) (drop i xs)) else None)"

lemma replicate_two: "replicate 2 x = [x, x]"
  by (simp add: numeral_2_eq_2)

definition opt_or :: "'a option \<Rightarrow> 'a \<Rightarrow> 'a" where
  "opt_or m d = (case m of None \<Rightarrow> d | Some x \<Rightarrow> x)"

lemma opt_or_simps [simp]: "opt_or None d = d" "opt_or (Some x) d = x"
  by (simp_all add: opt_or_def)

end
