(* ===== verification/RustStr.thy ===== *)
theory RustStr imports Prelude begin

text \<open>
  The part of Rust's string library the service uses, over UTF-8 bytes: \<open>split\<close>, \<open>join\<close>,
  \<open>find\<close>, \<open>rfind\<close>, \<open>split_once\<close>, \<open>replace\<close>, \<open>trim\<close>, \<open>split_whitespace\<close>, the ASCII case
  conversions, \<open>String::from_utf8_lossy\<close>, \<open>str::parse\<close> for unsigned integers and the decimal
  rendering of a number.  Every operation is executable.
\<close>

section \<open>Bytes\<close>

definition ord :: "char \<Rightarrow> nat" where
  "ord c = of_char c"

definition byte_is_digit :: "char \<Rightarrow> bool" where
  "byte_is_digit c \<longleftrightarrow> 48 \<le> ord c \<and> ord c \<le> 57"

definition byte_is_upper :: "char \<Rightarrow> bool" where
  "byte_is_upper c \<longleftrightarrow> 65 \<le> ord c \<and> ord c \<le> 90"

definition byte_is_lower :: "char \<Rightarrow> bool" where
  "byte_is_lower c \<longleftrightarrow> 97 \<le> ord c \<and> ord c \<le> 122"

definition byte_is_alpha :: "char \<Rightarrow> bool" where
  "byte_is_alpha c \<longleftrightarrow> byte_is_upper c \<or> byte_is_lower c"

definition byte_is_alnum :: "char \<Rightarrow> bool" where
  "byte_is_alnum c \<longleftrightarrow> byte_is_alpha c \<or> byte_is_digit c"

definition byte_lower :: "char \<Rightarrow> char" where
  "byte_lower c = (if byte_is_upper c then char_of (ord c + 32) else c)"

definition byte_upper :: "char \<Rightarrow> char" where
  "byte_upper c = (if byte_is_lower c then char_of (ord c - 32) else c)"

lemmas byte_defs = ord_def byte_is_digit_def byte_is_upper_def byte_is_lower_def byte_is_alpha_def
  byte_is_alnum_def byte_lower_def byte_upper_def

definition to_ascii_lowercase :: "string \<Rightarrow> string" where
  "to_ascii_lowercase = map byte_lower"

definition to_ascii_uppercase :: "string \<Rightarrow> string" where
  "to_ascii_uppercase = map byte_upper"

definition eq_ignore_ascii_case :: "string \<Rightarrow> string \<Rightarrow> bool" where
  "eq_ignore_ascii_case a b \<longleftrightarrow> to_ascii_lowercase a = to_ascii_lowercase b"

section \<open>Splitting and joining\<close>

text \<open>\<open>str::split(c)\<close>: always at least one piece.\<close>

fun split_on :: "char \<Rightarrow> string \<Rightarrow> string list" where
  "split_on c [] = [[]]"
| "split_on c (x # xs) =
     (if x = c then [] # split_on c xs
      else (case split_on c xs of [] \<Rightarrow> [[x]] | s # ss \<Rightarrow> (x # s) # ss))"

text \<open>\<open>[String]::join\<close> with a one-character separator.\<close>

fun join_on :: "char \<Rightarrow> string list \<Rightarrow> string" where
  "join_on c [] = []"
| "join_on c [s] = s"
| "join_on c (s # t # ss) = s @ c # join_on c (t # ss)"

text \<open>\<open>str::split_once(c)\<close>.\<close>

fun split_once :: "char \<Rightarrow> string \<Rightarrow> (string \<times> string) option" where
  "split_once c [] = None"
| "split_once c (x # xs) =
     (if x = c then Some ([], xs) else map_option (\<lambda>(a, b). (x # a, b)) (split_once c xs))"

text \<open>The text up to the first separator: \<open>s.split(c).next()\<close>.\<close>

definition before :: "char \<Rightarrow> string \<Rightarrow> string" where
  "before c s = takeWhile (\<lambda>x. x \<noteq> c) s"

text \<open>\<open>str::find\<close> and \<open>str::rfind\<close> of one of several characters, as a byte offset.\<close>

definition find_byte :: "(char \<Rightarrow> bool) \<Rightarrow> string \<Rightarrow> nat option" where
  "find_byte p s = position p s"

definition rfind_byte :: "(char \<Rightarrow> bool) \<Rightarrow> string \<Rightarrow> nat option" where
  "rfind_byte p s = map_option (\<lambda>i. length s - 1 - i) (position p (rev s))"

definition replace_byte :: "char \<Rightarrow> char \<Rightarrow> string \<Rightarrow> string" where
  "replace_byte a b s = map (\<lambda>c. if c = a then b else c) s"

fun contains_str :: "string \<Rightarrow> string \<Rightarrow> bool" where
  "contains_str pat [] = (pat = [])"
| "contains_str pat (x # xs) = (prefix pat (x # xs) \<or> contains_str pat xs)"

definition strip_suffix :: "string \<Rightarrow> string \<Rightarrow> string option" where
  "strip_suffix suf s =
     (if suffix suf s then Some (take (length s - length suf) s) else None)"

definition strip_prefix :: "string \<Rightarrow> string \<Rightarrow> string option" where
  "strip_prefix pre s = (if prefix pre s then Some (drop (length pre) s) else None)"

lemma split_on_not_Nil [simp]: "split_on c s \<noteq> []"
  by (induction s) (auto split: list.splits)

lemma split_on_pieces: "s \<in> set (split_on c t) \<Longrightarrow> c \<notin> set s"
proof (induction t arbitrary: s)
  case Nil
  then show ?case by simp
next
  case (Cons x t)
  obtain p ps where ps: "split_on c t = p # ps" by (cases "split_on c t") auto
  with Cons show ?case by (auto split: if_splits)
qed

lemma split_on_subset: "s \<in> set (split_on c t) \<Longrightarrow> set s \<subseteq> set t"
proof (induction t arbitrary: s)
  case Nil
  then show ?case by simp
next
  case (Cons x t)
  obtain p ps where ps: "split_on c t = p # ps" by (cases "split_on c t") auto
  with Cons show ?case by (fastforce split: if_splits)
qed

lemma join_on_Cons: "ss \<noteq> [] \<Longrightarrow> join_on c (s # ss) = s @ c # join_on c ss"
  by (cases ss) auto

lemma join_on_snoc: "ss \<noteq> [] \<Longrightarrow> join_on c (ss @ [t]) = join_on c ss @ c # t"
  by (induction ss rule: induct_list012) auto

lemma join_split [simp]: "join_on c (split_on c s) = s"
proof (induction s)
  case Nil
  then show ?case by simp
next
  case (Cons x s)
  obtain p ps where ps: "split_on c s = p # ps" by (cases "split_on c s") auto
  with Cons show ?case by (cases ps) (auto simp: join_on_Cons)
qed

lemma split_on_no_sep: "c \<notin> set s \<Longrightarrow> split_on c s = [s]"
  by (induction s) auto

lemma split_on_append_sep: "c \<notin> set s \<Longrightarrow> split_on c (s @ c # t) = s # split_on c t"
  by (induction s) auto

lemma split_join: "ss \<noteq> [] \<Longrightarrow> \<forall>s\<in>set ss. c \<notin> set s \<Longrightarrow> split_on c (join_on c ss) = ss"
proof (induction ss)
  case Nil
  then show ?case by simp
next
  case (Cons s ss)
  show ?case
  proof (cases "ss = []")
    case True
    with Cons.prems show ?thesis by (simp add: split_on_no_sep)
  next
    case False
    with Cons show ?thesis by (simp add: join_on_Cons split_on_append_sep)
  qed
qed

text \<open>The length of a joined path: the pieces and one separator between each two.\<close>

lemma length_join_on:
  "ss \<noteq> [] \<Longrightarrow> Suc (length (join_on c ss)) = length (concat ss) + length ss"
  by (induction ss rule: induct_list012) auto

lemma length_split_on: "length (concat (split_on c s)) + length (split_on c s) = Suc (length s)"
  using length_join_on [of "split_on c s" c] by simp

lemma set_join_on: "set (join_on c ss) \<subseteq> insert c (\<Union> (set ` set ss))"
  by (induction ss rule: induct_list012) auto

lemma split_once_Some:
  "split_once c s = Some (a, b) \<longleftrightarrow> s = a @ c # b \<and> c \<notin> set a"
proof (induction s arbitrary: a)
  case Nil
  then show ?case by simp
next
  case (Cons x s)
  show ?case
  proof (cases "x = c")
    case True
    then show ?thesis by (cases a) auto
  next
    case False
    with Cons show ?thesis by (cases a) auto
  qed
qed

lemma split_once_None: "split_once c s = None \<longleftrightarrow> c \<notin> set s"
  by (induction s) auto

lemma before_no_sep: "c \<notin> set (before c s)"
  unfolding before_def by (auto dest: set_takeWhileD)

lemma before_id [simp]: "c \<notin> set s \<Longrightarrow> before c s = s"
  unfolding before_def by (rule takeWhile_eq_all_conv [THEN iffD2]) auto

lemma before_eq_hd_split: "before c s = hd (split_on c s)"
  by (induction s) (auto simp: before_def split: list.splits)

lemma set_replace_byte: "a \<noteq> b \<Longrightarrow> a \<notin> set (replace_byte a b s)"
  by (auto simp: replace_byte_def)

lemma length_replace_byte [simp]: "length (replace_byte a b s) = length s"
  by (simp add: replace_byte_def)

lemma replace_byte_id [simp]: "a \<notin> set s \<Longrightarrow> replace_byte a b s = s"
  by (induction s) (auto simp: replace_byte_def)

lemma find_byte_append:
  "\<forall>x\<in>set s. \<not> p x \<Longrightarrow> p c \<Longrightarrow> find_byte p (s @ c # t) = Some (length s)"
  by (simp add: find_byte_def position_append)

lemma find_byte_None: "find_byte p s = None \<longleftrightarrow> (\<forall>x\<in>set s. \<not> p x)"
  by (simp add: find_byte_def position_None)

lemma rfind_byte_append:
  assumes "\<forall>x\<in>set t. \<not> p x" and "p c"
  shows "rfind_byte p (s @ c # t) = Some (length s)"
  using assms position_append [of "rev t" p c "rev s"] by (simp add: rfind_byte_def)

section \<open>White space\<close>

text \<open>
  \<open>char::is_whitespace\<close> is Unicode's \<open>White_Space\<close>; here are the UTF-8 encodings of its 25 code
  points.  In UTF-8 an encoding found at a byte position is that character, so a prefix (suffix)
  test trims exactly what \<open>str::trim\<close> does.
\<close>

definition white_space :: "string list" where
  "white_space =
     [[CHR 0x09], [CHR 0x0A], [CHR 0x0B], [CHR 0x0C], [CHR 0x0D], [CHR 0x20],
      [CHR 0xC2, CHR 0x85], [CHR 0xC2, CHR 0xA0], [CHR 0xE1, CHR 0x9A, CHR 0x80]]
     @ map (\<lambda>b. [CHR 0xE2, CHR 0x80, b])
         [CHR 0x80, CHR 0x81, CHR 0x82, CHR 0x83, CHR 0x84, CHR 0x85, CHR 0x86, CHR 0x87, CHR 0x88,
          CHR 0x89, CHR 0x8A, CHR 0xA8, CHR 0xA9, CHR 0xAF]
     @ [[CHR 0xE2, CHR 0x81, CHR 0x9F], [CHR 0xE3, CHR 0x80, CHR 0x80]]"

text \<open>The length of the white-space character a byte string starts with, \<open>0\<close> if none.\<close>

definition ws_head :: "string \<Rightarrow> nat" where
  "ws_head s = (case find (\<lambda>w. prefix w s) white_space of None \<Rightarrow> 0 | Some w \<Rightarrow> length w)"

definition ws_last :: "string \<Rightarrow> nat" where
  "ws_last s = (case find (\<lambda>w. prefix (rev w) s) white_space of None \<Rightarrow> 0 | Some w \<Rightarrow> length w)"

lemma ws_head_Nil [simp]: "ws_head [] = 0"
  by (simp add: ws_head_def white_space_def)

lemma ws_last_Nil [simp]: "ws_last [] = 0"
  by (simp add: ws_last_def white_space_def)

function trim_start :: "string \<Rightarrow> string" where
  "trim_start s = (if ws_head s = 0 then s else trim_start (drop (ws_head s) s))"
  by pat_completeness auto
termination
proof (relation "measure length", simp)
  fix s :: string
  assume "ws_head s \<noteq> 0"
  then show "(drop (ws_head s) s, s) \<in> measure length" by (cases s) auto
qed

text \<open>\<open>trim_end\<close> works on the reversed bytes with the reversed encodings.\<close>

function trim_back :: "string \<Rightarrow> string" where
  "trim_back s = (if ws_last s = 0 then s else trim_back (drop (ws_last s) s))"
  by pat_completeness auto
termination
proof (relation "measure length", simp)
  fix s :: string
  assume "ws_last s \<noteq> 0"
  then show "(drop (ws_last s) s, s) \<in> measure length" by (cases s) auto
qed

declare trim_start.simps [simp del] trim_back.simps [simp del]

definition trim :: "string \<Rightarrow> string" where
  "trim s = rev (trim_back (rev (trim_start s)))"

text \<open>\<open>str::split_whitespace\<close>: the maximal runs of non-white-space, empty runs dropped.\<close>

function split_ws :: "string \<Rightarrow> string \<Rightarrow> string list" where
  "split_ws acc [] = (if acc = [] then [] else [acc])"
| "split_ws acc (x # xs) =
     (if ws_head (x # xs) = 0 then split_ws (acc @ [x]) xs
      else (if acc = [] then [] else [acc]) @ split_ws [] (drop (ws_head (x # xs)) (x # xs)))"
  by pat_completeness auto
termination
  by (relation "measure (\<lambda>(acc, s). length s)") auto

definition split_whitespace :: "string \<Rightarrow> string list" where
  "split_whitespace s = split_ws [] s"

lemma trim_start_suffix: "suffix (trim_start s) s"
proof (induction s rule: trim_start.induct)
  case (1 s)
  show ?case
  proof (cases "ws_head s = 0")
    case True
    then show ?thesis by (simp add: trim_start.simps [of s])
  next
    case False
    with 1 have "suffix (trim_start (drop (ws_head s) s)) s"
      using suffix_drop suffix_order.trans by blast
    with False show ?thesis by (simp add: trim_start.simps [of s])
  qed
qed

lemma trim_back_suffix: "suffix (trim_back s) s"
proof (induction s rule: trim_back.induct)
  case (1 s)
  show ?case
  proof (cases "ws_last s = 0")
    case True
    then show ?thesis by (simp add: trim_back.simps [of s])
  next
    case False
    with 1 have "suffix (trim_back (drop (ws_last s) s)) s"
      using suffix_drop suffix_order.trans by blast
    with False show ?thesis by (simp add: trim_back.simps [of s])
  qed
qed

lemma set_trim: "set (trim s) \<subseteq> set s"
proof -
  have "set (trim s) \<subseteq> set (trim_start s)"
    using set_mono_suffix [OF trim_back_suffix [of "rev (trim_start s)"]] by (simp add: trim_def)
  also have "\<dots> \<subseteq> set s" by (rule set_mono_suffix [OF trim_start_suffix])
  finally show ?thesis .
qed

text \<open>Visible ASCII at both ends: nothing to trim.\<close>

definition visible :: "char \<Rightarrow> bool" where
  "visible c \<longleftrightarrow> 33 \<le> ord c \<and> ord c < 127"

lemma white_space_invisible:
  "list_all (\<lambda>w. w \<noteq> [] \<and> \<not> visible (hd w) \<and> \<not> visible (last w)) white_space"
  by code_simp

lemma ws_head_visible: "visible c \<Longrightarrow> ws_head (c # s) = 0"
proof -
  assume c: "visible c"
  have "\<not> prefix w (c # s)" if "w \<in> set white_space" for w
    using white_space_invisible that c by (cases w) (auto simp: list_all_iff)
  then have "find (\<lambda>w. prefix w (c # s)) white_space = None" by (simp add: find_None_iff)
  then show ?thesis by (simp add: ws_head_def)
qed

lemma ws_last_visible: "visible c \<Longrightarrow> ws_last (c # s) = 0"
proof -
  assume c: "visible c"
  have "\<not> prefix (rev w) (c # s)" if "w \<in> set white_space" for w
    using white_space_invisible that c by (cases w rule: rev_cases) (auto simp: list_all_iff)
  then have "find (\<lambda>w. prefix (rev w) (c # s)) white_space = None" by (simp add: find_None_iff)
  then show ?thesis by (simp add: ws_last_def)
qed

lemma trim_visible:
  assumes "s \<noteq> []" and "visible (hd s)" and "visible (last s)"
  shows "trim s = s"
proof -
  obtain c t where s: "s = c # t" using assms(1) by (cases s) auto
  obtain d u where r: "rev s = d # u" using assms(1) by (cases "rev s") auto
  have d: "visible d" using assms(3) r by (metis hd_rev list.sel(1))
  have "ws_head s = 0" using assms(2) s ws_head_visible by simp
  then have "trim_start s = s" by (simp add: trim_start.simps [of s])
  moreover have "ws_last (rev s) = 0" using d r ws_last_visible by simp
  then have "trim_back (rev s) = rev s" by (simp add: trim_back.simps [of "rev s"])
  ultimately show ?thesis by (simp add: trim_def)
qed

text \<open>What evaluates the trimming and the case of plain text.\<close>

lemmas plain_text = trim_visible visible_def byte_defs to_ascii_lowercase_def

lemma split_ws_nonempty: "t \<in> set (split_ws acc s) \<Longrightarrow> t \<noteq> []"
  by (induction acc s rule: split_ws.induct) (auto split: if_splits)

section \<open>UTF-8\<close>

text \<open>
  The decoder behind \<open>String::from_utf8_lossy\<close>: \<open>utf8_unit b bs\<close> looks at the sequence that
  starts with byte \<open>b\<close> and tells whether it is a character and how many bytes after \<open>b\<close> it
  takes; when it is not, those bytes are the rest of the maximal ill-formed prefix.
\<close>

definition is_cont :: "char \<Rightarrow> bool" where
  "is_cont c \<longleftrightarrow> 128 \<le> ord c \<and> ord c < 192"

text \<open>How many of the next bytes are continuations, at most the given number.\<close>

fun conts :: "nat \<Rightarrow> string \<Rightarrow> nat" where
  "conts 0 bs = 0"
| "conts (Suc n) [] = 0"
| "conts (Suc n) (b # bs) = (if is_cont b then Suc (conts n bs) else 0)"

definition utf8_second3 :: "nat \<Rightarrow> nat \<Rightarrow> bool" where
  "utf8_second3 b c \<longleftrightarrow>
     (if b = 0xE0 then 0xA0 \<le> c \<and> c \<le> 0xBF
      else if b = 0xED then 0x80 \<le> c \<and> c \<le> 0x9F
      else 0x80 \<le> c \<and> c \<le> 0xBF)"

definition utf8_second4 :: "nat \<Rightarrow> nat \<Rightarrow> bool" where
  "utf8_second4 b c \<longleftrightarrow>
     (if b = 0xF0 then 0x90 \<le> c \<and> c \<le> 0xBF
      else if b = 0xF4 then 0x80 \<le> c \<and> c \<le> 0x8F
      else 0x80 \<le> c \<and> c \<le> 0xBF)"

definition utf8_tail :: "(nat \<Rightarrow> bool) \<Rightarrow> nat \<Rightarrow> string \<Rightarrow> bool \<times> nat" where
  "utf8_tail second n bs =
     (case bs of [] \<Rightarrow> (False, 0)
      | c # cs \<Rightarrow> if second (ord c) then (conts n cs = n, Suc (conts n cs)) else (False, 0))"

definition utf8_unit :: "char \<Rightarrow> string \<Rightarrow> bool \<times> nat" where
  "utf8_unit b bs =
     (if ord b < 0x80 then (True, 0)
      else if 0xC2 \<le> ord b \<and> ord b \<le> 0xDF then (conts 1 bs = 1, conts 1 bs)
      else if 0xE0 \<le> ord b \<and> ord b \<le> 0xEF then utf8_tail (utf8_second3 (ord b)) 1 bs
      else if 0xF0 \<le> ord b \<and> ord b \<le> 0xF4 then utf8_tail (utf8_second4 (ord b)) 2 bs
      else (False, 0))"

definition replacement :: string where
  "replacement = [CHR 0xEF, CHR 0xBF, CHR 0xBD]"

function from_utf8_lossy :: "string \<Rightarrow> string" where
  "from_utf8_lossy [] = []"
| "from_utf8_lossy (b # bs) =
     (let (ok, n) = utf8_unit b bs
      in (if ok then b # take n bs else replacement) @ from_utf8_lossy (drop n bs))"
  by pat_completeness auto
termination
  by (relation "measure length") auto

function utf8_valid :: "string \<Rightarrow> bool" where
  "utf8_valid [] = True"
| "utf8_valid (b # bs) = (let (ok, n) = utf8_unit b bs in ok \<and> utf8_valid (drop n bs))"
  by pat_completeness auto
termination
  by (relation "measure length") auto

text \<open>On valid UTF-8 the lossy conversion changes nothing.\<close>

lemma from_utf8_lossy_valid: "utf8_valid s \<Longrightarrow> from_utf8_lossy s = s"
  by (induction s rule: utf8_valid.induct) (auto split: prod.splits)

lemma conts_le: "conts n bs \<le> n"
  by (induction n bs rule: conts.induct) auto

text \<open>An ASCII string is valid UTF-8.\<close>

lemma utf8_valid_ascii: "\<forall>c\<in>set s. ord c < 128 \<Longrightarrow> utf8_valid s"
  by (induction s) (auto simp: utf8_unit_def)

text \<open>The decoder's alphabet: every output byte is an input byte or one of the replacement's.\<close>

lemma set_from_utf8_lossy: "set (from_utf8_lossy s) \<subseteq> set s \<union> set replacement"
proof (induction s rule: from_utf8_lossy.induct)
  case 1
  then show ?case by simp
next
  case (2 b bs)
  obtain ok n where u: "utf8_unit b bs = (ok, n)" by (cases "utf8_unit b bs")
  from 2 [OF u [symmetric] refl] have "set (from_utf8_lossy (drop n bs)) \<subseteq> set bs \<union> set replacement"
    by (meson Un_mono order_refl order_trans set_drop_subset)
  then show ?case using u by (auto dest: in_set_takeD)
qed

section \<open>Numbers\<close>

definition digit_val :: "char \<Rightarrow> nat option" where
  "digit_val c = (if byte_is_digit c then Some (ord c - 48) else None)"

definition hex_val :: "char \<Rightarrow> nat option" where
  "hex_val c =
     (if byte_is_digit c then Some (ord c - 48)
      else if 65 \<le> ord c \<and> ord c \<le> 70 then Some (ord c - 55)
      else if 97 \<le> ord c \<and> ord c \<le> 102 then Some (ord c - 87)
      else None)"

text \<open>The value of a run of decimal digits, read left to right.\<close>

fun digits_val :: "nat \<Rightarrow> string \<Rightarrow> nat option" where
  "digits_val acc [] = Some acc"
| "digits_val acc (c # cs) =
     (case digit_val c of None \<Rightarrow> None | Some d \<Rightarrow> digits_val (10 * acc + d) cs)"

text \<open>
  \<open>str::parse\<close> for an unsigned type: one optional leading \<open>+\<close>, then at least one digit, and a
  value within the type's range.
\<close>

definition parse_unsigned :: "int \<Rightarrow> string \<Rightarrow> nat option" where
  "parse_unsigned bound s =
     (let ds = (case s of c # cs \<Rightarrow> if c = CHR ''+'' then cs else s | [] \<Rightarrow> s)
      in if ds = [] then None
         else (case digits_val 0 ds of
                 None \<Rightarrow> None
               | Some n \<Rightarrow> if int n < bound then Some n else None))"

text \<open>The decimal rendering \<open>{}\<close> of an unsigned number.\<close>

definition digit_char :: "nat \<Rightarrow> char" where
  "digit_char n = char_of (48 + n)"

fun nat_str :: "nat \<Rightarrow> string" where
  "nat_str n = (if n < 10 then [digit_char n] else nat_str (n div 10) @ [digit_char (n mod 10)])"

declare nat_str.simps [simp del]

lemma nat_str_small: "nat_str 0 = ''0''" "nat_str (Suc 0) = ''1''"
  by code_simp+

lemma ord_digit_char [simp]: "n < 10 \<Longrightarrow> ord (digit_char n) = 48 + n"
  by (simp add: ord_def digit_char_def)

lemma digit_val_digit_char [simp]: "n < 10 \<Longrightarrow> digit_val (digit_char n) = Some n"
  by (simp add: digit_val_def byte_is_digit_def)

lemma digits_val_append:
  "digits_val acc (s @ t) = (case digits_val acc s of None \<Rightarrow> None | Some a \<Rightarrow> digits_val a t)"
  by (induction s arbitrary: acc) (auto split: option.splits)

lemma digits_val_nat_str: "digits_val 0 (nat_str n) = Some n"
proof (induction n rule: nat_str.induct)
  case (1 n)
  show ?case
  proof (cases "n < 10")
    case True
    then show ?thesis by (subst nat_str.simps) simp
  next
    case False
    with 1 have "digits_val 0 (nat_str (n div 10)) = Some (n div 10)" by simp
    with False show ?thesis by (subst nat_str.simps) (simp add: digits_val_append)
  qed
qed

lemma nat_str_not_Nil [simp]: "nat_str n \<noteq> []"
  by (subst nat_str.simps) simp

lemma nat_str_inj [simp]: "nat_str m = nat_str n \<longleftrightarrow> m = n"
  by (metis digits_val_nat_str option.inject)

lemma nat_str_digits: "c \<in> set (nat_str n) \<Longrightarrow> byte_is_digit c"
proof (induction n rule: nat_str.induct)
  case (1 n)
  show ?case
  proof (cases "n < 10")
    case True
    with 1 show ?thesis by (simp add: nat_str.simps [of n] byte_is_digit_def)
  next
    case False
    with 1 show ?thesis by (auto simp: nat_str.simps [of n] byte_is_digit_def)
  qed
qed

text \<open>Reading a rendered number back gives the number: \<open>parse\<close> after \<open>{}\<close>.\<close>

lemma parse_nat_str: "int n < bound \<Longrightarrow> parse_unsigned bound (nat_str n) = Some n"
proof -
  assume "int n < bound"
  obtain c cs where c: "nat_str n = c # cs" by (cases "nat_str n") auto
  then have "byte_is_digit c" using nat_str_digits [of c n] by simp
  then have "c \<noteq> CHR ''+''" by (auto simp: byte_is_digit_def ord_def)
  with c \<open>int n < bound\<close> show ?thesis
    using digits_val_nat_str [of n] by (simp add: parse_unsigned_def Let_def)
qed

end
