(* ===== verification/Href.thy ===== *)
theory Href imports RustStr begin

text \<open>
  \<open>src/href.rs\<close>: turning attacker-controlled strings (ZIP entry names, OPF and container hrefs)
  into archive paths that cannot point outside the archive.

  The definitions follow the module function by function.  \<open>safe_path\<close> is what a path that
  leaves this module promises; \<open>depth_after\<close> and \<open>escapes\<close> are the independent reading of
  "climbs above the root" the traversal check is compared with.  The locale \<open>path_policy\<close> is the
  interface the readers of documents (container, OPF, navigation, overlays) rely on.
\<close>

section \<open>Definitions\<close>

definition MAX_PATH_BYTES :: usize where
  "MAX_PATH_BYTES = 1024"

datatype target = Entry string | Remote string

datatype path_error = Empty | TooLong | Absolute | Traversal | IllegalByte char

text \<open>The \<open>Display\<close> of a refusal, as the pieces of its format string.\<close>

fun path_error_message :: "path_error \<Rightarrow> message" where
  "path_error_message Empty = [Lit ''path is empty'']"
| "path_error_message TooLong =
     [Lit ''path is longer than '', Num MAX_PATH_BYTES, Lit '' bytes'']"
| "path_error_message Absolute = [Lit ''path is absolute; archive paths are root-relative'']"
| "path_error_message Traversal = [Lit ''path escapes the archive root'']"
| "path_error_message (IllegalByte c) =
     [Lit ''path contains an illegal character '', Dbg [c]]"

text \<open>
  \<open>u8::from_str_radix(h, 16)\<close> on the two bytes after a \<open>%\<close>.  The standard library accepts a
  leading \<open>+\<close> before the digits, so \<open>%+A\<close> is read as the byte 10.
\<close>

definition hex_pair :: "char \<Rightarrow> char \<Rightarrow> char option" where
  "hex_pair a b =
     (if a = CHR ''+'' then map_option char_of (hex_val b)
      else (case (hex_val a, hex_val b) of
              (Some x, Some y) \<Rightarrow> Some (char_of (16 * x + y))
            | _ \<Rightarrow> None))"

fun percent_bytes :: "string \<Rightarrow> string" where
  "percent_bytes (c # a # b # cs) =
     (if c = CHR ''%''
      then (case hex_pair a b of
              Some v \<Rightarrow> v # percent_bytes cs
            | None \<Rightarrow> c # percent_bytes (a # b # cs))
      else c # percent_bytes (a # b # cs))"
| "percent_bytes (c # cs) = c # percent_bytes cs"
| "percent_bytes [] = []"

definition percent_decode :: "string \<Rightarrow> string" where
  "percent_decode input =
     (if CHR ''%'' \<notin> set input then input else from_utf8_lossy (percent_bytes input))"

definition parent_dir :: "string \<Rightarrow> string" where
  "parent_dir path =
     (case rfind_byte (\<lambda>c. c = CHR ''/'') path of Some i \<Rightarrow> take i path | None \<Rightarrow> [])"

definition scheme_byte :: "char \<Rightarrow> bool" where
  "scheme_byte b \<longleftrightarrow> byte_is_alnum b \<or> b = CHR ''+'' \<or> b = CHR ''-'' \<or> b = CHR ''.''"

definition is_absolute_uri :: "string \<Rightarrow> bool" where
  "is_absolute_uri href =
     (case find_byte (\<lambda>c. c = CHR '':'') href of
        None \<Rightarrow> False
      | Some colon \<Rightarrow>
          if colon < 2 then False
          else (let scheme = take colon href
                in (case scheme of [] \<Rightarrow> False | c # _ \<Rightarrow> byte_is_alpha c)
                   \<and> list_all scheme_byte scheme))"

text \<open>The loop of \<open>normalize\<close> over the segments of the path, on the vector of segments kept.\<close>

fun push_segments :: "string list \<Rightarrow> string list \<Rightarrow> path_error + string list" where
  "push_segments segments [] = Inr segments"
| "push_segments segments (s # ss) =
     (if s = [] \<or> s = ''.'' then push_segments segments ss
      else if s = ''..'' then
        (if segments = [] then Inl Traversal else push_segments (butlast segments) ss)
      else push_segments (segments @ [s]) ss)"

definition base_segments :: "string \<Rightarrow> string list" where
  "base_segments base_dir = (if base_dir = [] then [] else split_on CHR ''/'' base_dir)"

definition normalize :: "string \<Rightarrow> string \<Rightarrow> path_error + string" where
  "normalize base_dir path =
     (if path = [] then Inl Empty
      else if length path + length base_dir + 1 > MAX_PATH_BYTES then Inl TooLong
      else if CHR 0x00 \<in> set path then Inl (IllegalByte CHR 0x00)
      else (let path = replace_byte CHR 0x5C CHR ''/'' path
            in if prefix ''/'' path then Inl Absolute
               else and_then (push_segments (base_segments base_dir) (split_on CHR ''/'' path))
                      (\<lambda>segments. if segments = [] then Inl Empty
                                   else Inr (join_on CHR ''/'' segments))))"

definition resolve :: "string \<Rightarrow> string \<Rightarrow> path_error + target" where
  "resolve base_dir href =
     (if length href > MAX_PATH_BYTES then Inl TooLong
      else if is_absolute_uri href then Inr (Remote href)
      else (let without_fragment = before CHR ''#'' href;
                decoded = percent_decode without_fragment
            in map_sum id Entry (normalize base_dir decoded)))"

definition check_entry_name :: "string \<Rightarrow> path_error + string option" where
  "check_entry_name name =
     (if suffix ''/'' name \<or> suffix [CHR 0x5C] name
      then and_then (normalize [] name) (\<lambda>_. Inr None)
      else map_sum id Some (normalize [] name))"

section \<open>What a path that leaves this module promises\<close>

definition safe_segment :: "string \<Rightarrow> bool" where
  "safe_segment s \<longleftrightarrow>
     s \<noteq> [] \<and> s \<noteq> ''.'' \<and> s \<noteq> ''..''
     \<and> CHR ''/'' \<notin> set s \<and> CHR 0x5C \<notin> set s \<and> CHR 0x00 \<notin> set s"

text \<open>
  A safe path: within the length bound, not empty, and made of segments that are proper names,
  so it has no leading or doubled \<open>/\<close>, no backslash, no NUL and nothing that climbs.
\<close>

definition safe_path :: "string \<Rightarrow> bool" where
  "safe_path p \<longleftrightarrow>
     length p \<le> MAX_PATH_BYTES \<and> list_all safe_segment (split_on CHR ''/'' p)"

definition safe_dir :: "string \<Rightarrow> bool" where
  "safe_dir d \<longleftrightarrow> d = [] \<or> safe_path d"

text \<open>
  The depth below the root after walking a list of segments, on the integers, so that it can go
  negative; a walk escapes when some prefix of it does.
\<close>

definition segment_step :: "string \<Rightarrow> int" where
  "segment_step s = (if s = [] \<or> s = ''.'' then 0 else if s = ''..'' then - 1 else 1)"

definition depth_after :: "nat \<Rightarrow> string list \<Rightarrow> int" where
  "depth_after n ss = int n + sum_list (map segment_step ss)"

definition escapes :: "nat \<Rightarrow> string list \<Rightarrow> bool" where
  "escapes n ss \<longleftrightarrow> (\<exists>k \<le> length ss. depth_after n (take k ss) < 0)"

section \<open>The segment loop\<close>

lemma push_segments_safe:
  assumes "push_segments segs ss = Inr r"
    and "list_all safe_segment segs"
    and "\<forall>s\<in>set ss. CHR ''/'' \<notin> set s \<and> CHR 0x5C \<notin> set s \<and> CHR 0x00 \<notin> set s"
  shows "list_all safe_segment r"
  using assms
proof (induction segs ss rule: push_segments.induct)
  case (1 segs)
  then show ?case by simp
next
  case (2 segs s ss)
  have keep: "list_all safe_segment (butlast segs)"
    using "2.prems"(2) by (auto simp: list_all_iff dest: in_set_butlastD)
  have name: "s \<noteq> [] \<Longrightarrow> s \<noteq> ''.'' \<Longrightarrow> s \<noteq> ''..'' \<Longrightarrow> list_all safe_segment (segs @ [s])"
    using "2.prems"(2,3) by (simp add: safe_segment_def [of s])
  consider "s = [] \<or> s = ''.''" | "s = ''..''" | "s \<noteq> []" "s \<noteq> ''.''" "s \<noteq> ''..''" by blast
  then show ?case
  proof cases
    case 1
    with 2 show ?thesis by auto
  next
    case 2
    with "2.IH"(2) "2.prems" keep show ?thesis by (auto split: if_splits)
  next
    case 3
    with "2.IH"(3) "2.prems" name show ?thesis by auto
  qed
qed

lemma concat_butlast: "xs \<noteq> [] \<Longrightarrow> length (concat (butlast xs)) \<le> length (concat xs)"
  by (induction xs) auto

lemma push_segments_size:
  "push_segments segs ss = Inr r \<Longrightarrow>
     length (concat r) + length r \<le> length (concat segs) + length segs + length (concat ss) + length ss"
proof (induction segs ss rule: push_segments.induct)
  case (1 segs)
  then show ?case by simp
next
  case (2 segs s ss)
  then show ?case
    using concat_butlast [of segs] by (auto split: if_splits)
qed

lemma push_segments_names:
  "list_all safe_segment ss \<Longrightarrow> push_segments segs ss = Inr (segs @ ss)"
  by (induction ss arbitrary: segs) (auto simp: safe_segment_def)

lemma push_segments_error: "push_segments segs ss = Inl e \<Longrightarrow> e = Traversal"
  by (induction segs ss rule: push_segments.induct) (auto split: if_splits)

lemma depth_after_Cons: "depth_after n (s # ss) = depth_after n [s] + sum_list (map segment_step ss)"
  by (simp add: depth_after_def)

lemma escapes_Cons:
  "escapes n (s # ss) \<longleftrightarrow> depth_after n [s] < 0 \<or> escapes (nat (depth_after n [s])) ss"
proof -
  have "(\<exists>k \<le> Suc (length ss). depth_after n (take k (s # ss)) < 0) \<longleftrightarrow>
        (\<exists>k \<le> length ss. depth_after n (s # take k ss) < 0)"
  proof
    assume "\<exists>k \<le> Suc (length ss). depth_after n (take k (s # ss)) < 0"
    then obtain k where k: "k \<le> Suc (length ss)" "depth_after n (take k (s # ss)) < 0" by blast
    then have "k \<noteq> 0" by (cases "k = 0") (auto simp: depth_after_def)
    with k show "\<exists>k \<le> length ss. depth_after n (s # take k ss) < 0" by (cases k) auto
  next
    assume "\<exists>k \<le> length ss. depth_after n (s # take k ss) < 0"
    then show "\<exists>k \<le> Suc (length ss). depth_after n (take k (s # ss)) < 0"
      by (metis Suc_le_mono take_Suc_Cons)
  qed
  then have iff: "escapes n (s # ss) \<longleftrightarrow> (\<exists>k \<le> length ss. depth_after n (s # take k ss) < 0)"
    by (simp add: escapes_def)
  show ?thesis
  proof (cases "depth_after n [s] < 0")
    case True
    then have "\<exists>k \<le> length ss. depth_after n (s # take k ss) < 0"
      by (intro exI [of _ 0]) simp
    with True iff show ?thesis by simp
  next
    case False
    then have "depth_after (nat (depth_after n [s])) xs = depth_after n (s # xs)" for xs
      by (simp add: depth_after_def)
    with False iff show ?thesis by (simp add: escapes_def)
  qed
qed

text \<open>The loop refuses a walk exactly when some prefix of it is above the root.\<close>

lemma push_segments_traversal_iff:
  "push_segments segs ss = Inl Traversal \<longleftrightarrow> escapes (length segs) ss"
proof (induction segs ss rule: push_segments.induct)
  case (1 segs)
  then show ?case by (simp add: escapes_def depth_after_def)
next
  case (2 segs s ss)
  then show ?case
    by (auto simp: escapes_Cons depth_after_def segment_step_def nat_add_distrib nat_minus_as_int)
qed

text \<open>Where it succeeds, the number of segments kept is the depth reached.\<close>

lemma push_segments_depth:
  "push_segments segs ss = Inr r \<Longrightarrow> int (length r) = depth_after (length segs) ss"
  by (induction segs ss rule: push_segments.induct)
    (auto simp: depth_after_def segment_step_def of_nat_diff Suc_le_eq split: if_splits)

text \<open>What the loop keeps of the segments it starts with is a prefix; all it adds are names.\<close>

lemma push_segments_shape:
  assumes "push_segments (take k base @ names) ss = Inr r"
    and "list_all safe_segment names"
    and "\<forall>s\<in>set ss. CHR ''/'' \<notin> set s \<and> CHR 0x5C \<notin> set s \<and> CHR 0x00 \<notin> set s"
  shows "\<exists>j names'. r = take j base @ names' \<and> list_all safe_segment names'"
  using assms
proof (induction ss arbitrary: k names)
  case Nil
  then show ?case by auto
next
  case (Cons s ss)
  consider (skip) "s = [] \<or> s = ''.''" | (up) "s = ''..''" | (name) "s \<noteq> []" "s \<noteq> ''.''" "s \<noteq> ''..''"
    by blast
  then show ?case
  proof cases
    case skip
    with Cons show ?thesis by auto
  next
    case up
    have rest: "push_segments (butlast (take k base @ names)) ss = Inr r"
      using Cons.prems(1) up by (auto split: if_splits)
    show ?thesis
    proof (cases names rule: rev_cases)
      case Nil
      have "butlast (take k base) = take (min k (length base) - 1) base"
        by (simp add: butlast_conv_take min_def take_all_iff)
      with rest Nil show ?thesis
        using Cons.IH [of "min k (length base) - 1" "[]"] Cons.prems(3) by simp
    next
      case (snoc ns n)
      with rest have "push_segments (take k base @ ns) ss = Inr r" by (simp add: butlast_append)
      then show ?thesis using Cons.IH Cons.prems(2,3) snoc by simp
    qed
  next
    case name
    then have "list_all safe_segment (names @ [s])"
      using Cons.prems(2,3) by (simp add: safe_segment_def [of s])
    moreover have "push_segments (take k base @ names @ [s]) ss = Inr r"
      using Cons.prems(1) name by simp
    ultimately show ?thesis using Cons.IH Cons.prems(3) by simp
  qed
qed

section \<open>normalize\<close>

lemma safe_path_split: "safe_path p \<Longrightarrow> list_all safe_segment (split_on CHR ''/'' p)"
  by (simp add: safe_path_def)

lemma safe_path_nonempty: "safe_path p \<Longrightarrow> p \<noteq> []"
  by (auto simp: safe_path_def safe_segment_def)

lemma base_segments_safe: "safe_dir d \<Longrightarrow> list_all safe_segment (base_segments d)"
  by (auto simp: safe_dir_def base_segments_def safe_path_def)

lemma base_segments_size:
  "length (concat (base_segments d)) + length (base_segments d) \<le> Suc (length d)"
  using length_split_on [of "CHR ''/''" d] by (auto simp: base_segments_def)

lemma path_bytes_clean:
  assumes "CHR 0x00 \<notin> set p"
  shows "\<forall>s\<in>set (split_on CHR ''/'' (replace_byte CHR 0x5C CHR ''/'' p)).
           CHR ''/'' \<notin> set s \<and> CHR 0x5C \<notin> set s \<and> CHR 0x00 \<notin> set s"
proof
  fix s assume s: "s \<in> set (split_on CHR ''/'' (replace_byte CHR 0x5C CHR ''/'' p))"
  then have "set s \<subseteq> set (replace_byte CHR 0x5C CHR ''/'' p)" by (rule split_on_subset)
  moreover have "CHR 0x5C \<notin> set (replace_byte CHR 0x5C CHR ''/'' p)" by (rule set_replace_byte) simp
  moreover have "CHR 0x00 \<notin> set (replace_byte CHR 0x5C CHR ''/'' p)"
    using assms by (auto simp: replace_byte_def split: if_splits)
  ultimately show "CHR ''/'' \<notin> set s \<and> CHR 0x5C \<notin> set s \<and> CHR 0x00 \<notin> set s"
    using split_on_pieces [OF s] by blast
qed

lemma normalize_Inr:
  assumes "normalize d p = Inr q"
  obtains segs where
    "push_segments (base_segments d) (split_on CHR ''/'' (replace_byte CHR 0x5C CHR ''/'' p)) = Inr segs"
    "segs \<noteq> []" "q = join_on CHR ''/'' segs" "CHR 0x00 \<notin> set p"
    "length p + length d + 1 \<le> MAX_PATH_BYTES"
  using assms by (auto simp: normalize_def Let_def and_then_eq_Inr split: if_splits)

lemma normalize_segments:
  assumes "safe_dir d" "normalize d p = Inr q"
  shows "list_all safe_segment (split_on CHR ''/'' q)"
proof -
  from assms(2) obtain segs where segs:
    "push_segments (base_segments d) (split_on CHR ''/'' (replace_byte CHR 0x5C CHR ''/'' p)) = Inr segs"
    "segs \<noteq> []" "q = join_on CHR ''/'' segs" "CHR 0x00 \<notin> set p"
    by (rule normalize_Inr)
  have safe: "list_all safe_segment segs"
    using push_segments_safe [OF segs(1) base_segments_safe [OF assms(1)] path_bytes_clean [OF segs(4)]] .
  then have "split_on CHR ''/'' q = segs"
    using segs(2,3) by (auto simp: list_all_iff safe_segment_def intro!: split_join)
  with safe show ?thesis by simp
qed

lemma normalize_length:
  assumes "normalize d p = Inr q"
  shows "length q \<le> length d + 1 + length p"
proof -
  from assms obtain segs where segs:
    "push_segments (base_segments d) (split_on CHR ''/'' (replace_byte CHR 0x5C CHR ''/'' p)) = Inr segs"
    "segs \<noteq> []" "q = join_on CHR ''/'' segs"
    by (rule normalize_Inr)
  have "Suc (length q) = length (concat segs) + length segs"
    using segs(2,3) by (simp add: length_join_on)
  also have "\<dots> \<le> Suc (length d) + Suc (length p)"
    using push_segments_size [OF segs(1)] base_segments_size [of d]
      length_split_on [of "CHR ''/''" "replace_byte CHR 0x5C CHR ''/'' p"] by simp
  finally show ?thesis by simp
qed

lemma normalize_bounded:
  assumes "normalize d p = Inr q"
  shows "length q \<le> MAX_PATH_BYTES"
  using normalize_length [OF assms] normalize_Inr [OF assms] by (metis add.commute add.left_commute le_trans)

lemma normalize_shape:
  assumes "normalize d p = Inr q"
  shows "\<exists>k names. q = join_on CHR ''/'' (take k (base_segments d) @ names) \<and> list_all safe_segment names"
proof -
  from assms obtain segs where segs:
    "push_segments (base_segments d) (split_on CHR ''/'' (replace_byte CHR 0x5C CHR ''/'' p)) = Inr segs"
    "q = join_on CHR ''/'' segs" "CHR 0x00 \<notin> set p"
    by (rule normalize_Inr)
  have "push_segments (take (length (base_segments d)) (base_segments d) @ [])
      (split_on CHR ''/'' (replace_byte CHR 0x5C CHR ''/'' p)) = Inr segs"
    using segs(1) by simp
  from push_segments_shape [OF this _ path_bytes_clean [OF segs(3)]] segs(2) show ?thesis by auto
qed

lemma normalize_safe_path:
  assumes "safe_dir d" "normalize d p = Inr q"
  shows "safe_path q"
  using normalize_segments [OF assms] normalize_bounded [OF assms(2)] by (simp add: safe_path_def)

lemma safe_path_bytes: "safe_path p \<Longrightarrow> CHR 0x5C \<notin> set p \<and> CHR 0x00 \<notin> set p"
  using set_join_on [of "CHR ''/''" "split_on CHR ''/'' p"]
  by (auto simp: safe_path_def list_all_iff safe_segment_def)

lemma safe_path_not_absolute: "safe_path p \<Longrightarrow> \<not> prefix ''/'' p"
  by (cases p) (auto simp: safe_path_def safe_segment_def)

lemma safe_path_no_trailing: "safe_path p \<Longrightarrow> p \<noteq> t @ ''/''"
proof
  assume "safe_path p" "p = t @ ''/''"
  moreover have "split_on c (t @ [c]) = split_on c t @ [[]]" for c
    by (induction t) (auto split: list.splits)
  ultimately show False by (simp add: safe_path_def safe_segment_def)
qed

lemma normalize_length_root: "normalize [] p = Inr q \<Longrightarrow> length q \<le> length p"
proof -
  assume "normalize [] p = Inr q"
  then obtain segs where segs:
    "push_segments [] (split_on CHR ''/'' (replace_byte CHR 0x5C CHR ''/'' p)) = Inr segs"
    "segs \<noteq> []" "q = join_on CHR ''/'' segs"
    by (rule normalize_Inr) (simp add: base_segments_def)
  show ?thesis
    using push_segments_size [OF segs(1)] length_join_on [OF segs(2), of "CHR ''/''"] segs(3)
      length_split_on [of "CHR ''/''" "replace_byte CHR 0x5C CHR ''/'' p"] by simp
qed

text \<open>A safe path that leaves room for the separator is a fixed point.\<close>

lemma normalize_fixpoint:
  assumes "safe_path p" "length p < MAX_PATH_BYTES"
  shows "normalize [] p = Inr p"
proof -
  have "push_segments [] (split_on CHR ''/'' p) = Inr (split_on CHR ''/'' p)"
    using push_segments_names [OF safe_path_split [OF assms(1)], of "[]"] by simp
  then show ?thesis
    using assms safe_path_bytes [OF assms(1)] safe_path_not_absolute [OF assms(1)]
      safe_path_nonempty [OF assms(1)]
    by (simp add: normalize_def base_segments_def)
qed

section \<open>Percent escapes\<close>

text \<open>
  A reference encoder: any choice of bytes to leave as they are, everything else, the percent
  sign always, as \<open>%XX\<close>.
\<close>

definition hex_digit :: "nat \<Rightarrow> char" where
  "hex_digit n = (if n < 10 then char_of (48 + n) else char_of (55 + n))"

fun percent_encode :: "(char \<Rightarrow> bool) \<Rightarrow> string \<Rightarrow> string" where
  "percent_encode keep [] = []"
| "percent_encode keep (c # cs) =
     (if keep c \<and> c \<noteq> CHR ''%'' then c # percent_encode keep cs
      else CHR ''%'' # hex_digit (ord c div 16) # hex_digit (ord c mod 16) # percent_encode keep cs)"

lemma hex_val_hex_digit: "n < 16 \<Longrightarrow> hex_val (hex_digit n) = Some n"
  by (auto simp: hex_val_def hex_digit_def byte_is_digit_def ord_def)

lemma hex_digit_not_plus: "n < 16 \<Longrightarrow> hex_digit n \<noteq> CHR ''+''"
  using hex_val_hex_digit [of n] by (auto simp: hex_val_def byte_is_digit_def ord_def)

lemma hex_pair_byte: "hex_pair (hex_digit (ord c div 16)) (hex_digit (ord c mod 16)) = Some c"
proof -
  have "ord c < 256" by (simp add: ord_def)
  then have "ord c div 16 < 16" "ord c mod 16 < 16" by auto
  then show ?thesis
    by (simp add: hex_pair_def hex_digit_not_plus hex_val_hex_digit ord_def mult_div_mod_eq)
qed

lemma percent_bytes_other: "c \<noteq> CHR ''%'' \<Longrightarrow> percent_bytes (c # cs) = c # percent_bytes cs"
  by (cases cs; cases "tl cs") auto

lemma percent_bytes_encode: "percent_bytes (percent_encode keep s) = s"
  by (induction s) (auto simp: hex_pair_byte percent_bytes_other)

lemma percent_encode_plain: "CHR ''%'' \<notin> set (percent_encode keep s) \<Longrightarrow> percent_encode keep s = s"
  by (induction s) (auto split: if_splits)

lemma percent_decode_encode: "utf8_valid s \<Longrightarrow> percent_decode (percent_encode keep s) = s"
  using percent_encode_plain [of keep s]
  by (auto simp: percent_decode_def percent_bytes_encode from_utf8_lossy_valid)

lemma hex_digit_in: "n < 16 \<Longrightarrow> hex_digit n \<noteq> CHR ''#'' \<and> hex_digit n \<noteq> CHR '':''"
  using hex_val_hex_digit [of n] by (auto simp: hex_val_def byte_is_digit_def ord_def)

lemma percent_encode_set:
  "c \<in> set (percent_encode keep s) \<Longrightarrow> c = CHR ''#'' \<or> c = CHR '':'' \<Longrightarrow> keep c"
proof (induction s)
  case Nil
  then show ?case by simp
next
  case (Cons b s)
  have "ord b < 256" by (simp add: ord_def)
  then have "ord b div 16 < 16" "ord b mod 16 < 16" by auto
  then have "c \<noteq> hex_digit (ord b div 16)" "c \<noteq> hex_digit (ord b mod 16)"
    using Cons.prems(2) hex_digit_in by metis+
  with Cons show ?case by (auto split: if_splits)
qed

lemma no_colon_not_absolute: "CHR '':'' \<notin> set h \<Longrightarrow> \<not> is_absolute_uri h"
proof -
  assume "CHR '':'' \<notin> set h"
  then have "find_byte (\<lambda>c. c = CHR '':'') h = None"
    unfolding find_byte_def position_None by blast
  then show ?thesis by (simp add: is_absolute_uri_def)
qed

section \<open>Resolution\<close>

lemma resolve_Entry:
  "resolve d h = Inr (Entry q) \<longleftrightarrow>
     length h \<le> MAX_PATH_BYTES \<and> \<not> is_absolute_uri h
     \<and> normalize d (percent_decode (before CHR ''#'' h)) = Inr q"
  by (cases "normalize d (percent_decode (before CHR ''#'' h))")
    (auto simp: resolve_def Let_def)

lemma resolve_Remote:
  "resolve d h = Inr (Remote u) \<longleftrightarrow> length h \<le> MAX_PATH_BYTES \<and> is_absolute_uri h \<and> u = h"
  by (cases "normalize d (percent_decode (before CHR ''#'' h))")
    (auto simp: resolve_def Let_def)

lemma take_rfind_split:
  "rfind_byte (\<lambda>c. c = x) s = Some i \<Longrightarrow> \<exists>t. s = take i s @ x # t \<and> x \<notin> set t"
proof -
  assume "rfind_byte (\<lambda>c. c = x) s = Some i"
  then obtain j where j: "position (\<lambda>c. c = x) (rev s) = Some j" "i = length s - 1 - j"
    by (auto simp: rfind_byte_def)
  from position_Some [OF j(1)] have lt: "j < length s" and at: "s ! i = x"
    and before: "\<forall>k<j. rev s ! k \<noteq> x"
    by (auto simp: rev_nth j(2))
  have i: "i < length s" using lt j(2) by simp
  have "x \<notin> set (drop (Suc i) s)"
  proof
    assume "x \<in> set (drop (Suc i) s)"
    then obtain k where k: "k < length s - Suc i" "s ! (Suc i + k) = x"
      by (auto simp: in_set_conv_nth)
    have "rev s ! (length s - 1 - (Suc i + k)) = x" using k by (simp add: rev_nth)
    moreover have "length s - 1 - (Suc i + k) < j" using k lt j(2) by simp
    ultimately show False using before by blast
  qed
  with i at show ?thesis by (metis id_take_nth_drop)
qed

lemma parent_dir_safe: "safe_path p \<Longrightarrow> safe_dir (parent_dir p)"
proof (cases "rfind_byte (\<lambda>c. c = CHR ''/'') p")
  case None
  then show ?thesis by (simp add: parent_dir_def safe_dir_def)
next
  case (Some i)
  assume p: "safe_path p"
  from take_rfind_split [OF Some] obtain t where t: "p = take i p @ CHR ''/'' # t" "CHR ''/'' \<notin> set t"
    by blast
  have "split_on CHR ''/'' (take i p) @ [t] = split_on CHR ''/'' p"
  proof -
    have "join_on CHR ''/'' (split_on CHR ''/'' (take i p) @ [t]) = take i p @ CHR ''/'' # t"
      by (metis join_on_snoc join_split split_on_not_Nil)
    then have "split_on CHR ''/'' (join_on CHR ''/'' (split_on CHR ''/'' (take i p) @ [t]))
        = split_on CHR ''/'' p" using t(1) by simp
    then show ?thesis using t(2) split_on_pieces by (subst (asm) split_join) auto
  qed
  then have "list_all safe_segment (split_on CHR ''/'' (take i p))"
    using safe_path_split [OF p] by (metis list_all_append)
  moreover have "length (take i p) \<le> MAX_PATH_BYTES" using p by (auto simp: safe_path_def)
  ultimately show ?thesis using Some by (simp add: parent_dir_def safe_dir_def safe_path_def)
qed

section \<open>The path policy as an interface\<close>

text \<open>
  What the document readers rely on: a reference resolved against an acceptable directory is an
  acceptable path, and the directory of an acceptable path is acceptable.  So any chain of
  references, each resolved against the document that holds it, stays acceptable.
\<close>

fun follow :: "(string \<Rightarrow> string \<Rightarrow> 'e + target) \<Rightarrow> string \<Rightarrow> string list \<Rightarrow> string option" where
  "follow res doc [] = Some doc"
| "follow res doc (h # hs) =
     (case res (parent_dir doc) h of
        Inr (Entry p) \<Rightarrow> follow res p hs
      | _ \<Rightarrow> None)"

locale path_policy =
  fixes res :: "string \<Rightarrow> string \<Rightarrow> 'e + target"
    and path_ok :: "string \<Rightarrow> bool"
    and dir_ok :: "string \<Rightarrow> bool"
  assumes res_ok: "dir_ok d \<Longrightarrow> res d h = Inr (Entry p) \<Longrightarrow> path_ok p"
    and parent_ok: "path_ok p \<Longrightarrow> dir_ok (parent_dir p)"
begin

lemma reference_ok: "path_ok doc \<Longrightarrow> res (parent_dir doc) h = Inr (Entry p) \<Longrightarrow> path_ok p"
  by (rule res_ok [OF parent_ok])

lemma follow_ok: "path_ok doc \<Longrightarrow> follow res doc hs = Some p \<Longrightarrow> path_ok p"
  by (induction hs arbitrary: doc)
    (auto split: sum.splits target.splits dest: reference_ok)

end

interpretation href: path_policy resolve safe_path safe_dir
  by unfold_locales (auto simp: resolve_Entry intro: normalize_safe_path parent_dir_safe)

lemma check_entry_name_normalize:
  "check_entry_name name = Inr (Some q) \<Longrightarrow> normalize [] name = Inr q"
  by (cases "normalize [] name")
    (auto simp: check_entry_name_def and_then_eq_Inr split: if_splits)

lemma check_entry_name_safe: "check_entry_name name = Inr (Some q) \<Longrightarrow> safe_path q"
  by (rule normalize_safe_path [OF _ check_entry_name_normalize]) (simp add: safe_dir_def)

section \<open>Properties\<close>

text \<open>
  Property C16.  What \<open>normalize\<close> accepts, against any base directory, is at most 1024 bytes long and
  made of the first segments of the base followed by names, so nothing the path itself brings in
  climbs, is empty, is a dot, or holds a slash, a backslash or a NUL.  Against the archive's root
  or a safe directory, which is what every caller passes, the result is therefore a safe path: it is
  relative and every segment of it is a name.  The base is trusted: against \<open>..\<close> the result climbs
  (\<open>normalize_trusts_base\<close>).
\<close>

theorem normalize_stays_inside:
  assumes "normalize base_dir path = Inr q"
  shows "length q \<le> MAX_PATH_BYTES
    \<and> (\<exists>k names. q = join_on CHR ''/'' (take k (base_segments base_dir) @ names)
         \<and> list_all safe_segment names)
    \<and> (safe_dir base_dir \<longrightarrow> safe_path q)"
  using normalize_bounded [OF assms] normalize_shape [OF assms] normalize_safe_path [OF _ assms]
  by blast

theorem normalize_stays_inside_witness:
  "normalize ''OEBPS/text'' ''../images/./cover.png'' = Inr ''OEBPS/images/cover.png''
   \<and> safe_path ''OEBPS/images/cover.png''"
proof -
  have dir: "safe_dir ''OEBPS/text''"
    by (simp add: safe_dir_def safe_path_def safe_segment_def MAX_PATH_BYTES_def)
  have run: "normalize ''OEBPS/text'' ''../images/./cover.png'' = Inr ''OEBPS/images/cover.png''"
    by (simp add: normalize_def base_segments_def replace_byte_def MAX_PATH_BYTES_def)
  show ?thesis using run dir normalize_stays_inside [OF run] by blast
qed

lemma normalize_trusts_base: "normalize ''..'' ''x'' = Inr ''../x'' \<and> \<not> safe_path ''../x''"
  by (simp add: normalize_def base_segments_def replace_byte_def MAX_PATH_BYTES_def safe_path_def
      safe_segment_def)

text \<open>
  Property C17.  \<open>normalize\<close> answers \<open>Traversal\<close> exactly for the paths it looks at (not empty, not
  over-long, no NUL, not absolute) whose walk from the base directory is above the root at some
  point, wherever the walk ends.
\<close>

theorem normalize_traversal_iff:
  "normalize base_dir path = Inl Traversal \<longleftrightarrow>
     path \<noteq> [] \<and> length path + length base_dir + 1 \<le> MAX_PATH_BYTES \<and> CHR 0x00 \<notin> set path
     \<and> \<not> prefix ''/'' (replace_byte CHR 0x5C CHR ''/'' path)
     \<and> escapes (length (base_segments base_dir))
         (split_on CHR ''/'' (replace_byte CHR 0x5C CHR ''/'' path))"
  by (auto simp: normalize_def Let_def and_then_eq_Inl
        push_segments_traversal_iff [symmetric] not_less split: if_splits)

text \<open>
  Checking an entry name is idempotent: the name it gives back is checked to itself,
  so the paths the scan indexes are the canonical ones.
\<close>

theorem check_entry_name_idempotent:
  assumes "check_entry_name name = Inr (Some q)"
  shows "check_entry_name q = Inr (Some q)"
proof -
  note run = check_entry_name_normalize [OF assms] and safe = check_entry_name_safe [OF assms]
  have "length name + 1 \<le> MAX_PATH_BYTES" using run by (auto elim: normalize_Inr)
  moreover have "length q \<le> length name" using run by (rule normalize_length_root)
  ultimately have fix_q: "normalize [] q = Inr q" using safe by (intro normalize_fixpoint) auto
  show ?thesis
    using safe_path_no_trailing [OF safe] safe_path_bytes [OF safe] fix_q
    by (auto simp: check_entry_name_def suffix_def)
qed

theorem check_entry_name_idempotent_witness:
  "check_entry_name [CHR ''a'', CHR 0x5C, CHR ''b''] = Inr (Some ''a/b'')
   \<and> check_entry_name ''a/b'' = Inr (Some ''a/b'')"
proof -
  have run: "check_entry_name [CHR ''a'', CHR 0x5C, CHR ''b''] = Inr (Some ''a/b'')"
    by (simp add: check_entry_name_def normalize_def base_segments_def replace_byte_def
        MAX_PATH_BYTES_def suffix_def)
  show ?thesis using run check_entry_name_idempotent [OF run] by simp
qed

text \<open>
  Any chain of references that starts at a safe document, each resolved against the
  directory of the document that holds it, ends at a safe path: percent-encoding, fragments,
  backslashes and dots in the hrefs cannot combine into a way out of the archive.
\<close>

theorem references_stay_inside:
  assumes "safe_path doc" and "follow resolve doc hrefs = Some p"
  shows "safe_path p"
  by (rule href.follow_ok [OF assms])

theorem references_stay_inside_witness:
  "follow resolve ''OEBPS/content.opf'' [''text/c%201.xhtml#x'', ''../img/a.png''] =
     Some ''OEBPS/img/a.png'' \<and> safe_path ''OEBPS/img/a.png''"
proof -
  have doc: "safe_path ''OEBPS/content.opf''"
    by (simp add: safe_path_def safe_segment_def MAX_PATH_BYTES_def)
  have run: "follow resolve ''OEBPS/content.opf'' [''text/c%201.xhtml#x'', ''../img/a.png''] =
      Some ''OEBPS/img/a.png''"
    by code_simp
  show ?thesis using run references_stay_inside [OF doc run] by simp
qed

text \<open>
  Property C18.  Percent-encoding the bytes of a path, whichever the producer chose to escape as long
  as \<open>#\<close>, which would start a fragment, and \<open>%\<close> are among them: a reference whose encoded form is
  over 1024 bytes is refused for its length, even where the plain path would pass; one in which a
  colon was left to end a scheme is a remote one; and any other resolves to exactly what normalizing
  the plain path gives, so an encoded traversal is refused like a plain one.
\<close>

theorem resolve_percent_encoded:
  assumes "utf8_valid p" and "\<not> keep CHR ''#''"
  shows "resolve base_dir (percent_encode keep p) =
    (if length (percent_encode keep p) > MAX_PATH_BYTES then Inl TooLong
     else if keep CHR '':'' \<and> is_absolute_uri (percent_encode keep p)
       then Inr (Remote (percent_encode keep p))
     else map_sum id Entry (normalize base_dir p))"
proof -
  have "CHR ''#'' \<notin> set (percent_encode keep p)"
    using assms(2) by (auto dest: percent_encode_set)
  moreover have "percent_decode (percent_encode keep p) = p"
    using assms(1) by (rule percent_decode_encode)
  moreover have "\<not> is_absolute_uri (percent_encode keep p)" if "\<not> keep CHR '':''"
    using that by (intro no_colon_not_absolute) (auto dest: percent_encode_set)
  ultimately show ?thesis by (auto simp: resolve_def)
qed

lemma percent_encode_replicate:
  "\<not> keep c \<Longrightarrow> length (percent_encode keep (replicate n c)) = 3 * n"
  by (induction n) simp_all

theorem resolve_percent_encoded_witness:
  "resolve ''OEBPS'' ''%2E%2E%2F%2E%2E%2Fx'' = Inl Traversal
   \<and> resolve ''OEBPS'' (percent_encode (\<lambda>_. False) (replicate 400 CHR ''a'')) = Inl TooLong"
proof -
  have enc: "percent_encode (\<lambda>c. c = CHR ''x'') ''../../x'' = ''%2E%2E%2F%2E%2E%2Fx''"
    by code_simp
  have "resolve ''OEBPS'' (percent_encode (\<lambda>c. c = CHR ''x'') ''../../x'')
      = map_sum id Entry (normalize ''OEBPS'' ''../../x'')"
    by (subst resolve_percent_encoded) (simp_all add: enc MAX_PATH_BYTES_def utf8_unit_def ord_def)
  also have "\<dots> = Inl Traversal"
    by (simp add: normalize_def base_segments_def replace_byte_def MAX_PATH_BYTES_def)
  finally have climb: "resolve ''OEBPS'' ''%2E%2E%2F%2E%2E%2Fx'' = Inl Traversal" by (simp only: enc)
  have "utf8_valid (replicate 400 CHR ''a'')" by (intro utf8_valid_ascii) (simp add: ord_def)
  then show ?thesis
    using climb by (simp add: resolve_percent_encoded percent_encode_replicate MAX_PATH_BYTES_def)
qed

end
