(* ===== verification/ServerLimits.thy ===== *)
theory ServerLimits imports RustStr begin

text \<open>
  \<open>src/limits.rs\<close>: the ceilings the process enforces, how they are read from the environment,
  how a caller's options are clamped to them and how they are reported.

  \<open>limits\<close> is \<open>Limits\<close>, \<open>effective\<close> is \<open>Effective\<close> (its fields carry the prefix \<open>eff_\<close>), and
  \<open>parse_options\<close> and \<open>server_limits\<close> are the wire messages (prefixes \<open>opt_\<close> and \<open>srv_\<close>).  The
  environment is a function from names to values.
\<close>

definition MIB :: u64 where
  "MIB = 1024 * 1024"

definition DEFAULT_MAX_DOCUMENT_MIB :: u32 where
  "DEFAULT_MAX_DOCUMENT_MIB = 256"

definition DEFAULT_MAX_UNCOMPRESSED_MIB :: u32 where
  "DEFAULT_MAX_UNCOMPRESSED_MIB = 512"

definition DEFAULT_MAX_ENTRIES :: u32 where
  "DEFAULT_MAX_ENTRIES = 10000"

definition DEFAULT_MAX_COMPRESSION_RATIO :: u32 where
  "DEFAULT_MAX_COMPRESSION_RATIO = 200"

definition DEFAULT_RATIO_FLOOR_BYTES :: u64 where
  "DEFAULT_RATIO_FLOOR_BYTES = MIB"

definition DEFAULT_MAX_CHUNK_BYTES :: u64 where
  "DEFAULT_MAX_CHUNK_BYTES = 16 * MIB"

definition DEFAULT_MAX_CONCURRENT_PARSES :: usize where
  "DEFAULT_MAX_CONCURRENT_PARSES = 8"

definition DEFAULT_MAX_BUFFERED_UPLOAD_MIB :: u32 where
  "DEFAULT_MAX_BUFFERED_UPLOAD_MIB =
     DEFAULT_MAX_DOCUMENT_MIB * of_nat DEFAULT_MAX_CONCURRENT_PARSES"

lemmas default_defs = MIB_def DEFAULT_MAX_DOCUMENT_MIB_def DEFAULT_MAX_UNCOMPRESSED_MIB_def
  DEFAULT_MAX_ENTRIES_def DEFAULT_MAX_COMPRESSION_RATIO_def DEFAULT_RATIO_FLOOR_BYTES_def
  DEFAULT_MAX_CHUNK_BYTES_def DEFAULT_MAX_CONCURRENT_PARSES_def DEFAULT_MAX_BUFFERED_UPLOAD_MIB_def

record limits =
  max_document_bytes :: u64
  max_uncompressed_bytes :: u64
  max_entries :: u32
  max_compression_ratio :: u32
  compression_ratio_floor_bytes :: u64
  max_chunk_bytes :: u64
  max_concurrent_parses :: usize
  max_buffered_upload_bytes :: u64

definition default_limits :: limits where
  "default_limits = \<lparr>
     max_document_bytes = u64_of_u32 DEFAULT_MAX_DOCUMENT_MIB * MIB,
     max_uncompressed_bytes = u64_of_u32 DEFAULT_MAX_UNCOMPRESSED_MIB * MIB,
     max_entries = DEFAULT_MAX_ENTRIES,
     max_compression_ratio = DEFAULT_MAX_COMPRESSION_RATIO,
     compression_ratio_floor_bytes = DEFAULT_RATIO_FLOOR_BYTES,
     max_chunk_bytes = DEFAULT_MAX_CHUNK_BYTES,
     max_concurrent_parses = DEFAULT_MAX_CONCURRENT_PARSES,
     max_buffered_upload_bytes = u64_of_u32 DEFAULT_MAX_BUFFERED_UPLOAD_MIB * MIB\<rparr>"

type_synonym environment = "string \<Rightarrow> string option"

definition env_u64 :: "environment \<Rightarrow> string \<Rightarrow> u64 \<Rightarrow> u64" where
  "env_u64 env name dflt =
     (case Option.bind (env name) (parse_unsigned (2 ^ 64)) of
        None \<Rightarrow> dflt
      | Some value \<Rightarrow> if value = 0 then dflt else of_nat value)"

text \<open>
  \<open>Limits::from_env\<close>.  The two products \<open>max_document_mib * MIB\<close> and the inflated one are
  unchecked in the code, so they wrap here; the upload budget's product saturates.
\<close>

definition from_env :: "environment \<Rightarrow> limits" where
  "from_env env =
     (let max_document_mib =
            env_u64 env ''GRPC_EPUB_MAX_DOCUMENT_MIB'' (u64_of_u32 DEFAULT_MAX_DOCUMENT_MIB);
          concurrent_parses =
            unat (env_u64 env ''GRPC_EPUB_MAX_CONCURRENT_PARSES''
                    (of_nat (max_concurrent_parses default_limits)));
          max_buffered_upload_mib =
            max (env_u64 env ''GRPC_EPUB_MAX_BUFFERED_UPLOAD_MIB''
                   (saturating_mul max_document_mib (of_nat concurrent_parses)))
                max_document_mib
      in \<lparr>
        max_document_bytes = max_document_mib * MIB,
        max_uncompressed_bytes =
          env_u64 env ''GRPC_EPUB_MAX_UNCOMPRESSED_MIB'' (u64_of_u32 DEFAULT_MAX_UNCOMPRESSED_MIB)
          * MIB,
        max_entries =
          u32_or_max (unat (env_u64 env ''GRPC_EPUB_MAX_ENTRIES'' (u64_of_u32 DEFAULT_MAX_ENTRIES))),
        max_compression_ratio =
          u32_or_max (unat (env_u64 env ''GRPC_EPUB_MAX_COMPRESSION_RATIO''
                              (u64_of_u32 DEFAULT_MAX_COMPRESSION_RATIO))),
        compression_ratio_floor_bytes =
          env_u64 env ''GRPC_EPUB_COMPRESSION_RATIO_FLOOR_BYTES'' DEFAULT_RATIO_FLOOR_BYTES,
        max_chunk_bytes = env_u64 env ''GRPC_EPUB_MAX_CHUNK_BYTES'' DEFAULT_MAX_CHUNK_BYTES,
        max_concurrent_parses = concurrent_parses,
        max_buffered_upload_bytes = saturating_mul max_buffered_upload_mib MIB\<rparr>)"

record parse_options =
  opt_max_document_mib :: u32
  opt_max_uncompressed_mib :: u32
  opt_max_entries :: u32
  opt_max_compression_ratio :: u32
  opt_include_images :: "bool option"
  opt_include_stylesheets :: "bool option"
  opt_include_all_resources :: "bool option"
  opt_emit_document :: bool
  opt_parse_navigation :: "bool option"
  opt_parse_media_overlays :: "bool option"

definition default_options :: parse_options where
  "default_options = \<lparr>
     opt_max_document_mib = 0, opt_max_uncompressed_mib = 0, opt_max_entries = 0,
     opt_max_compression_ratio = 0, opt_include_images = None, opt_include_stylesheets = None,
     opt_include_all_resources = None, opt_emit_document = False, opt_parse_navigation = None,
     opt_parse_media_overlays = None\<rparr>"

record effective =
  eff_max_document_bytes :: u64
  eff_max_uncompressed_bytes :: u64
  eff_max_entries :: u32
  eff_max_compression_ratio :: u32
  eff_compression_ratio_floor_bytes :: u64
  eff_include_images :: bool
  eff_include_stylesheets :: bool
  eff_include_all_resources :: bool
  eff_emit_document :: bool
  eff_parse_navigation :: bool
  eff_parse_media_overlays :: bool

definition narrow :: "u32 \<Rightarrow> u64 \<Rightarrow> u64 \<Rightarrow> u64" where
  "narrow requested ceiling unit =
     (if requested = 0 then ceiling else min ceiling (saturating_mul (u64_of_u32 requested) unit))"

definition resolve_options :: "limits \<Rightarrow> parse_options \<Rightarrow> effective" where
  "resolve_options l options = \<lparr>
     eff_max_document_bytes = narrow (opt_max_document_mib options) (max_document_bytes l) MIB,
     eff_max_uncompressed_bytes =
       narrow (opt_max_uncompressed_mib options) (max_uncompressed_bytes l) MIB,
     eff_max_entries =
       (if opt_max_entries options = 0 then max_entries l
        else min (max_entries l) (opt_max_entries options)),
     eff_max_compression_ratio =
       (if opt_max_compression_ratio options = 0 then max_compression_ratio l
        else min (max_compression_ratio l) (opt_max_compression_ratio options)),
     eff_compression_ratio_floor_bytes = compression_ratio_floor_bytes l,
     eff_include_images = opt_or (opt_include_images options) True,
     eff_include_stylesheets = opt_or (opt_include_stylesheets options) False,
     eff_include_all_resources = opt_or (opt_include_all_resources options) False,
     eff_emit_document = opt_emit_document options,
     eff_parse_navigation = opt_or (opt_parse_navigation options) True,
     eff_parse_media_overlays = opt_or (opt_parse_media_overlays options) False\<rparr>"

definition default_effective :: effective where
  "default_effective = resolve_options default_limits default_options"

record server_limits =
  srv_max_document_mib :: u32
  srv_max_uncompressed_mib :: u32
  srv_max_entries :: u32
  srv_max_compression_ratio :: u32
  srv_compression_ratio_floor_bytes :: u64
  srv_max_chunk_bytes :: u64
  srv_max_concurrent_parses :: u32
  srv_max_buffered_upload_mib :: u32

definition mib :: "u64 \<Rightarrow> u32" where
  "mib bytes = u32_or_max (unat (max (bytes div MIB) 1))"

definition to_proto :: "limits \<Rightarrow> server_limits" where
  "to_proto l = \<lparr>
     srv_max_document_mib = mib (max_document_bytes l),
     srv_max_uncompressed_mib = mib (max_uncompressed_bytes l),
     srv_max_entries = max_entries l,
     srv_max_compression_ratio = max_compression_ratio l,
     srv_compression_ratio_floor_bytes = compression_ratio_floor_bytes l,
     srv_max_chunk_bytes = max_chunk_bytes l,
     srv_max_concurrent_parses = u32_or_max (max_concurrent_parses l),
     srv_max_buffered_upload_mib = mib (max_buffered_upload_bytes l)\<rparr>"

section \<open>Lemmas\<close>

lemma unat_MIB [simp, word_nat]: "unat MIB = 1048576"
  by (simp add: MIB_def)

text \<open>A mebibyte count from the wire never saturates: it has 32 bits and the unit has 20.\<close>

lemma unat_narrow_MIB:
  "unat (narrow requested ceiling MIB) =
     (if requested = 0 then unat ceiling else min (unat ceiling) (unat requested * 1048576))"
proof -
  have "unat requested * 1048576 < 2 ^ 64" using unat_bound32 [of requested] by simp
  then have "unat (saturating_mul (u64_of_u32 requested) MIB) = unat requested * 1048576"
    by (simp add: unat_saturating_mul unat_u64_of_u32)
  then show ?thesis by (simp add: narrow_def unat_min)
qed

lemma env_u64_pos: "dflt \<noteq> 0 \<Longrightarrow> env_u64 env name dflt \<noteq> 0"
proof -
  assume d: "dflt \<noteq> 0"
  have "(of_nat v :: u64) \<noteq> 0" if "parse_unsigned (2 ^ 64) s = Some v" "v \<noteq> 0" for s v
  proof -
    have "v < 2 ^ 64" using that(1) by (auto simp: parse_unsigned_def Let_def split: if_splits option.splits)
    then have "unat (of_nat v :: u64) = v" by (intro unat_of_nat_small) simp
    with that(2) show ?thesis by auto
  qed
  with d show ?thesis by (auto simp: env_u64_def bind_eq_Some_conv split: option.splits)
qed

lemma env_u64_unset [simp]: "env name = None \<Longrightarrow> env_u64 env name dflt = dflt"
  by (simp add: env_u64_def)

lemma opt_or_switch: "opt_or x True = (x \<noteq> Some False)" "opt_or x False = (x = Some True)"
  by (cases x; simp add: opt_or_def)+

section \<open>Properties\<close>

text \<open>
  Property C28.  A request only lowers a ceiling: for each of the four, \<open>0\<close> leaves the server's own
  and anything else gives the smaller of the two, exactly (the mebibyte product never saturates or
  wraps); the ratio floor is the server's, an absent switch has its documented default and one that
  is set is taken.
\<close>

theorem resolve_options_clamps:
  "unat (eff_max_document_bytes (resolve_options l opts)) =
     (if opt_max_document_mib opts = 0 then unat (max_document_bytes l)
      else min (unat (max_document_bytes l)) (unat (opt_max_document_mib opts) * 1048576))
   \<and> unat (eff_max_uncompressed_bytes (resolve_options l opts)) =
     (if opt_max_uncompressed_mib opts = 0 then unat (max_uncompressed_bytes l)
      else min (unat (max_uncompressed_bytes l)) (unat (opt_max_uncompressed_mib opts) * 1048576))
   \<and> unat (eff_max_entries (resolve_options l opts)) =
     (if opt_max_entries opts = 0 then unat (max_entries l)
      else min (unat (max_entries l)) (unat (opt_max_entries opts)))
   \<and> unat (eff_max_compression_ratio (resolve_options l opts)) =
     (if opt_max_compression_ratio opts = 0 then unat (max_compression_ratio l)
      else min (unat (max_compression_ratio l)) (unat (opt_max_compression_ratio opts)))
   \<and> eff_compression_ratio_floor_bytes (resolve_options l opts) = compression_ratio_floor_bytes l
   \<and> eff_include_images (resolve_options l opts) = (opt_include_images opts \<noteq> Some False)
   \<and> eff_include_stylesheets (resolve_options l opts) = (opt_include_stylesheets opts = Some True)
   \<and> eff_include_all_resources (resolve_options l opts) = (opt_include_all_resources opts = Some True)
   \<and> eff_emit_document (resolve_options l opts) = opt_emit_document opts
   \<and> eff_parse_navigation (resolve_options l opts) = (opt_parse_navigation opts \<noteq> Some False)
   \<and> eff_parse_media_overlays (resolve_options l opts) = (opt_parse_media_overlays opts = Some True)"
  by (simp add: resolve_options_def unat_narrow_MIB word_nat opt_or_switch)

text \<open>
  Whatever the environment says, the process-wide upload budget is never below the
  cap of one upload, even where the unchecked product behind that cap wraps around.
\<close>

theorem from_env_budget_covers_upload:
  "max_document_bytes (from_env env) \<le> max_buffered_upload_bytes (from_env env)"
proof -
  let ?d = "env_u64 env ''GRPC_EPUB_MAX_DOCUMENT_MIB'' (u64_of_u32 DEFAULT_MAX_DOCUMENT_MIB)"
  have "unat (?d * MIB) \<le> min (unat (max x ?d) * 1048576) (2 ^ 64 - 1)" for x
  proof -
    have "unat (?d * MIB) \<le> unat ?d * 1048576"
      using mod_less_eq_dividend by (simp add: unat_word_ariths del: unat_MIB) simp
    also have "\<dots> \<le> unat (max x ?d) * 1048576" by (simp add: word_nat)
    finally show ?thesis using unat_bound64 [of "?d * MIB"] by simp
  qed
  then show ?thesis by (simp add: from_env_def Let_def word_le_nat_alt unat_saturating_mul)
qed

text \<open>With nothing set, the environment gives the documented defaults.\<close>

theorem from_env_empty: "from_env (\<lambda>_. None) = default_limits"
  by (simp add: from_env_def default_limits_def default_defs saturating_mul_def u64_of_u32_def
      u32_or_max_def u32_try_from_def)

text \<open>
  The wrap-around of the unchecked product: with
  \<open>GRPC_EPUB_MAX_DOCUMENT_MIB=17592186044416\<close> (\<open>2 ^ 44\<close>) a release build runs with a document cap
  of zero bytes, which refuses every upload.  (A debug build panics.)
\<close>

theorem from_env_document_cap_wraps:
  "max_document_bytes
     (from_env (\<lambda>name. if name = ''GRPC_EPUB_MAX_DOCUMENT_MIB'' then Some ''17592186044416'' else None))
   = 0"
proof -
  have "parse_unsigned (2 ^ 64) ''17592186044416'' = Some 17592186044416"
    by (simp add: parse_unsigned_def digit_val_def byte_defs)
  then show ?thesis by (simp add: from_env_def Let_def env_u64_def MIB_def)
qed

text \<open>
  The report is honest: for a whole number of mebibytes that fits the wire it is
  that number, it is never \<open>0\<close>, and it never overstates a ceiling of at least one mebibyte.
\<close>

theorem mib_reports:
  "mib bytes \<noteq> 0
   \<and> unat (mib bytes) * 1048576 \<le> max (unat bytes) 1048576
   \<and> unat (mib bytes) = min (max (unat bytes div 1048576) 1) (2 ^ 32 - 1)"
proof -
  have "unat (max (bytes div MIB) 1) = max (unat bytes div 1048576) 1"
    by (simp add: word_nat unat_div)
  then have m: "unat (mib bytes) = min (max (unat bytes div 1048576) 1) (2 ^ 32 - 1)"
    by (simp add: mib_def unat_u32_or_max)
  then have "unat (mib bytes) \<noteq> 0" by simp
  then have "mib bytes \<noteq> 0" by auto
  moreover have "unat (mib bytes) * 1048576 \<le> max (unat bytes) 1048576"
  proof -
    have "unat (mib bytes) \<le> max (unat bytes div 1048576) 1" using m by simp
    moreover have "unat bytes div 1048576 * 1048576 \<le> unat bytes" by simp
    ultimately show ?thesis by linarith
  qed
  ultimately show ?thesis using m by blast
qed

end
