(* ===== verification/Archive.thy ===== *)
theory Archive imports Href ServerLimits begin

text \<open>
  \<open>src/archive.rs\<close>: opening a ZIP held in memory and inflating its entries under a budget.

  The \<open>zip\<close> crate is not part of the repository: \<open>ZipArchive::new\<close> is the parameter
  \<open>zip_new\<close> of \<open>open_archive\<close>, and the archive it gives is the record \<open>memory_archive\<close>, which
  holds what the crate's \<open>by_index_raw\<close> (the header of each entry), \<open>central_directory_start\<close>
  and \<open>by_index\<close> (the reads a decompressor answers with, an error or a chunk each) return.
  Positions inside the upload are \<open>nat\<close>; the crate gives none past the end of the bytes it
  parsed, so the additions of the record walk cannot overflow.
\<close>

section \<open>The zip crate's values\<close>

datatype io_kind = UnexpectedEof | InvalidData | OtherKind

record io_error =
  io_kind_of :: io_kind
  io_text :: string

datatype zip_error =
    UnsupportedArchive string
  | CompressionMethodNotSupported u16
  | InvalidPassword
  | FileNotFound
  | InvalidArchive string
  | Io io_error
  | OtherZipError string

datatype compression_method = Stored | Deflated | OtherMethod string

record zip_entry =
  ze_name :: "zip_error + string"
  ze_encrypted :: bool
  ze_compression :: compression_method
  ze_size :: u64
  ze_compressed_size :: u64
  ze_central_header_start :: nat

record memory_archive =
  za_headers :: "(zip_error + zip_entry) list"
  za_directory_start :: nat
  za_reads :: "nat \<Rightarrow> zip_error + (io_error + string) list"

section \<open>Definitions\<close>

definition CENTRAL_RECORD_SIGNATURE :: string where
  "CENTRAL_RECORD_SIGNATURE = [CHR ''P'', CHR ''K'', CHR 0x01, CHR 0x02]"

definition CENTRAL_RECORD_FIXED :: usize where
  "CENTRAL_RECORD_FIXED = 46"

record budget =
  remaining :: u64
  consumed :: u64
  entries_read :: u32

definition new_budget :: "u64 \<Rightarrow> budget" where
  "new_budget limit = \<lparr>remaining = limit, consumed = 0, entries_read = 0\<rparr>"

definition zip_status :: "zip_error \<Rightarrow> status" where
  "zip_status error =
     (case error of
        UnsupportedArchive detail \<Rightarrow>
          Status Unimplemented [Lit ''this archive needs a feature this build lacks: '', Str detail]
      | CompressionMethodNotSupported method \<Rightarrow>
          Status Unimplemented [Lit ''entry uses compression method '', Num (unat method),
            Lit ''; only store and deflate are supported'']
      | InvalidPassword \<Rightarrow>
          Status Unimplemented [Lit ''the archive is encrypted; DRM is not supported'']
      | FileNotFound \<Rightarrow>
          Status InvalidArgument [Lit ''the archive is missing an entry it declares'']
      | InvalidArchive detail \<Rightarrow>
          Status InvalidArgument [Lit ''not a readable ZIP archive: '', Str detail]
      | Io io \<Rightarrow>
          if io_kind_of io = UnexpectedEof
          then Status InvalidArgument [Lit ''the archive is truncated'']
          else Status Internal [Lit ''reading the archive failed: '', Str (io_text io)]
      | OtherZipError other \<Rightarrow>
          Status InvalidArgument [Lit ''the archive could not be read: '', Str other])"

text \<open>\<open>bytes.windows(n).filter(== signature).count()\<close>.\<close>

fun count_windows :: "string \<Rightarrow> string \<Rightarrow> nat" where
  "count_windows sig [] = 0"
| "count_windows sig (b # bs) =
     (if take (length sig) (b # bs) = sig then Suc (count_windows sig bs)
      else count_windows sig bs)"

definition u16_field :: "string \<Rightarrow> nat \<Rightarrow> status \<Rightarrow> status + nat" where
  "u16_field bytes at lost =
     (case get_range bytes at (at + 2) of
        Some [lo, hi] \<Rightarrow> Inr (ord lo + 256 * ord hi)
      | _ \<Rightarrow> Inl lost)"

definition lost_records :: status where
  "lost_records = Status InvalidArgument [Lit ''the central directory records do not lie end to end'']"

definition two_entries :: "string \<Rightarrow> status" where
  "two_entries name = Status InvalidArgument
     [Lit ''the archive holds two entries named '', Dbg name,
      Lit ''; an archive that holds two files at one path has no single reading'']"

text \<open>
  One turn of the record walk: the lengths of the record at \<open>pos\<close>, and the refusal when no
  surviving entry begins there; the value is where the next record begins.
\<close>

definition walk_step :: "string \<Rightarrow> nat list \<Rightarrow> nat \<Rightarrow> status + nat" where
  "walk_step bytes kept pos =
     and_then (u16_field bytes (pos + 28) lost_records) (\<lambda>name_len.
     and_then (u16_field bytes (pos + 30) lost_records) (\<lambda>extra_len.
     and_then (u16_field bytes (pos + 32) lost_records) (\<lambda>comment_len.
       if pos \<notin> set kept
       then (case get_range bytes (pos + CENTRAL_RECORD_FIXED)
                    (pos + CENTRAL_RECORD_FIXED + name_len) of
               None \<Rightarrow> Inl lost_records
             | Some name \<Rightarrow> Inl (two_entries (from_utf8_lossy name)))
       else Inr (pos + (CENTRAL_RECORD_FIXED + name_len + extra_len + comment_len)))))"

lemma walk_step_gt: "walk_step bytes kept pos = Inr next \<Longrightarrow> pos < next"
  by (auto simp: walk_step_def CENTRAL_RECORD_FIXED_def and_then_eq_Inr split: if_splits option.splits)

function walk_records :: "string \<Rightarrow> nat list \<Rightarrow> nat \<Rightarrow> nat \<Rightarrow> status + unit" where
  "walk_records bytes kept last_start pos =
     (if pos < last_start
      then (case walk_step bytes kept pos of
              Inl e \<Rightarrow> Inl e
            | Inr next \<Rightarrow> walk_records bytes kept last_start next)
      else if pos = last_start then Inr () else Inl lost_records)"
  by pat_completeness auto
termination
  by (relation "measure (\<lambda>(_, _, last_start, pos). last_start - pos)")
    (auto dest!: walk_step_gt)

declare walk_records.simps [simp del]

definition refuse_merged_records :: "string \<Rightarrow> memory_archive \<Rightarrow> status + unit" where
  "refuse_merged_records bytes archive =
     and_then (map_result (map_err zip_status) (za_headers archive)) (\<lambda>headers.
       let kept = map ze_central_header_start headers
       in if kept = [] then Inr ()
          else walk_records bytes kept (fold max kept 0) (za_directory_start archive))"

definition open_archive ::
  "(string \<Rightarrow> zip_error + memory_archive) \<Rightarrow> string \<Rightarrow> effective \<Rightarrow> status + memory_archive" where
  "open_archive zip_new bytes limits =
     (if bytes = [] then
        Inl (Status InvalidArgument
          [Lit ''the upload was empty; send the EPUB as one or more `chunk` frames''])
      else
        let records = count_windows CENTRAL_RECORD_SIGNATURE bytes
        in if records > unat (eff_max_entries limits) then
             Inl (Status ResourceExhausted
               [Lit ''the archive holds '', Num records, Lit '' central directory records, over the '',
                Num (unat (eff_max_entries limits)), Lit '' entries allowed''])
           else
             and_then (map_err zip_status (zip_new bytes)) (\<lambda>archive.
               let entries = u32_or_max (length (za_headers archive))
               in if entries > eff_max_entries limits then
                    Inl (Status ResourceExhausted
                      [Lit ''the archive declares '', Num (unat entries), Lit '' entries, over the '',
                       Num (unat (eff_max_entries limits)), Lit '' allowed''])
                  else and_then (refuse_merged_records bytes archive) (\<lambda>_. Inr archive)))"

record entry_info =
  ei_index :: nat
  ei_name :: string
  ei_declared_size :: u64
  ei_compressed_size :: u64

record scan_result =
  scan_entries :: "entry_info list"
  scan_unusable :: "(string \<times> path_error) list"

text \<open>\<open>min(stored_ceiling)\<close> with the ceiling a position in the upload.\<close>

definition stored_cap :: "u64 \<Rightarrow> nat \<Rightarrow> u64" where
  "stored_cap sz ceiling = of_nat (min (unat sz) ceiling)"

text \<open>
  The loop of \<open>scan\<close>: \<open>claimed\<close> maps a normalized path to the raw name that claimed it first.
\<close>

fun scan_from ::
  "nat \<Rightarrow> nat \<Rightarrow> (string \<Rightarrow> string option) \<Rightarrow> (zip_error + zip_entry) list \<Rightarrow> status + scan_result"
where
  "scan_from ceiling index claimed [] = Inr \<lparr>scan_entries = [], scan_unusable = []\<rparr>"
| "scan_from ceiling index claimed (header # rest) =
     and_then (map_err zip_status header) (\<lambda>entry.
     and_then (map_err zip_status (ze_name entry)) (\<lambda>name.
       if ze_encrypted entry then
         Inl (Status Unimplemented
           [Lit ''entry '', Dbg name, Lit '' is encrypted; DRM and entry obfuscation are not supported''])
       else case ze_compression entry of
         OtherMethod other \<Rightarrow>
           Inl (Status Unimplemented
             [Lit ''entry '', Dbg name, Lit '' uses compression method '', Str other,
              Lit ''; only store and deflate are supported''])
       | _ \<Rightarrow>
         (case check_entry_name name of
            Inr None \<Rightarrow> scan_from ceiling (Suc index) claimed rest
          | Inl error \<Rightarrow>
              and_then (scan_from ceiling (Suc index) claimed rest) (\<lambda>sc.
                Inr (sc\<lparr>scan_unusable := (name, error) # scan_unusable sc\<rparr>))
          | Inr (Some normalized) \<Rightarrow>
              (case claimed normalized of
                 Some first \<Rightarrow>
                   Inl (Status InvalidArgument
                     [Lit ''archive entries '', Dbg first, Lit '' and '', Dbg name, Lit '' both name '',
                      Dbg normalized,
                      Lit ''; an archive that holds two files at one path has no single reading''])
               | None \<Rightarrow>
                   and_then (scan_from ceiling (Suc index) (claimed(normalized \<mapsto> name)) rest) (\<lambda>sc.
                     Inr (sc\<lparr>scan_entries :=
                       \<lparr>ei_index = index, ei_name = normalized,
                        ei_declared_size = ze_size entry,
                        ei_compressed_size = stored_cap (ze_compressed_size entry) ceiling\<rparr>
                       # scan_entries sc\<rparr>))))))"

definition scan :: "memory_archive \<Rightarrow> status + scan_result" where
  "scan archive = scan_from (za_directory_start archive) 0 Map.empty (za_headers archive)"

definition exhausted :: "string \<Rightarrow> u64 \<Rightarrow> status" where
  "exhausted name left = Status ResourceExhausted
     [Lit ''inflating '', Dbg name, Lit '' would take this call past its decompressed-size cap; '',
      Num (unat left),
      Lit '' bytes of budget were left. Raise max_uncompressed_mib if the book is genuinely this large.'']"

definition check_budget :: "u64 \<Rightarrow> u64 \<Rightarrow> string \<Rightarrow> status + unit" where
  "check_budget declared left name = guard_err (declared > left) (exhausted name left)"

definition ratio_exceeded :: "string \<Rightarrow> u64 \<Rightarrow> u64 \<Rightarrow> effective \<Rightarrow> status" where
  "ratio_exceeded name inflated stored limits = Status ResourceExhausted
     [Lit ''entry '', Dbg name, Lit '' inflates '', Num (unat (inflated div stored)),
      Lit ''x, over the '', Num (unat (eff_max_compression_ratio limits)), Lit ''x limit ('',
      Num (unat stored), Lit '' stored bytes becoming '', Num (unat inflated),
      Lit ''); this is the shape of a decompression bomb'']"

definition check_ratio :: "u64 \<Rightarrow> u64 \<Rightarrow> effective \<Rightarrow> string \<Rightarrow> status + unit" where
  "check_ratio inflated stored limits name =
     (if inflated < eff_compression_ratio_floor_bytes limits \<or> stored = 0 then Inr ()
      else if inflated div stored > u64_of_u32 (eff_max_compression_ratio limits)
           then Inl (ratio_exceeded name inflated stored limits)
           else Inr ())"

definition inflate_status :: "io_error \<Rightarrow> entry_info \<Rightarrow> status" where
  "inflate_status error entry =
     (if io_kind_of error = InvalidData
         \<and> contains_str ''larger than its declared uncompressed size'' (io_text error)
      then Status ResourceExhausted
        [Lit ''entry '', Dbg (ei_name entry), Lit '' inflates past the '',
         Num (unat (ei_declared_size entry)),
         Lit '' bytes its header declares; this is the shape of a decompression bomb'']
      else zip_status (Io error))"

text \<open>The loop of \<open>read_entry\<close> over the reads the decompressor answers with; an empty read ends it.\<close>

fun inflate_loop ::
  "entry_info \<Rightarrow> effective \<Rightarrow> u64 \<Rightarrow> string \<Rightarrow> (io_error + string) list \<Rightarrow> status + string"
where
  "inflate_loop entry limits left out [] = Inr out"
| "inflate_loop entry limits left out (r # rs) =
     and_then (map_err (\<lambda>e. inflate_status e entry) r) (\<lambda>chunk.
       if chunk = [] then Inr out
       else
         let inflated = length out + length chunk
         in if inflated > unat left then Inl (exhausted (ei_name entry) left)
            else and_then
              (check_ratio (of_nat inflated) (ei_compressed_size entry) limits (ei_name entry))
              (\<lambda>_. inflate_loop entry limits left (out @ chunk) rs))"

definition spend :: "string \<Rightarrow> budget \<Rightarrow> budget" where
  "spend out b =
     b\<lparr>remaining := remaining b - of_nat (length out),
       consumed := consumed b + of_nat (length out),
       entries_read := entries_read b + 1\<rparr>"

definition read_entry ::
  "memory_archive \<Rightarrow> entry_info \<Rightarrow> effective \<Rightarrow> budget \<Rightarrow> status + string \<times> budget" where
  "read_entry archive entry limits b =
     and_then (check_budget (ei_declared_size entry) (remaining b) (ei_name entry)) (\<lambda>_.
     and_then (check_ratio (ei_declared_size entry) (ei_compressed_size entry) limits
                 (ei_name entry)) (\<lambda>_.
     and_then (map_err zip_status (za_reads archive (ei_index entry))) (\<lambda>reads.
     and_then (inflate_loop entry limits (remaining b) [] reads) (\<lambda>out.
       Inr (out, spend out b)))))"

section \<open>The ratio rule\<close>

text \<open>What the ratio rule allows, in plain numbers: \<open>n\<close> inflated bytes from \<open>stored\<close> ones.\<close>

definition ratio_ok :: "effective \<Rightarrow> nat \<Rightarrow> nat \<Rightarrow> bool" where
  "ratio_ok limits stored n \<longleftrightarrow>
     n < unat (eff_compression_ratio_floor_bytes limits) \<or> stored = 0
     \<or> n div stored \<le> unat (eff_max_compression_ratio limits)"

lemma ratio_ok_less: "ratio_ok limits stored n \<Longrightarrow> m \<le> n \<Longrightarrow> ratio_ok limits stored m"
  unfolding ratio_ok_def using div_le_mono [of m n stored] by auto

lemma ratio_ok_0 [simp]: "ratio_ok limits stored 0"
  by (simp add: ratio_ok_def)

lemma check_ratio_iff:
  "check_ratio inflated stored limits name =
     (if ratio_ok limits (unat stored) (unat inflated) then Inr ()
      else Inl (ratio_exceeded name inflated stored limits))"
proof -
  have "inflated div stored > u64_of_u32 (eff_max_compression_ratio limits) \<longleftrightarrow>
      unat inflated div unat stored > unat (eff_max_compression_ratio limits)"
    by (simp add: word_less_nat_alt unat_u64_of_u32 unat_div)
  then show ?thesis
    by (auto simp: check_ratio_def ratio_ok_def word_less_nat_alt unat_eq_zero)
qed

lemma check_budget_iff:
  "check_budget declared left name = Inr u \<longleftrightarrow> unat declared \<le> unat left"
  by (auto simp: check_budget_def word_less_nat_alt not_less)

section \<open>Inflating an entry\<close>

text \<open>The reads that count: those before the empty read that ends the entry.\<close>

definition payload :: "(io_error + string) list \<Rightarrow> (io_error + string) list" where
  "payload = takeWhile (\<lambda>r. r \<noteq> Inr [])"

definition inflated_bytes :: "(io_error + string) list \<Rightarrow> string" where
  "inflated_bytes reads = concat (map projr (payload reads))"

lemma inflated_bytes_simps [simp]:
  "inflated_bytes [] = []"
  "inflated_bytes (Inr [] # rs) = []"
  "chunk \<noteq> [] \<Longrightarrow> inflated_bytes (Inr chunk # rs) = chunk @ inflated_bytes rs"
  by (simp_all add: inflated_bytes_def payload_def)

lemma payload_simps [simp]:
  "payload [] = []" "payload (Inr [] # rs) = []"
  "payload (Inl e # rs) = Inl e # payload rs"
  "chunk \<noteq> [] \<Longrightarrow> payload (Inr chunk # rs) = Inr chunk # payload rs"
  by (simp_all add: payload_def)

text \<open>
  The check made on every chunk accepts exactly when the check on the whole would: the rules are
  closed under taking less, so no prefix can offend unless the whole does.
\<close>

lemma inflate_loop_iff:
  assumes "length out \<le> unat left" and "ratio_ok limits (unat (ei_compressed_size entry)) (length out)"
  shows "inflate_loop entry limits left out reads = Inr result \<longleftrightarrow>
     list_all (\<lambda>r. \<not> isl r) (payload reads) \<and> result = out @ inflated_bytes reads
     \<and> length result \<le> unat left
     \<and> ratio_ok limits (unat (ei_compressed_size entry)) (length result)"
  using assms
proof (induction reads arbitrary: out)
  case Nil
  then show ?case by auto
next
  case (Cons r reads)
  show ?case
  proof (cases r)
    case (Inl e)
    then show ?thesis by simp
  next
    case (Inr chunk)
    show ?thesis
    proof (cases "chunk = []")
      case True
      with Inr Cons.prems show ?thesis by auto
    next
      case False
      let ?n = "length out + length chunk" and ?stored = "unat (ei_compressed_size entry)"
      show ?thesis
      proof (cases "?n \<le> unat left \<and> ratio_ok limits ?stored ?n")
        case True
        then have "unat (of_nat ?n :: u64) = ?n"
          using unat_bound64 [of left] by (intro unat_of_nat_small) simp
        with True Inr False show ?thesis
          using Cons.IH [of "out @ chunk"] by (simp add: check_ratio_iff)
      next
        case bad: False
        have "\<not> (length result \<le> unat left \<and> ratio_ok limits ?stored (length result))"
          if "result = out @ chunk @ inflated_bytes reads"
          using bad that ratio_ok_less [of limits ?stored "length result" ?n] by auto
        moreover have "inflate_loop entry limits left out (r # reads) \<noteq> Inr result"
        proof (cases "?n \<le> unat left")
          case True
          then have "unat (of_nat ?n :: u64) = ?n"
            using unat_bound64 [of left] by (intro unat_of_nat_small) simp
          with True bad Inr False show ?thesis by (simp add: check_ratio_iff)
        qed (use Inr False in simp)
        ultimately show ?thesis using Inr False by auto
      qed
    qed
  qed
qed

text \<open>Where the loop stops, nothing after the offending chunk is asked for.\<close>

lemma inflate_loop_append:
  assumes "list_all (\<lambda>c. c \<noteq> []) chunks" and "length out \<le> unat left"
    and "ratio_ok limits (unat (ei_compressed_size entry)) (length out)"
    and "\<not> (length (out @ concat chunks) \<le> unat left
            \<and> ratio_ok limits (unat (ei_compressed_size entry)) (length (out @ concat chunks)))"
  shows "\<exists>m. inflate_loop entry limits left out (map Inr chunks @ rest) = Inl (Status ResourceExhausted m)"
  using assms
proof (induction chunks arbitrary: out)
  case Nil
  then show ?case by simp
next
  case (Cons chunk chunks)
  let ?n = "length out + length chunk" and ?stored = "unat (ei_compressed_size entry)"
  show ?case
  proof (cases "?n \<le> unat left")
    case False
    with Cons.prems(1) show ?thesis by (simp add: exhausted_def)
  next
    case True
    then have n: "unat (of_nat ?n :: u64) = ?n"
      using unat_bound64 [of left] by (intro unat_of_nat_small) simp
    show ?thesis
    proof (cases "ratio_ok limits ?stored ?n")
      case False
      with Cons.prems(1) True n show ?thesis
        by (simp add: check_ratio_iff ratio_exceeded_def)
    next
      case ok: True
      have "\<exists>m. inflate_loop entry limits left (out @ chunk) (map Inr chunks @ rest) =
          Inl (Status ResourceExhausted m)"
        by (rule Cons.IH) (use Cons.prems True ok in \<open>auto simp: add.assoc\<close>)
      with Cons.prems(1) True ok n show ?thesis by (simp add: check_ratio_iff)
    qed
  qed
qed

lemma read_entry_Inr:
  "read_entry archive entry limits b = Inr (out, b') \<longleftrightarrow>
     unat (ei_declared_size entry) \<le> unat (remaining b)
     \<and> ratio_ok limits (unat (ei_compressed_size entry)) (unat (ei_declared_size entry))
     \<and> (\<exists>reads. za_reads archive (ei_index entry) = Inr reads
          \<and> list_all (\<lambda>r. \<not> isl r) (payload reads) \<and> out = inflated_bytes reads)
     \<and> length out \<le> unat (remaining b)
     \<and> ratio_ok limits (unat (ei_compressed_size entry)) (length out)
     \<and> b' = spend out b"
  by (auto simp: read_entry_def and_then_eq_Inr check_budget_iff check_ratio_iff inflate_loop_iff)

section \<open>The budget\<close>

definition budget_inv :: "nat \<Rightarrow> budget \<Rightarrow> bool" where
  "budget_inv limit b \<longleftrightarrow> unat (remaining b) + unat (consumed b) = limit"

lemma budget_inv_new: "budget_inv (unat limit) (new_budget limit)"
  by (simp add: budget_inv_def new_budget_def)

lemma spend_fields:
  assumes "budget_inv limit b" and "limit < 2 ^ 64" and "length out \<le> unat (remaining b)"
  shows "unat (remaining (spend out b)) = unat (remaining b) - length out"
    and "unat (consumed (spend out b)) = unat (consumed b) + length out"
proof -
  have n: "unat (of_nat (length out) :: u64) = length out"
    using assms(3) unat_bound64 [of "remaining b"] by (intro unat_of_nat_small) simp
  then have "of_nat (length out) \<le> remaining b"
    using assms(3) by (simp add: word_le_nat_alt)
  then show "unat (remaining (spend out b)) = unat (remaining b) - length out"
    by (simp add: spend_def unat_sub_le n)
  have "unat (consumed b) + unat (of_nat (length out) :: u64) < 2 ^ 64"
    using assms n by (simp add: budget_inv_def)
  then show "unat (consumed (spend out b)) = unat (consumed b) + length out"
    by (simp add: spend_def unat_add_small n)
qed

text \<open>Inflating several entries in turn, as the callers do, stopping at the first failure.\<close>

fun read_all :: "('e \<Rightarrow> 'b \<Rightarrow> 'err + string \<times> 'b) \<Rightarrow> 'e list \<Rightarrow> 'b \<Rightarrow> 'err + string list \<times> 'b" where
  "read_all rd [] b = Inr ([], b)"
| "read_all rd (e # es) b =
     and_then (rd e b) (\<lambda>(out, b').
     and_then (read_all rd es b') (\<lambda>(outs, b''). Inr (out # outs, b'')))"

locale budgeted_reader =
  fixes rd :: "'e \<Rightarrow> 'b \<Rightarrow> 'err + string \<times> 'b"
    and left :: "'b \<Rightarrow> nat"
    and spent :: "'b \<Rightarrow> nat"
    and ok :: "'b \<Rightarrow> bool"
  assumes rd_ok: "ok b \<Longrightarrow> rd e b = Inr (out, b') \<Longrightarrow> ok b'"
    and rd_left: "ok b \<Longrightarrow> rd e b = Inr (out, b') \<Longrightarrow> left b = left b' + length out"
    and rd_spent: "ok b \<Longrightarrow> rd e b = Inr (out, b') \<Longrightarrow> spent b' = spent b + length out"
begin

lemma read_all_spends:
  "ok b \<Longrightarrow> read_all rd es b = Inr (outs, b')
   \<Longrightarrow> ok b' \<and> left b = left b' + length (concat outs) \<and> spent b' = spent b + length (concat outs)"
proof (induction es arbitrary: b outs)
  case Nil
  then show ?case by simp
next
  case (Cons e es)
  from Cons.prems(2) obtain out b1 os
    where r: "rd e b = Inr (out, b1)" "read_all rd es b1 = Inr (os, b')" "outs = out # os"
    by (auto simp: and_then_eq_Inr)
  from Cons.IH [OF rd_ok [OF Cons.prems(1) r(1)] r(2)] rd_left [OF Cons.prems(1) r(1)]
    rd_spent [OF Cons.prems(1) r(1)]
  show ?case by (simp add: r(3))
qed

lemma read_all_within: "ok b \<Longrightarrow> read_all rd es b = Inr (outs, b') \<Longrightarrow> length (concat outs) \<le> left b"
  using read_all_spends by fastforce

end

interpretation budget: budgeted_reader
  "\<lambda>entry b. read_entry archive entry limits b" "\<lambda>b. unat (remaining b)" "\<lambda>b. unat (consumed b)"
  "\<lambda>b. unat (remaining b) + unat (consumed b) < 2 ^ 64" for archive limits
proof unfold_locales
  fix b e out b'
  assume ok: "unat (remaining b) + unat (consumed b) < 2 ^ 64"
    and "read_entry archive e limits b = Inr (out, b')"
  then have b': "b' = spend out b" and len: "length out \<le> unat (remaining b)"
    by (simp_all add: read_entry_Inr)
  have inv: "budget_inv (unat (remaining b) + unat (consumed b)) b" by (simp add: budget_inv_def)
  note fields = spend_fields [OF inv ok len]
  show "unat (remaining b') + unat (consumed b') < 2 ^ 64" using fields len ok by (simp add: b')
  show "unat (remaining b) = unat (remaining b') + length out" using fields len by (simp add: b')
  show "unat (consumed b') = unat (consumed b) + length out" using fields by (simp add: b')
qed

section \<open>The scan\<close>

text \<open>What the scan makes of one header, read on its own.\<close>

definition readable :: "zip_error + zip_entry \<Rightarrow> bool" where
  "readable header =
     (case header of
        Inl _ \<Rightarrow> False
      | Inr entry \<Rightarrow> \<not> isl (ze_name entry) \<and> \<not> ze_encrypted entry
          \<and> (ze_compression entry = Stored \<or> ze_compression entry = Deflated))"

definition entry_at :: "nat \<Rightarrow> nat \<times> (zip_error + zip_entry) \<Rightarrow> entry_info option" where
  "entry_at ceiling ih =
     (case check_entry_name (projr (ze_name (projr (snd ih)))) of
        Inr (Some normalized) \<Rightarrow>
          Some \<lparr>ei_index = fst ih, ei_name = normalized,
                ei_declared_size = ze_size (projr (snd ih)),
                ei_compressed_size = stored_cap (ze_compressed_size (projr (snd ih))) ceiling\<rparr>
      | _ \<Rightarrow> None)"

definition unusable_at :: "zip_error + zip_entry \<Rightarrow> (string \<times> path_error) option" where
  "unusable_at header =
     (let name = projr (ze_name (projr header))
      in case check_entry_name name of Inl error \<Rightarrow> Some (name, error) | Inr _ \<Rightarrow> None)"

definition entries_of :: "nat \<Rightarrow> nat \<Rightarrow> (zip_error + zip_entry) list \<Rightarrow> entry_info list" where
  "entries_of ceiling index headers = List.map_filter (entry_at ceiling) (enumerate index headers)"

lemma entries_of_simps [simp]:
  "entries_of ceiling i [] = []"
  "entries_of ceiling i (h # hs) =
     (case entry_at ceiling (i, h) of None \<Rightarrow> [] | Some e \<Rightarrow> [e]) @ entries_of ceiling (Suc i) hs"
  by (simp_all add: entries_of_def map_filter_simps split: option.split)

lemma scan_from_iff:
  "scan_from ceiling i claimed hs = Inr sc \<longleftrightarrow>
     list_all readable hs
     \<and> distinct (map ei_name (entries_of ceiling i hs))
     \<and> set (map ei_name (entries_of ceiling i hs)) \<inter> dom claimed = {}
     \<and> sc = \<lparr>scan_entries = entries_of ceiling i hs, scan_unusable = List.map_filter unusable_at hs\<rparr>"
proof (induction hs arbitrary: i claimed sc)
  case Nil
  then show ?case by (auto simp: map_filter_simps)
next
  case (Cons h hs)
  show ?case
  proof (cases "readable h")
    case False
    then show ?thesis
      by (auto simp: readable_def and_then_eq_Inr isl_def split: sum.splits compression_method.splits)
  next
    case True
    then obtain entry name where h: "h = Inr entry" "ze_name entry = Inr name"
      "\<not> ze_encrypted entry" "ze_compression entry = Stored \<or> ze_compression entry = Deflated"
      by (auto simp: readable_def isl_def split: sum.splits) (metis sum.exhaust_sel)+
    have run: "scan_from ceiling i claimed (h # hs) =
      (case check_entry_name name of
         Inr None \<Rightarrow> scan_from ceiling (Suc i) claimed hs
       | Inl error \<Rightarrow>
           and_then (scan_from ceiling (Suc i) claimed hs) (\<lambda>sc.
             Inr (sc\<lparr>scan_unusable := (name, error) # scan_unusable sc\<rparr>))
       | Inr (Some normalized) \<Rightarrow>
           (case claimed normalized of
              Some first \<Rightarrow>
                Inl (Status InvalidArgument
                  [Lit ''archive entries '', Dbg first, Lit '' and '', Dbg name, Lit '' both name '',
                   Dbg normalized,
                   Lit ''; an archive that holds two files at one path has no single reading''])
            | None \<Rightarrow>
                and_then (scan_from ceiling (Suc i) (claimed(normalized \<mapsto> name)) hs) (\<lambda>sc.
                  Inr (sc\<lparr>scan_entries :=
                    the (entry_at ceiling (i, h)) # scan_entries sc\<rparr>))))"
      using h by (auto simp: entry_at_def split: sum.split option.split)
    have at: "entry_at ceiling (i, h) =
        (case check_entry_name name of
           Inr (Some normalized) \<Rightarrow>
             Some \<lparr>ei_index = i, ei_name = normalized, ei_declared_size = ze_size entry,
                   ei_compressed_size = stored_cap (ze_compressed_size entry) ceiling\<rparr>
         | _ \<Rightarrow> None)"
      "unusable_at h = (case check_entry_name name of Inl error \<Rightarrow> Some (name, error) | Inr _ \<Rightarrow> None)"
      using h by (simp_all add: entry_at_def unusable_at_def split: sum.split option.split)
    show ?thesis
    proof (cases "check_entry_name name")
      case (Inl error)
      with at True Cons.IH show ?thesis
        unfolding run by (auto simp: map_filter_simps and_then_eq_Inr)
    next
      case (Inr r)
      show ?thesis
      proof (cases r)
        case None
        with Inr at True Cons.IH show ?thesis unfolding run by (auto simp: map_filter_simps)
      next
        case (Some normalized)
        with Inr at obtain e where e: "entry_at ceiling (i, h) = Some e" "ei_name e = normalized"
          "unusable_at h = None" by simp
        show ?thesis
        proof (cases "claimed normalized")
          case None
          then have dom: "X \<inter> dom (claimed(normalized \<mapsto> name)) = {} \<longleftrightarrow>
              normalized \<notin> X \<and> X \<inter> dom claimed = {}" for X by auto
          have fresh: "normalized \<notin> dom claimed" using None by auto
          show ?thesis
            unfolding run
            using Inr Some e True None fresh Cons.IH [of "Suc i" "claimed(normalized \<mapsto> name)"]
            by (auto simp: map_filter_simps and_then_eq_Inr dom simp del: fun_upd_apply)
        next
          case first: (Some first)
          with Inr Some e show ?thesis unfolding run by auto
        qed
      qed
    qed
  qed
qed

lemma entries_of_member:
  assumes "e \<in> set (entries_of ceiling i hs)"
  shows "i \<le> ei_index e \<and> ei_index e < i + length hs
    \<and> entry_at ceiling (ei_index e, hs ! (ei_index e - i)) = Some e"
  using assms
proof (induction hs arbitrary: i)
  case Nil
  then show ?case by simp
next
  case (Cons h hs)
  show ?case
  proof (cases "entry_at ceiling (i, h) = Some e")
    case True
    then have "ei_index e = i" by (auto simp: entry_at_def split: sum.splits option.splits)
    with True show ?thesis by simp
  next
    case False
    with Cons.prems Cons.IH [of "Suc i"] have "Suc i \<le> ei_index e \<and> ei_index e < Suc i + length hs
        \<and> entry_at ceiling (ei_index e, hs ! (ei_index e - Suc i)) = Some e"
      by (auto split: option.splits)
    then show ?thesis by (auto simp: nth_Cons' Suc_diff_le)
  qed
qed

lemma entries_of_sorted: "sorted_wrt (\<lambda>a b. ei_index a < ei_index b) (entries_of ceiling i hs)"
proof (induction hs arbitrary: i)
  case Nil
  then show ?case by simp
next
  case (Cons h hs)
  have "\<forall>b\<in>set (entries_of ceiling (Suc i) hs). i < ei_index b"
    using entries_of_member by fastforce
  moreover have "entry_at ceiling (i, h) = Some a \<Longrightarrow> ei_index a = i" for a
    by (auto simp: entry_at_def split: sum.splits option.splits)
  ultimately show ?case using Cons by (auto split: option.split)
qed

lemma stored_cap_le: "unat (stored_cap n ceiling) \<le> min (unat n) ceiling"
  unfolding stored_cap_def unat_of_nat by (rule mod_less_eq_dividend)

section \<open>Merged records\<close>

text \<open>
  A central directory as the archive holds it: records laid end to end, each with its name and the
  lengths of its extra field and comment.
\<close>

record central_record =
  cr_name :: string
  cr_extra_len :: nat
  cr_comment_len :: nat

definition record_len :: "central_record \<Rightarrow> nat" where
  "record_len r = CENTRAL_RECORD_FIXED + length (cr_name r) + cr_extra_len r + cr_comment_len r"

definition record_at :: "string \<Rightarrow> nat \<Rightarrow> central_record \<Rightarrow> bool" where
  "record_at bytes pos r \<longleftrightarrow>
     u16_field bytes (pos + 28) lost_records = Inr (length (cr_name r))
     \<and> u16_field bytes (pos + 30) lost_records = Inr (cr_extra_len r)
     \<and> u16_field bytes (pos + 32) lost_records = Inr (cr_comment_len r)
     \<and> get_range bytes (pos + CENTRAL_RECORD_FIXED)
         (pos + CENTRAL_RECORD_FIXED + length (cr_name r)) = Some (cr_name r)"

fun laid_out :: "string \<Rightarrow> nat \<Rightarrow> central_record list \<Rightarrow> bool" where
  "laid_out bytes pos [] \<longleftrightarrow> True"
| "laid_out bytes pos (r # rs) \<longleftrightarrow> record_at bytes pos r \<and> laid_out bytes (pos + record_len r) rs"

text \<open>What the crate keeps: the start of each record whose name no later record has.\<close>

fun survivors :: "nat \<Rightarrow> central_record list \<Rightarrow> nat list" where
  "survivors pos [] = []"
| "survivors pos (r # rs) =
     (if cr_name r \<in> set (map cr_name rs) then [] else [pos]) @ survivors (pos + record_len r) rs"

text \<open>The first record the crate dropped, that is, whose name comes again.\<close>

fun first_merged :: "central_record list \<Rightarrow> string option" where
  "first_merged [] = None"
| "first_merged (r # rs) =
     (if cr_name r \<in> set (map cr_name rs) then Some (cr_name r) else first_merged rs)"

lemma first_merged_None: "first_merged rs = None \<longleftrightarrow> distinct (map cr_name rs)"
  by (induction rs) auto

lemma survivors_ge: "p \<in> set (survivors pos rs) \<Longrightarrow> pos \<le> p"
proof (induction rs arbitrary: pos)
  case (Cons r rs)
  then show ?case by (fastforce split: if_splits)
qed simp

lemma record_len_pos: "0 < record_len r"
  by (simp add: record_len_def CENTRAL_RECORD_FIXED_def)

lemma survivors_Nil: "survivors pos rs = [] \<longleftrightarrow> rs = []"
proof (induction rs arbitrary: pos)
  case (Cons r rs)
  then show ?case by (cases rs) auto
qed simp

lemma fold_max_set: "fold max xs (n::nat) = Max (insert n (set xs))"
  by (metis Max.set_eq_fold list.simps(15))

lemma walk_records_spec:
  assumes "laid_out bytes pos rs" and "rs \<noteq> []"
    and "set kept \<inter> {pos..} = set (survivors pos rs)" and "L = Max (set (survivors pos rs))"
  shows "walk_records bytes kept L pos =
    (case first_merged rs of
       None \<Rightarrow> Inr () | Some name \<Rightarrow> Inl (two_entries (from_utf8_lossy name)))"
  using assms
proof (induction rs arbitrary: pos)
  case Nil
  then show ?case by simp
next
  case (Cons r rs)
  note rec = Cons.prems(1) [simplified, THEN conjunct1]
  show ?case
  proof (cases rs)
    case Nil
    with Cons.prems show ?thesis by (simp add: walk_records.simps)
  next
    case (Cons r' rs')
    define nxt where "nxt = pos + record_len r"
    have lt: "pos < nxt" by (simp add: nxt_def record_len_pos)
    have ne: "set (survivors nxt rs) \<noteq> {}"
      using Cons survivors_Nil [of nxt rs] by (metis list.distinct(1) set_empty)
    have ge: "\<forall>p\<in>set (survivors nxt rs). nxt \<le> p" using survivors_ge by blast
    then have max_ge: "nxt \<le> Max (set (survivors nxt rs))" using ne by (metis Max_in List.finite_set)
    have L: "L = Max (set (survivors nxt rs))"
    proof (cases "cr_name r \<in> set (map cr_name rs)")
      case True
      with Cons.prems(4) show ?thesis by (simp add: nxt_def)
    next
      case False
      then have "L = Max (insert pos (set (survivors nxt rs)))"
        using Cons.prems(4) by (simp add: nxt_def)
      with ne max_ge lt show ?thesis by (simp add: Max_insert max_def)
    qed
    have "pos < L" using L max_ge lt by simp
    have member: "pos \<in> set kept \<longleftrightarrow> cr_name r \<notin> set (map cr_name rs)"
    proof -
      have "pos \<in> set kept \<longleftrightarrow> pos \<in> set (survivors pos (r # rs))"
        using Cons.prems(3) by auto
      also have "\<dots> \<longleftrightarrow> cr_name r \<notin> set (map cr_name rs)"
        using ge lt by (auto simp: nxt_def)
      finally show ?thesis .
    qed
    show ?thesis
    proof (cases "cr_name r \<in> set (map cr_name rs)")
      case True
      then have "walk_step bytes kept pos = Inl (two_entries (from_utf8_lossy (cr_name r)))"
        using member rec by (simp add: walk_step_def record_at_def)
      with True \<open>pos < L\<close> show ?thesis by (simp add: walk_records.simps [of _ _ _ pos])
    next
      case False
      then have step: "walk_step bytes kept pos = Inr nxt"
        using member rec by (simp add: walk_step_def record_at_def nxt_def record_len_def)
      have "set kept \<inter> {nxt..} = set (survivors nxt rs)"
      proof -
        have "set kept \<inter> {nxt..} = (set kept \<inter> {pos..}) \<inter> {nxt..}" using lt by auto
        also have "\<dots> = set (survivors nxt rs)"
          using Cons.prems(3) ge lt by (auto simp: nxt_def split: if_splits)
        finally show ?thesis .
      qed
      then have "walk_records bytes kept L nxt =
          (case first_merged rs of
             None \<Rightarrow> Inr () | Some name \<Rightarrow> Inl (two_entries (from_utf8_lossy name)))"
        using Cons.prems(1) Cons L by (intro Cons.IH) (simp_all add: nxt_def)
      with False step \<open>pos < L\<close> show ?thesis by (simp add: walk_records.simps [of _ _ _ pos])
    qed
  qed
qed

lemma entry_at_name:
  "entry_at ceiling ih = Some e
   \<Longrightarrow> check_entry_name (projr (ze_name (projr (snd ih)))) = Inr (Some (ei_name e))"
  by (auto simp: entry_at_def split: sum.splits option.splits)

lemma entry_at_stored: "entry_at ceiling ih = Some e \<Longrightarrow> unat (ei_compressed_size e) \<le> ceiling"
  using stored_cap_le by (auto simp: entry_at_def split: sum.splits option.splits)

lemma entries_of_sound:
  assumes "e \<in> set (entries_of ceiling 0 hs)"
  shows "safe_path (ei_name e) \<and> ei_index e < length hs \<and> unat (ei_compressed_size e) \<le> ceiling"
proof -
  from entries_of_member [OF assms] obtain h
    where idx: "ei_index e < length hs" and at: "entry_at ceiling (ei_index e, h) = Some e"
    by auto
  note name = entry_at_name [OF at]
  from name have "safe_path (ei_name e)" by (simp add: check_entry_name_safe)
  moreover have "unat (ei_compressed_size e) \<le> ceiling" by (rule entry_at_stored [OF at])
  ultimately show ?thesis using idx by simp
qed

section \<open>Properties\<close>

text \<open>
  Property C11.  What \<open>read_entry\<close> accepts, and what it then gives, in plain numbers: the declared
  size is within the budget and the ratio, no read before the end failed, and the bytes inflated,
  all of them, are within the budget and the ratio.  Checking on every chunk refuses nothing that
  checking the whole would accept.
\<close>

theorem read_entry_accepts:
  "read_entry archive entry limits b = Inr (out, b') \<longleftrightarrow>
     unat (ei_declared_size entry) \<le> unat (remaining b)
     \<and> ratio_ok limits (unat (ei_compressed_size entry)) (unat (ei_declared_size entry))
     \<and> (\<exists>reads. za_reads archive (ei_index entry) = Inr reads
          \<and> list_all (\<lambda>r. \<not> isl r) (payload reads) \<and> out = inflated_bytes reads)
     \<and> length out \<le> unat (remaining b)
     \<and> ratio_ok limits (unat (ei_compressed_size entry)) (length out)
     \<and> b' = spend out b"
  by (rule read_entry_Inr)

text \<open>
  A header that lies is stopped where the data passes the budget or the ratio,
  with \<open>RESOURCE_EXHAUSTED\<close>, whatever the decompressor would have answered after that.
\<close>

theorem lying_header_stopped:
  assumes "unat (ei_declared_size entry) \<le> unat (remaining b)"
    and "ratio_ok limits (unat (ei_compressed_size entry)) (unat (ei_declared_size entry))"
    and "za_reads archive (ei_index entry) = Inr (map Inr chunks @ rest)"
    and "list_all (\<lambda>c. c \<noteq> []) chunks"
    and "\<not> (length (concat chunks) \<le> unat (remaining b)
            \<and> ratio_ok limits (unat (ei_compressed_size entry)) (length (concat chunks)))"
  shows "\<exists>m. read_entry archive entry limits b = Inl (Status ResourceExhausted m)"
proof -
  obtain m where "inflate_loop entry limits (remaining b) [] (map Inr chunks @ rest) =
      Inl (Status ResourceExhausted m)"
    using inflate_loop_append [OF assms(4), of "[]" "remaining b" limits entry rest] assms(5) by auto
  with assms(1-3) show ?thesis
    by (simp add: read_entry_def check_budget_def check_ratio_iff guard_err_def word_less_nat_alt)
qed

theorem lying_header_stopped_witness:
  "\<exists>m. read_entry
     \<lparr>za_headers = [], za_directory_start = 0,
      za_reads = (\<lambda>_. Inr [Inr ''abcd'', Inl \<lparr>io_kind_of = OtherKind, io_text = ''late''\<rparr>])\<rparr>
     \<lparr>ei_index = 0, ei_name = ''x'', ei_declared_size = 1, ei_compressed_size = 1\<rparr>
     (default_effective\<lparr>eff_max_compression_ratio := 3, eff_compression_ratio_floor_bytes := 1\<rparr>)
     (new_budget 9) = Inl (Status ResourceExhausted m)"
  by (rule lying_header_stopped [where chunks = "[''abcd'']"])
    (simp_all add: ratio_ok_def new_budget_def)

text \<open>
  Property C12.  However many entries a call inflates, one after another from a fresh budget, the
  bytes it got out are at most the limit, and the budget accounts for every one of them.
\<close>

theorem inflated_within_limit:
  assumes "read_all (\<lambda>entry. read_entry archive entry limits) entries (new_budget limit) = Inr (outs, b)"
  shows "length (concat outs) \<le> unat limit \<and> unat (consumed b) = length (concat outs)
    \<and> unat (remaining b) + unat (consumed b) = unat limit"
proof -
  have ok: "unat (remaining (new_budget limit)) + unat (consumed (new_budget limit)) < 2 ^ 64"
    using unat_bound64 [of limit] by (simp add: new_budget_def)
  show ?thesis
    using budget.read_all_spends [OF ok assms] by (simp add: new_budget_def)
qed

theorem inflated_within_limit_witness:
  "length (concat [''ab'', ''cde'']) \<le> unat (6 :: u64)"
proof -
  let ?a = "\<lparr>za_headers = [], za_directory_start = 0,
      za_reads = (\<lambda>i. Inr (if i = 0 then [Inr ''a'', Inr ''b'', Inr []] else [Inr ''cde'']))\<rparr>"
  let ?e = "\<lambda>i n. \<lparr>ei_index = i, ei_name = ''x'', ei_declared_size = n, ei_compressed_size = n\<rparr>"
  have run: "read_all (\<lambda>entry. read_entry ?a entry default_effective) [?e 0 2, ?e 1 3] (new_budget 6) =
      Inr ([''ab'', ''cde''], spend ''cde'' (spend ''ab'' (new_budget 6)))"
    by code_simp
  show ?thesis using inflated_within_limit [OF run] by simp
qed

text \<open>
  Property C13.  The scan succeeds exactly when every header can be read by this build (name,
  encryption, method) and no two usable names are one path, and then it is the headers' own
  reading: each usable entry in directory order, each unusable name with its reason.
\<close>

theorem scan_reads_headers:
  "scan archive = Inr sc \<longleftrightarrow>
     list_all readable (za_headers archive)
     \<and> distinct (map ei_name (entries_of (za_directory_start archive) 0 (za_headers archive)))
     \<and> sc = \<lparr>scan_entries = entries_of (za_directory_start archive) 0 (za_headers archive),
             scan_unusable = List.map_filter unusable_at (za_headers archive)\<rparr>"
  by (simp add: scan_def scan_from_iff)

definition sample_header :: "string \<Rightarrow> zip_error + zip_entry" where
  "sample_header name = Inr \<lparr>ze_name = Inr name, ze_encrypted = False, ze_compression = Stored,
     ze_size = 20, ze_compressed_size = 90, ze_central_header_start = 60\<rparr>"

text \<open>
  Property C14.  The entries of a scan are safe, distinct paths, in central-directory order,
  each the position of a header, and none is credited with more stored bytes than lie before the
  central directory.
\<close>

theorem scan_entries_sound:
  assumes "scan archive = Inr sc"
  shows "list_all (\<lambda>e. safe_path (ei_name e) \<and> ei_index e < length (za_headers archive)
           \<and> unat (ei_compressed_size e) \<le> za_directory_start archive) (scan_entries sc)
    \<and> distinct (map ei_name (scan_entries sc))
    \<and> sorted_wrt (\<lambda>a b. ei_index a < ei_index b) (scan_entries sc)"
proof -
  let ?es = "entries_of (za_directory_start archive) 0 (za_headers archive)"
  have sc: "scan_entries sc = ?es" and dist: "distinct (map ei_name ?es)"
    using assms by (simp_all add: scan_def scan_from_iff)
  have "safe_path (ei_name e) \<and> ei_index e < length (za_headers archive)
      \<and> unat (ei_compressed_size e) \<le> za_directory_start archive" if "e \<in> set ?es" for e
    using entries_of_sound [OF that] .
  with dist entries_of_sorted show ?thesis by (simp add: sc list_all_iff)
qed

theorem scan_entries_sound_witness:
  "\<exists>sc. scan \<lparr>za_headers = [sample_header ''mimetype'', sample_header ''/etc/passwd'',
        sample_header ''OEBPS/'', sample_header [CHR ''O'', CHR ''E'', CHR 0x5C, CHR ''a'']],
      za_directory_start = 60, za_reads = (\<lambda>_. Inr [])\<rparr> = Inr sc
    \<and> map ei_name (scan_entries sc) = [''mimetype'', ''OE/a''] \<and> distinct (map ei_name (scan_entries sc))"
proof -
  let ?e = "\<lambda>i name. \<lparr>ei_index = i, ei_name = name, ei_declared_size = 20, ei_compressed_size = 60\<rparr>"
  have run: "scan \<lparr>za_headers = [sample_header ''mimetype'', sample_header ''/etc/passwd'',
        sample_header ''OEBPS/'', sample_header [CHR ''O'', CHR ''E'', CHR 0x5C, CHR ''a'']],
      za_directory_start = 60, za_reads = (\<lambda>_. Inr [])\<rparr> =
      Inr \<lparr>scan_entries = [?e 0 ''mimetype'', ?e 3 ''OE/a''],
           scan_unusable = [(''/etc/passwd'', Absolute)]\<rparr>"
    by code_simp
  show ?thesis using scan_entries_sound [OF run] run by simp
qed

text \<open>
  Property C15.  An archive whose central directory names one raw path twice is refused and one
  that does not is not, although the crate shows only the survivors: for records laid end to end,
  of which the crate kept the last of each name, the walk refuses with the first dropped name.
\<close>

theorem merged_records_refused:
  assumes "za_headers archive = map Inr headers"
    and "laid_out bytes (za_directory_start archive) records"
    and "set (map ze_central_header_start headers) = set (survivors (za_directory_start archive) records)"
  shows "refuse_merged_records bytes archive =
    (case first_merged records of
       None \<Rightarrow> Inr () | Some name \<Rightarrow> Inl (two_entries (from_utf8_lossy name)))
    \<and> (first_merged records = None \<longleftrightarrow> distinct (map cr_name records))"
proof
  let ?pos = "za_directory_start archive" and ?kept = "map ze_central_header_start headers"
  have headers: "map_result (map_err zip_status) (za_headers archive) = Inr headers"
    unfolding map_result_Inr by (simp add: assms(1))
  show "refuse_merged_records bytes archive =
    (case first_merged records of
       None \<Rightarrow> Inr () | Some name \<Rightarrow> Inl (two_entries (from_utf8_lossy name)))"
  proof (cases "records = []")
    case True
    with assms(3) have "?kept = []" by simp
    with True headers show ?thesis by (simp add: refuse_merged_records_def)
  next
    case False
    then have ne: "set ?kept \<noteq> {}" using assms(3) survivors_Nil by (metis set_empty)
    have "set ?kept \<inter> {?pos..} = set (survivors ?pos records)"
      using assms(3) survivors_ge by auto
    moreover have "fold max ?kept 0 = Max (set (survivors ?pos records))"
      using ne unfolding fold_max_set assms(3) by (subst Max_insert) simp_all
    ultimately show ?thesis
      using walk_records_spec [OF assms(2) False] headers ne
      by (auto simp: refuse_merged_records_def)
  qed
qed (rule first_merged_None)

definition sample_record :: string where
  "sample_record = replicate 28 CHR 0x00 @ [CHR 0x01] @ replicate 17 CHR 0x00 @ ''a''"

theorem merged_records_refused_witness:
  "refuse_merged_records (sample_record @ sample_record)
     \<lparr>za_headers = [Inr \<lparr>ze_name = Inr ''a'', ze_encrypted = False, ze_compression = Stored,
        ze_size = 0, ze_compressed_size = 0, ze_central_header_start = 47\<rparr>],
      za_directory_start = 0, za_reads = (\<lambda>_. Inr [])\<rparr> = Inl (two_entries ''a'')"
proof -
  let ?r = "\<lparr>cr_name = ''a'', cr_extra_len = 0, cr_comment_len = 0\<rparr>"
  let ?h = "\<lparr>ze_name = Inr ''a'', ze_encrypted = False, ze_compression = Stored,
        ze_size = 0, ze_compressed_size = 0, ze_central_header_start = 47\<rparr>"
  let ?a = "\<lparr>za_headers = [Inr ?h], za_directory_start = 0, za_reads = (\<lambda>_. Inr [])\<rparr>"
  have laid: "laid_out (sample_record @ sample_record) (za_directory_start ?a) [?r, ?r]"
    by (simp add: record_at_def u16_field_def get_range_def record_len_def CENTRAL_RECORD_FIXED_def
        sample_record_def replicate_two ord_def)
  have kept: "set (map ze_central_header_start [?h]) = set (survivors (za_directory_start ?a) [?r, ?r])"
    by (simp add: record_len_def CENTRAL_RECORD_FIXED_def)
  have lossy: "from_utf8_lossy ''a'' = ''a''" by code_simp
  show ?thesis
    using merged_records_refused [OF _ laid kept] lossy by simp
qed

text \<open>
  The entry ceiling is enforced before the central directory is parsed: the
  signature count alone refuses, whatever the parser would do, exactly when it is over the
  ceiling.
\<close>

theorem open_archive_counts_first:
  assumes "bytes \<noteq> []"
  shows "(\<exists>m. \<forall>zip_new. open_archive zip_new bytes limits = Inl (Status ResourceExhausted m))
    \<longleftrightarrow> count_windows CENTRAL_RECORD_SIGNATURE bytes > unat (eff_max_entries limits)"
proof
  assume "count_windows CENTRAL_RECORD_SIGNATURE bytes > unat (eff_max_entries limits)"
  with assms show "\<exists>m. \<forall>zip_new. open_archive zip_new bytes limits = Inl (Status ResourceExhausted m)"
    by (simp add: open_archive_def)
next
  assume "\<exists>m. \<forall>zip_new. open_archive zip_new bytes limits = Inl (Status ResourceExhausted m)"
  then obtain m where
    "open_archive (\<lambda>_. Inl InvalidPassword) bytes limits = Inl (Status ResourceExhausted m)" by blast
  with assms show "count_windows CENTRAL_RECORD_SIGNATURE bytes > unat (eff_max_entries limits)"
    by (auto simp: open_archive_def Let_def zip_status_def split: if_splits)
qed

theorem open_archive_counts_first_witness:
  "\<exists>m. open_archive (\<lambda>_. Inr \<lparr>za_headers = [], za_directory_start = 0, za_reads = (\<lambda>_. Inr [])\<rparr>)
     (CENTRAL_RECORD_SIGNATURE @ CENTRAL_RECORD_SIGNATURE) (default_effective\<lparr>eff_max_entries := 1\<rparr>)
     = Inl (Status ResourceExhausted m)"
proof -
  have ne: "CENTRAL_RECORD_SIGNATURE @ CENTRAL_RECORD_SIGNATURE \<noteq> []"
    by (simp add: CENTRAL_RECORD_SIGNATURE_def)
  have "count_windows CENTRAL_RECORD_SIGNATURE (CENTRAL_RECORD_SIGNATURE @ CENTRAL_RECORD_SIGNATURE) = 2"
    by code_simp
  then show ?thesis
    using open_archive_counts_first [OF ne, of "default_effective\<lparr>eff_max_entries := 1\<rparr>"] by auto
qed

end
