(* ===== verification/Xml.thy ===== *)
theory Xml imports RustStr begin

text \<open>
  The XML layer the packaging documents share (\<open>src/opf.rs\<close>: \<open>reader\<close>, \<open>attribute\<close>, \<open>Text\<close>,
  \<open>check_doctype\<close>, \<open>XmlError\<close>).

  The parser is the \<open>quick-xml\<close> crate, which is not part of the repository: \<open>xml_reader\<close> is the
  parameter that stands for it, giving for a configuration and the document's bytes the results of
  successive \<open>read_event_into\<close> calls up to the end of the document, an error text or an event
  each.  What the crate says about a name (its local part) and about a value (its normalized
  form) is in the event.

  \<open>xml_node\<close> is a well-nested document, the shape the crate's end-name check is there to enforce,
  and \<open>flatten\<close> its events: the readers are specified on trees and proved on their events.
\<close>

section \<open>The reader's values\<close>

record reader_config =
  check_end_names :: bool
  allow_unmatched_ends :: bool
  expand_empty_elements :: bool

record xml_attr =
  at_key :: string
  at_local :: string
  at_raw :: string
  at_normalized :: "string option"

record xml_start =
  st_local :: string
  st_attributes :: "(string + xml_attr) list"

text \<open>A general reference, with the character it resolves to when it is a character reference.\<close>

record xml_ref =
  ref_name :: string
  ref_char :: "string option"

datatype xml_event =
    EvStart xml_start
  | EvEmpty xml_start
  | EvEnd string
  | EvText string
  | EvCData string
  | EvRef xml_ref
  | EvDocType string
  | EvOther

type_synonym xml_reader = "reader_config \<Rightarrow> string \<Rightarrow> (string + xml_event) list"

section \<open>Definitions\<close>

datatype xml_error = Malformed string | EntityDeclaration | NoRootfile | NotAPackage | EmptySpine

definition xml_error_message :: "xml_error \<Rightarrow> message" where
  "xml_error_message e =
     (case e of
        Malformed detail \<Rightarrow> [Lit ''malformed XML: '', Str detail]
      | EntityDeclaration \<Rightarrow>
          [Lit ''the document declares a DTD entity; entity declarations are refused because '',
           Lit ''they are the shape an XXE attack arrives in and no package document needs one'']
      | NoRootfile \<Rightarrow> [Lit (''META-INF/container.xml names no <rootfile full-path=''
             @ [CHR 0xE2, CHR 0x80, CHR 0xA6] @ ''>'')]
      | NotAPackage \<Rightarrow> [Lit ''the OPF root element is not <package>'']
      | EmptySpine \<Rightarrow> [Lit ''the OPF declares no spine items''])"

definition reader_settings :: reader_config where
  "reader_settings =
     \<lparr>check_end_names = True, allow_unmatched_ends = False, expand_empty_elements = False\<rparr>"

definition attribute_value :: "xml_attr \<Rightarrow> string" where
  "attribute_value a = (case at_normalized a of Some v \<Rightarrow> v | None \<Rightarrow> at_raw a)"

text \<open>The loop of \<open>attribute\<close>; an attribute that does not parse is passed over.\<close>

fun find_attribute :: "(string + xml_attr) list \<Rightarrow> string \<Rightarrow> string" where
  "find_attribute [] name = []"
| "find_attribute (Inl _ # rest) name = find_attribute rest name"
| "find_attribute (Inr a # rest) name =
     (if prefix ''xmlns'' (at_key a) then find_attribute rest name
      else if at_local a = name then attribute_value a
      else find_attribute rest name)"

definition attribute :: "xml_start \<Rightarrow> string \<Rightarrow> string" where
  "attribute start name = find_attribute (st_attributes start) name"

definition push_ref :: "string \<Rightarrow> xml_ref \<Rightarrow> string" where
  "push_ref txt reference =
     (case ref_char reference of
        Some resolved \<Rightarrow> txt @ resolved
      | None \<Rightarrow>
          (let name = ref_name reference
           in if name = ''amp'' then txt @ ''&''
              else if name = ''lt'' then txt @ ''<''
              else if name = ''gt'' then txt @ ''>''
              else if name = ''quot'' then txt @ [CHR 0x22]
              else if name = ''apos'' then txt @ [CHR 0x27]
              else txt @ ''&'' @ name @ '';''))"

definition check_doctype :: "string \<Rightarrow> xml_error + unit" where
  "check_doctype raw =
     (let txt = to_ascii_uppercase raw
      in if contains_str ''<!ENTITY'' txt \<or> contains_str ''!ENTITY'' txt
         then Inl EntityDeclaration else Inr ())"

text \<open>An event loop: the first read error, or the first error of the step, ends it.\<close>

fun drive :: "('s \<Rightarrow> xml_event \<Rightarrow> xml_error + 's) \<Rightarrow> 's \<Rightarrow> (string + xml_event) list \<Rightarrow> xml_error + 's"
where
  "drive step s [] = Inr s"
| "drive step s (Inl detail # _) = Inl (Malformed detail)"
| "drive step s (Inr ev # rest) = and_then (step s ev) (\<lambda>s'. drive step s' rest)"

lemma drive_append:
  "drive step s (xs @ ys) = and_then (drive step s xs) (\<lambda>s'. drive step s' ys)"
  by (induction step s xs rule: drive.induct) (auto simp: and_then_def split: sum.splits)

lemma drive_append_Inr:
  "drive step s xs = Inr s' \<Longrightarrow> drive step s (xs @ ys) = drive step s' ys"
  by (simp add: drive_append)

lemma contains_str_prefix: "prefix q s \<Longrightarrow> contains_str q s"
  by (cases s) auto

lemma contains_str_mono: "contains_str (p @ q) s \<Longrightarrow> contains_str q s"
proof (induction s)
  case Nil
  then show ?case by simp
next
  case (Cons x s)
  show ?case
  proof (cases "prefix (p @ q) (x # s)")
    case False
    with Cons show ?thesis by simp
  next
    case True
    then obtain r where "x # s = p @ q @ r" by (auto simp: prefix_def)
    moreover have "contains_str q (p @ q @ r)" for p
    proof (induction p)
      case Nil
      then show ?case by (simp add: contains_str_prefix)
    qed simp
    ultimately show ?thesis by metis
  qed
qed

text \<open>The second test of \<open>check_doctype\<close> subsumes the first.\<close>

lemma check_doctype_iff:
  "check_doctype raw = Inl EntityDeclaration \<longleftrightarrow> contains_str ''!ENTITY'' (to_ascii_uppercase raw)"
  using contains_str_mono [of "''<''" "''!ENTITY''" "to_ascii_uppercase raw"]
  by (auto simp: check_doctype_def Let_def)

section \<open>Documents as trees\<close>

datatype xml_node = Elem xml_start "xml_node list" | Void xml_start | Leaf xml_event

fun flatten :: "xml_node \<Rightarrow> (string + xml_event) list" where
  "flatten (Elem start nodes) =
     Inr (EvStart start) # concat (map flatten nodes) @ [Inr (EvEnd (st_local start))]"
| "flatten (Void start) = [Inr (EvEmpty start)]"
| "flatten (Leaf ev) = [Inr ev]"

definition plain_event :: "xml_event \<Rightarrow> bool" where
  "plain_event ev =
     (case ev of EvText _ \<Rightarrow> True | EvCData _ \<Rightarrow> True | EvRef _ \<Rightarrow> True | EvOther \<Rightarrow> True | _ \<Rightarrow> False)"

text \<open>No tag is a leaf and no element holds a document type: what a well-nested content is.\<close>

fun nested :: "xml_node \<Rightarrow> bool" where
  "nested (Elem start nodes) = list_all nested nodes"
| "nested (Void start) = True"
| "nested (Leaf ev) = plain_event ev"

abbreviation flatten_all :: "xml_node list \<Rightarrow> (string + xml_event) list" where
  "flatten_all nodes \<equiv> concat (map flatten nodes)"

text \<open>
  To run an event loop over the events of a list of nodes it is enough to know what it makes of
  each node: \<open>F\<close> is the effect of one node, \<open>P\<close> what the loop keeps of the state.
\<close>

lemma drive_nodes:
  assumes "\<And>n s. n \<in> set nodes \<Longrightarrow> P s \<Longrightarrow> drive step s (flatten n) = Inr (F n s) \<and> P (F n s)"
    and "P s"
  shows "drive step s (flatten_all nodes) = Inr (fold F nodes s) \<and> P (fold F nodes s)"
  using assms
proof (induction nodes arbitrary: s)
  case Nil
  then show ?case by simp
next
  case (Cons n nodes)
  then have "drive step s (flatten n) = Inr (F n s)" "P (F n s)" by auto
  with Cons show ?case by (simp add: drive_append)
qed

end
