(* ===== verification/Opf.thy ===== *)
theory Opf imports Xml begin

text \<open>
  \<open>src/opf.rs\<close>: the container, the encryption declaration and the package document, read from the
  events of an XML reader.

  The parser state \<open>package_parser\<close> and its steps \<open>open_tag\<close>, \<open>open_metadata\<close>, \<open>close_tag\<close> and
  \<open>store\<close> are the methods of \<open>PackageParser\<close>.  \<open>manifest_of\<close>, \<open>spine_of\<close> and \<open>records_of\<close>
  read the same things off a document tree; the parsers are proved to agree with them.
\<close>

section \<open>Data\<close>

record manifest_item =
  mi_id :: string
  mi_href :: string
  mi_media_type :: string
  mi_properties :: "string list"
  mi_media_overlay :: string
  mi_fallback :: string

record spine_item =
  si_idref :: string
  si_linear :: bool

record dc_identifier =
  idn_value :: string
  idn_id :: string
  idn_scheme :: string

record refinement =
  rf_property :: string
  rf_value :: string
  rf_scheme :: string

record meta_entry =
  me_element :: string
  me_value :: string
  me_id :: string
  me_scheme :: string
  me_refinements :: "refinement list"

record contributor =
  co_name :: string
  co_role :: string
  co_file_as :: string

record title =
  ti_value :: string
  ti_type :: string

record metadata =
  md_title :: string
  md_titles :: "title list"
  md_creators :: "contributor list"
  md_contributors :: "contributor list"
  md_language :: string
  md_languages :: "string list"
  md_identifiers :: "dc_identifier list"
  md_publisher :: string
  md_description :: string
  md_date :: string
  md_modified :: string
  md_subjects :: "string list"
  md_rights :: string
  md_source :: string
  md_resource_type :: string
  md_format :: string
  md_coverage :: string
  md_relation :: string
  md_cover_id :: string
  md_entries :: "meta_entry list"

record package =
  pk_version :: string
  pk_unique_identifier_id :: string
  pk_metadata :: metadata
  pk_manifest :: "manifest_item list"
  pk_spine :: "spine_item list"
  pk_toc_idref :: string

definition empty_metadata :: metadata where
  "empty_metadata = \<lparr>md_title = [], md_titles = [], md_creators = [], md_contributors = [],
     md_language = [], md_languages = [], md_identifiers = [], md_publisher = [],
     md_description = [], md_date = [], md_modified = [], md_subjects = [], md_rights = [],
     md_source = [], md_resource_type = [], md_format = [], md_coverage = [], md_relation = [],
     md_cover_id = [], md_entries = []\<rparr>"

definition empty_package :: package where
  "empty_package = \<lparr>pk_version = [], pk_unique_identifier_id = [], pk_metadata = empty_metadata,
     pk_manifest = [], pk_spine = [], pk_toc_idref = []\<rparr>"

text \<open>\<open>MetaEntry::refined\<close>.\<close>

definition refined :: "meta_entry \<Rightarrow> string \<Rightarrow> string" where
  "refined entry property =
     (case find (\<lambda>r. rf_property r = property) (me_refinements entry) of
        None \<Rightarrow> [] | Some r \<Rightarrow> rf_value r)"

section \<open>The container\<close>

text \<open>The event loop of \<open>parse_container\<close>: \<open>first\<close> is the first rootfile that names a path.\<close>

fun container_loop :: "string option \<Rightarrow> (string + xml_event) list \<Rightarrow> xml_error + string" where
  "container_loop first [] = ok_or NoRootfile first"
| "container_loop first (Inl detail # _) = Inl (Malformed detail)"
| "container_loop first (Inr ev # rest) =
     (let tag = (\<lambda>start.
        if st_local start = ''rootfile'' then
          let path = attribute start ''full-path''
          in if path = [] then container_loop first rest
             else if attribute start ''media-type'' = ''application/oebps-package+xml'' then Inr path
             else container_loop (case first of None \<Rightarrow> Some path | Some p \<Rightarrow> Some p) rest
        else container_loop first rest)
      in case ev of
           EvDocType dtd \<Rightarrow> and_then (check_doctype dtd) (\<lambda>_. container_loop first rest)
         | EvStart start \<Rightarrow> tag start
         | EvEmpty start \<Rightarrow> tag start
         | _ \<Rightarrow> container_loop first rest)"

definition parse_container :: "xml_reader \<Rightarrow> string \<Rightarrow> xml_error + string" where
  "parse_container reader bytes = container_loop None (reader reader_settings bytes)"

section \<open>The encryption declaration\<close>

definition IDPF_OBFUSCATION :: string where
  "IDPF_OBFUSCATION = ''http://www.idpf.org/2008/embedding''"

definition ADOBE_OBFUSCATION :: string where
  "ADOBE_OBFUSCATION = ''http://ns.adobe.com/pdf/enc#RC''"

record encrypted =
  en_algorithm :: string
  en_uri :: string

definition empty_encrypted :: encrypted where
  "empty_encrypted = \<lparr>en_algorithm = [], en_uri = []\<rparr>"

definition is_obfuscation :: "encrypted \<Rightarrow> bool" where
  "is_obfuscation record \<longleftrightarrow>
     en_algorithm record = IDPF_OBFUSCATION \<or> en_algorithm record = ADOBE_OBFUSCATION"

definition is_record :: "string \<Rightarrow> bool" where
  "is_record local \<longleftrightarrow> local = ''EncryptedData'' \<or> local = ''EncryptedKey''"

definition describe_record :: "xml_start \<Rightarrow> encrypted \<Rightarrow> encrypted" where
  "describe_record start record =
     (if st_local start = ''EncryptionMethod'' \<and> en_algorithm record = []
      then record\<lparr>en_algorithm := attribute start ''Algorithm''\<rparr>
      else if st_local start = ''CipherReference'' \<and> en_uri record = []
      then record\<lparr>en_uri := attribute start ''URI''\<rparr>
      else record)"

text \<open>\<open>open\<close> is a stack, its innermost record first; the code's vector has it last.\<close>

record encryption_state =
  es_open :: "(nat \<times> encrypted) list"
  es_found :: "encrypted list"
  es_depth :: nat

definition describe :: "xml_start \<Rightarrow> encryption_state \<Rightarrow> encryption_state" where
  "describe start s =
     (case es_open s of
        [] \<Rightarrow> s
      | (at, record) # rest \<Rightarrow> s\<lparr>es_open := (at, describe_record start record) # rest\<rparr>)"

definition encryption_step :: "encryption_state \<Rightarrow> xml_event \<Rightarrow> xml_error + encryption_state" where
  "encryption_step s ev =
     (case ev of
        EvDocType dtd \<Rightarrow> and_then (check_doctype dtd) (\<lambda>_. Inr s)
      | EvStart start \<Rightarrow>
          (let s' = s\<lparr>es_depth := es_depth s + 1\<rparr>
           in Inr (if is_record (st_local start)
                   then s'\<lparr>es_open := (es_depth s', empty_encrypted) # es_open s'\<rparr>
                   else describe start s'))
      | EvEmpty start \<Rightarrow>
          Inr (if is_record (st_local start)
               then s\<lparr>es_found := es_found s @ [empty_encrypted]\<rparr>
               else describe start s)
      | EvEnd _ \<Rightarrow>
          (let s' = (case es_open s of
                       (at, record) # rest \<Rightarrow>
                         if at = es_depth s
                         then s\<lparr>es_open := rest, es_found := es_found s @ [record]\<rparr> else s
                     | [] \<Rightarrow> s)
           in Inr (s'\<lparr>es_depth := es_depth s' - 1\<rparr>))
      | _ \<Rightarrow> Inr s)"

definition parse_encryption :: "xml_reader \<Rightarrow> string \<Rightarrow> xml_error + encrypted list" where
  "parse_encryption reader bytes =
     and_then
       (drive encryption_step \<lparr>es_open = [], es_found = [], es_depth = 0\<rparr>
          (reader reader_settings bytes))
       (\<lambda>s. Inr (es_found s))"

section \<open>The package document\<close>

datatype opf_section = Outside | Metadata | Manifest | Spine

definition DUBLIN_CORE :: "string list" where
  "DUBLIN_CORE = [''title'', ''creator'', ''contributor'', ''language'', ''identifier'', ''publisher'',
     ''description'', ''date'', ''subject'', ''rights'', ''source'', ''type'', ''format'', ''coverage'',
     ''relation'']"

record pending =
  pe_local :: string
  pe_entry :: meta_entry
  pe_refines :: string

record package_parser =
  pp_package :: package
  pp_saw_package :: bool
  pp_section :: opf_section
  pp_depth :: nat
  pp_section_depth :: nat
  pp_collecting :: "pending option"
  pp_text :: string
  pp_refinements :: "(string \<times> refinement) list"

definition new_parser :: package_parser where
  "new_parser = \<lparr>pp_package = empty_package, pp_saw_package = False, pp_section = Outside,
     pp_depth = 0, pp_section_depth = 0, pp_collecting = None, pp_text = [], pp_refinements = []\<rparr>"

definition epub2_refinements :: "xml_start \<Rightarrow> refinement list" where
  "epub2_refinements start =
     List.map_filter
       (\<lambda>(attribute_name, property).
          let v = attribute start attribute_name
          in if v = [] then None else Some \<lparr>rf_property = property, rf_value = v, rf_scheme = []\<rparr>)
       [(''role'', ''role''), (''file-as'', ''file-as'')]"

definition update_package :: "(package \<Rightarrow> package) \<Rightarrow> package_parser \<Rightarrow> package_parser" where
  "update_package f p = p\<lparr>pp_package := f (pp_package p)\<rparr>"

definition update_metadata :: "(metadata \<Rightarrow> metadata) \<Rightarrow> package_parser \<Rightarrow> package_parser" where
  "update_metadata f = update_package (\<lambda>k. k\<lparr>pk_metadata := f (pk_metadata k)\<rparr>)"

definition store :: "pending \<Rightarrow> string \<Rightarrow> package_parser \<Rightarrow> package_parser" where
  "store pending txt p =
     (if pe_refines pending = []
      then update_metadata
             (\<lambda>m. m\<lparr>md_entries := md_entries m @ [(pe_entry pending)\<lparr>me_value := txt\<rparr>]\<rparr>) p
      else p\<lparr>pp_refinements := pp_refinements p @
               [(pe_refines pending,
                 \<lparr>rf_property = me_element (pe_entry pending), rf_value = txt,
                  rf_scheme = me_scheme (pe_entry pending)\<rparr>)]\<rparr>)"

text \<open>What a start tag inside \<open><metadata>\<close> opens: nothing, or an element to collect.\<close>

definition pending_of :: "xml_start \<Rightarrow> pending option" where
  "pending_of start =
     (let name = st_local start
      in if name = ''meta'' then
           (let property = attribute start ''property''
            in if property = [] then None
               else Some
                 \<lparr>pe_local = name,
                  pe_entry = \<lparr>me_element = property, me_value = [], me_id = attribute start ''id'',
                              me_scheme = attribute start ''scheme'', me_refinements = []\<rparr>,
                  pe_refines = dropWhile (\<lambda>c. c = CHR ''#'') (attribute start ''refines'')\<rparr>)
         else if name \<in> set DUBLIN_CORE then
           Some
             \<lparr>pe_local = name,
              pe_entry = \<lparr>me_element = name, me_value = [], me_id = attribute start ''id'',
                          me_scheme = attribute start ''scheme'',
                          me_refinements = epub2_refinements start\<rparr>,
              pe_refines = []\<rparr>
         else None)"

definition is_cover_meta :: "xml_start \<Rightarrow> bool" where
  "is_cover_meta start \<longleftrightarrow>
     st_local start = ''meta'' \<and> eq_ignore_ascii_case (attribute start ''name'') ''cover''"

definition set_cover :: "xml_start \<Rightarrow> metadata \<Rightarrow> metadata" where
  "set_cover start m =
     (let content = attribute start ''content''
      in if content \<noteq> [] \<and> md_cover_id m = [] then m\<lparr>md_cover_id := content\<rparr> else m)"

definition open_metadata :: "xml_start \<Rightarrow> bool \<Rightarrow> package_parser \<Rightarrow> package_parser" where
  "open_metadata start void p =
     (if is_cover_meta start then update_metadata (set_cover start) p
      else case pending_of start of
             None \<Rightarrow> p
           | Some pending \<Rightarrow>
               let p = p\<lparr>pp_text := []\<rparr>
               in if void then store pending [] p else p\<lparr>pp_collecting := Some pending\<rparr>)"

definition enter :: "opf_section \<Rightarrow> package_parser \<Rightarrow> package_parser" where
  "enter sect p = p\<lparr>pp_section := sect, pp_section_depth := pp_depth p\<rparr>"

definition item_of :: "xml_start \<Rightarrow> manifest_item" where
  "item_of start =
     \<lparr>mi_id = attribute start ''id'', mi_href = attribute start ''href'',
      mi_media_type = attribute start ''media-type'',
      mi_properties = split_whitespace (attribute start ''properties''),
      mi_media_overlay = attribute start ''media-overlay'',
      mi_fallback = attribute start ''fallback''\<rparr>"

definition itemref_of :: "xml_start \<Rightarrow> spine_item" where
  "itemref_of start =
     \<lparr>si_idref = attribute start ''idref'', si_linear = (attribute start ''linear'' \<noteq> ''no'')\<rparr>"

definition open_tag :: "xml_start \<Rightarrow> bool \<Rightarrow> package_parser \<Rightarrow> xml_error + package_parser" where
  "open_tag start void p0 =
     (let p = (if void then p0 else p0\<lparr>pp_depth := pp_depth p0 + 1\<rparr>);
          name = st_local start
      in if \<not> pp_saw_package p then
           (if name \<noteq> ''package'' then Inl NotAPackage
            else Inr (update_package
                   (\<lambda>k. k\<lparr>pk_version := attribute start ''version'',
                          pk_unique_identifier_id := attribute start ''unique-identifier''\<rparr>)
                   (p\<lparr>pp_saw_package := True\<rparr>)))
         else Inr
           (case pp_section p of
              Outside \<Rightarrow>
                (if void then p
                 else if name = ''metadata'' then enter Metadata p
                 else if name = ''manifest'' then enter Manifest p
                 else if name = ''spine''
                 then enter Spine (update_package (\<lambda>k. k\<lparr>pk_toc_idref := attribute start ''toc''\<rparr>) p)
                 else p)
            | Metadata \<Rightarrow> open_metadata start void p
            | Manifest \<Rightarrow>
                (if name = ''item''
                 then update_package (\<lambda>k. k\<lparr>pk_manifest := pk_manifest k @ [item_of start]\<rparr>) p
                 else p)
            | Spine \<Rightarrow>
                (if name = ''itemref''
                 then update_package (\<lambda>k. k\<lparr>pk_spine := pk_spine k @ [itemref_of start]\<rparr>) p
                 else p)))"

definition close_tag :: "string \<Rightarrow> package_parser \<Rightarrow> package_parser" where
  "close_tag name p0 =
     (let p = (case pp_collecting p0 of
                 Some pending \<Rightarrow>
                   if pe_local pending = name
                   then store pending (trim (pp_text p0)) (p0\<lparr>pp_collecting := None, pp_text := []\<rparr>)
                   else p0
               | None \<Rightarrow> p0);
          p = (if pp_section p \<noteq> Outside \<and> pp_depth p = pp_section_depth p
               then p\<lparr>pp_section := Outside\<rparr> else p)
      in p\<lparr>pp_depth := pp_depth p - 1\<rparr>)"

definition collect :: "(string \<Rightarrow> string) \<Rightarrow> package_parser \<Rightarrow> package_parser" where
  "collect f p = (if pp_collecting p = None then p else p\<lparr>pp_text := f (pp_text p)\<rparr>)"

definition package_step :: "package_parser \<Rightarrow> xml_event \<Rightarrow> xml_error + package_parser" where
  "package_step p ev =
     (case ev of
        EvDocType dtd \<Rightarrow> and_then (check_doctype dtd) (\<lambda>_. Inr p)
      | EvStart start \<Rightarrow> open_tag start False p
      | EvEmpty start \<Rightarrow> open_tag start True p
      | EvEnd local \<Rightarrow> Inr (close_tag local p)
      | EvText txt \<Rightarrow> Inr (collect (\<lambda>t. t @ txt) p)
      | EvCData txt \<Rightarrow> Inr (collect (\<lambda>t. t @ txt) p)
      | EvRef reference \<Rightarrow> Inr (collect (\<lambda>t. push_ref t reference) p)
      | EvOther \<Rightarrow> Inr p)"

text \<open>Attaching one refinement: to the first entry with the id it names, if any.\<close>

fun attach_refinement :: "string \<times> refinement \<Rightarrow> meta_entry list \<Rightarrow> meta_entry list" where
  "attach_refinement tr [] = []"
| "attach_refinement tr (e # es) =
     (if me_id e = fst tr
      then e\<lparr>me_refinements := me_refinements e @ [snd tr]\<rparr> # es
      else e # attach_refinement tr es)"

definition first_of :: "meta_entry list \<Rightarrow> string \<Rightarrow> string" where
  "first_of entries element =
     (case find (\<lambda>e. me_element e = element) entries of None \<Rightarrow> [] | Some e \<Rightarrow> me_value e)"

definition every_of :: "meta_entry list \<Rightarrow> string \<Rightarrow> string list" where
  "every_of entries element = map me_value (filter (\<lambda>e. me_element e = element) entries)"

definition credited :: "meta_entry list \<Rightarrow> string \<Rightarrow> contributor list" where
  "credited entries element =
     map (\<lambda>e. \<lparr>co_name = me_value e, co_role = refined e ''role'', co_file_as = refined e ''file-as''\<rparr>)
       (filter (\<lambda>e. me_element e = element) entries)"

definition first_or_empty :: "string list \<Rightarrow> string" where
  "first_or_empty xs = (case xs of [] \<Rightarrow> [] | x # _ \<Rightarrow> x)"

definition main_title :: "title list \<Rightarrow> string" where
  "main_title titles =
     (case find (\<lambda>t. ti_type t = ''main'') titles of
        Some t \<Rightarrow> ti_value t
      | None \<Rightarrow> (case titles of [] \<Rightarrow> [] | t # _ \<Rightarrow> ti_value t))"

definition derive :: "metadata \<Rightarrow> metadata" where
  "derive m =
     (let entries = md_entries m;
          titles = map (\<lambda>e. \<lparr>ti_value = me_value e, ti_type = refined e ''title-type''\<rparr>)
                     (filter (\<lambda>e. me_element e = ''title'') entries);
          languages = every_of entries ''language''
      in \<lparr>md_title = main_title titles, md_titles = titles,
          md_creators = credited entries ''creator'',
          md_contributors = credited entries ''contributor'',
          md_language = first_or_empty languages, md_languages = languages,
          md_identifiers =
            map (\<lambda>e. \<lparr>idn_value = me_value e, idn_id = me_id e, idn_scheme = me_scheme e\<rparr>)
              (filter (\<lambda>e. me_element e = ''identifier'') entries),
          md_publisher = first_of entries ''publisher'',
          md_description = first_of entries ''description'',
          md_date = first_of entries ''date'',
          md_modified = first_of entries ''dcterms:modified'',
          md_subjects = every_of entries ''subject'',
          md_rights = first_of entries ''rights'', md_source = first_of entries ''source'',
          md_resource_type = first_of entries ''type'', md_format = first_of entries ''format'',
          md_coverage = first_of entries ''coverage'', md_relation = first_of entries ''relation'',
          md_cover_id = md_cover_id m, md_entries = entries\<rparr>)"

definition finish_metadata :: "package_parser \<Rightarrow> package" where
  "finish_metadata p =
     (let k = pp_package p;
          m = pk_metadata k;
          m = m\<lparr>md_entries := fold attach_refinement (pp_refinements p) (md_entries m)\<rparr>
      in k\<lparr>pk_metadata := derive m\<rparr>)"

definition parse_package :: "xml_reader \<Rightarrow> string \<Rightarrow> xml_error + package" where
  "parse_package reader bytes =
     and_then (drive package_step new_parser (reader reader_settings bytes)) (\<lambda>p.
       if \<not> pp_saw_package p then Inl NotAPackage
       else if pk_spine (pp_package p) = [] then Inl EmptySpine
       else Inr (finish_metadata p))"

section \<open>Reading the container\<close>

text \<open>The tags of a document, and the rootfile a container asks for.\<close>

fun tag_of :: "xml_event \<Rightarrow> xml_start option" where
  "tag_of (EvStart s) = Some s"
| "tag_of (EvEmpty s) = Some s"
| "tag_of _ = None"

definition rootfile_path :: "xml_start \<Rightarrow> string option" where
  "rootfile_path s =
     (if st_local s = ''rootfile'' \<and> attribute s ''full-path'' \<noteq> []
      then Some (attribute s ''full-path'') else None)"

definition is_package_rootfile :: "xml_start \<Rightarrow> bool" where
  "is_package_rootfile s \<longleftrightarrow>
     rootfile_path s \<noteq> None \<and> attribute s ''media-type'' = ''application/oebps-package+xml''"

definition container_choice :: "string option \<Rightarrow> xml_start list \<Rightarrow> string option" where
  "container_choice first tags =
     (case find is_package_rootfile tags of
        Some s \<Rightarrow> rootfile_path s
      | None \<Rightarrow>
          (case first of
             Some p \<Rightarrow> Some p
           | None \<Rightarrow> (case List.map_filter rootfile_path tags of [] \<Rightarrow> None | p # _ \<Rightarrow> Some p)))"

fun no_doctype :: "xml_event \<Rightarrow> bool" where
  "no_doctype (EvDocType _) = False"
| "no_doctype _ = True"

lemma container_loop_choice:
  "list_all no_doctype evs
   \<Longrightarrow> container_loop first (map Inr evs) =
     ok_or NoRootfile (container_choice first (List.map_filter tag_of evs))"
proof (induction evs arbitrary: first)
  case Nil
  then show ?case by (simp add: container_choice_def map_filter_simps split: option.split)
next
  case (Cons ev evs)
  then have ev: "no_doctype ev" and IH: "\<And>first. container_loop first (map Inr evs) =
      ok_or NoRootfile (container_choice first (List.map_filter tag_of evs))" by auto
  show ?case
  proof (cases "tag_of ev")
    case None
    with ev IH show ?thesis
      by (cases ev) (simp_all add: map_filter_simps)
  next
    case (Some s)
    then have "ev = EvStart s \<or> ev = EvEmpty s" by (cases ev) auto
    then have run: "container_loop first (map Inr (ev # evs)) =
        (if st_local s = ''rootfile'' then
          let path = attribute s ''full-path''
          in if path = [] then container_loop first (map Inr evs)
             else if attribute s ''media-type'' = ''application/oebps-package+xml'' then Inr path
             else container_loop (case first of None \<Rightarrow> Some path | Some p \<Rightarrow> Some p) (map Inr evs)
        else container_loop first (map Inr evs))"
      by auto
    show ?thesis
      unfolding run IH using Some
      by (cases "attribute s ''full-path'' = []"; cases first)
        (simp_all add: container_choice_def map_filter_simps rootfile_path_def
          is_package_rootfile_def Let_def ok_or_def split: option.split)
  qed
qed

section \<open>Encryption records of a tree\<close>

text \<open>
  What an open record picks up from a node inside it: the methods and references that are not
  inside a record nested in it.
\<close>

fun gather :: "xml_node \<Rightarrow> encrypted \<Rightarrow> encrypted" where
  "gather (Elem s nodes) r =
     (if is_record (st_local s) then r else fold gather nodes (describe_record s r))"
| "gather (Void s) r = (if is_record (st_local s) then r else describe_record s r)"
| "gather (Leaf ev) r = r"

lemma gather_Leaf [simp]: "gather (Leaf ev) = (\<lambda>r. r)"
  by (rule ext) simp

fun records_of :: "xml_node \<Rightarrow> encrypted list" where
  "records_of (Elem s nodes) =
     concat (map records_of nodes)
     @ (if is_record (st_local s) then [fold gather nodes empty_encrypted] else [])"
| "records_of (Void s) = (if is_record (st_local s) then [empty_encrypted] else [])"
| "records_of (Leaf ev) = []"

fun count_tags :: "(string \<Rightarrow> bool) \<Rightarrow> xml_node \<Rightarrow> nat" where
  "count_tags p (Elem s nodes) = sum_list (map (count_tags p) nodes) + (if p (st_local s) then 1 else 0)"
| "count_tags p (Void s) = (if p (st_local s) then 1 else 0)"
| "count_tags p (Leaf ev) = 0"

lemma length_records_of: "length (records_of n) = count_tags is_record n"
proof (induction n)
  case (Elem s nodes)
  then show ?case by (simp add: length_concat comp_def cong: map_cong)
qed auto

definition on_innermost :: "(encrypted \<Rightarrow> encrypted) \<Rightarrow> encryption_state \<Rightarrow> encryption_state" where
  "on_innermost f s =
     (case es_open s of
        [] \<Rightarrow> s
      | (at, record) # rest \<Rightarrow> s\<lparr>es_open := (at, f record) # rest\<rparr>)"

definition encryption_effect :: "xml_node \<Rightarrow> encryption_state \<Rightarrow> encryption_state" where
  "encryption_effect n s = (on_innermost (gather n) s)\<lparr>es_found := es_found s @ records_of n\<rparr>"

definition open_within :: "encryption_state \<Rightarrow> bool" where
  "open_within s \<longleftrightarrow> list_all (\<lambda>(at, _). at \<le> es_depth s) (es_open s)"

lemma describe_on_innermost: "describe start s = on_innermost (describe_record start) s"
  by (simp add: describe_def on_innermost_def)

lemma on_innermost_id [simp]: "on_innermost (\<lambda>r. r) s = s"
  by (cases s) (auto simp: on_innermost_def split: list.split)

lemma on_innermost_comp: "on_innermost f (on_innermost g s) = on_innermost (\<lambda>r. f (g r)) s"
  by (auto simp: on_innermost_def split: list.split)

lemma on_innermost_fields [simp]:
  "es_depth (on_innermost f s) = es_depth s" "es_found (on_innermost f s) = es_found s"
  by (auto simp: on_innermost_def split: list.split)

lemma on_innermost_found:
  "on_innermost f (s\<lparr>es_found := x\<rparr>) = (on_innermost f s)\<lparr>es_found := x\<rparr>"
  by (auto simp: on_innermost_def split: list.split)

lemma open_within_on_innermost [simp]: "open_within (on_innermost f s) \<longleftrightarrow> open_within s"
  by (auto simp: open_within_def on_innermost_def split: list.split)

lemma open_within_found [simp]: "open_within (s\<lparr>es_found := x\<rparr>) \<longleftrightarrow> open_within s"
  by (simp add: open_within_def)

lemma fold_encryption_effect:
  "fold encryption_effect nodes s =
    (on_innermost (fold gather nodes) s)\<lparr>es_found := es_found s @ concat (map records_of nodes)\<rparr>"
proof (induction nodes arbitrary: s)
  case Nil
  then show ?case by (simp add: id_def)
next
  case (Cons n nodes)
  then show ?case
    by (simp add: encryption_effect_def on_innermost_found on_innermost_comp comp_def)
qed

lemma encryption_nodes:
  assumes "nested n" and "open_within s"
  shows "drive encryption_step s (flatten n) = Inr (encryption_effect n s)"
  using assms
proof (induction n arbitrary: s)
  case (Leaf ev)
  then show ?case
    by (cases ev) (simp_all add: encryption_step_def plain_event_def encryption_effect_def)
next
  case (Void t)
  then show ?case
    by (auto simp: encryption_step_def encryption_effect_def describe_on_innermost
        on_innermost_def split: list.split)
next
  case (Elem t nodes)
  define s1 where "s1 = s\<lparr>es_depth := es_depth s + 1\<rparr>"
  define s2 where "s2 = (if is_record (st_local t)
      then s1\<lparr>es_open := (es_depth s1, empty_encrypted) # es_open s1\<rparr> else describe t s1)"
  have start: "encryption_step s (EvStart t) = Inr s2"
    by (simp add: encryption_step_def s1_def s2_def Let_def)
  have "open_within s1" using Elem.prems(2) by (auto simp: open_within_def s1_def list_all_iff)
  then have "open_within s2" unfolding s2_def describe_on_innermost
    by (cases "is_record (st_local t)") (simp_all, simp add: open_within_def)
  then have "drive encryption_step s2 (flatten_all nodes) = Inr (fold encryption_effect nodes s2)
      \<and> open_within (fold encryption_effect nodes s2)"
    using Elem.IH Elem.prems(1)
    by (intro drive_nodes) (auto simp: list_all_iff encryption_effect_def)
  then have body: "drive encryption_step s2 (flatten_all nodes) =
      Inr ((on_innermost (fold gather nodes) s2)\<lparr>es_found := es_found s2 @ concat (map records_of nodes)\<rparr>)"
    by (simp add: fold_encryption_effect)
  have "drive encryption_step s (flatten (Elem t nodes)) =
      encryption_step ((on_innermost (fold gather nodes) s2)
        \<lparr>es_found := es_found s2 @ concat (map records_of nodes)\<rparr>) (EvEnd (st_local t))"
    by (simp add: start drive_append body)
  also have "\<dots> = Inr (encryption_effect (Elem t nodes) s)"
    using Elem.prems(2)
    by (cases "es_open s")
      (auto simp: encryption_step_def s2_def s1_def encryption_effect_def describe_on_innermost
        on_innermost_def open_within_def split: list.splits)
  finally show ?case .
qed

section \<open>The package of a tree\<close>

text \<open>The tags of a node in document order, itself included.\<close>

fun tags_of :: "xml_node \<Rightarrow> xml_start list" where
  "tags_of (Elem s nodes) = s # concat (map tags_of nodes)"
| "tags_of (Void s) = [s]"
| "tags_of (Leaf ev) = []"

definition tagged :: "string \<Rightarrow> xml_node list \<Rightarrow> xml_start list" where
  "tagged name nodes = filter (\<lambda>s. st_local s = name) (concat (map tags_of nodes))"

text \<open>
  What the package document says, read off its tree: the items of every \<open>manifest\<close> and the
  itemrefs of every \<open>spine\<close> outside another section, in document order.
\<close>

fun read_node :: "xml_node \<Rightarrow> package \<Rightarrow> package" where
  "read_node (Elem s nodes) k =
     (if st_local s = ''metadata'' then k
      else if st_local s = ''manifest''
      then k\<lparr>pk_manifest := pk_manifest k @ map item_of (tagged ''item'' nodes)\<rparr>
      else if st_local s = ''spine''
      then k\<lparr>pk_toc_idref := attribute s ''toc'',
             pk_spine := pk_spine k @ map itemref_of (tagged ''itemref'' nodes)\<rparr>
      else fold read_node nodes k)"
| "read_node (Void s) k = k"
| "read_node (Leaf ev) k = k"

text \<open>
  Its metadata, for a \<open>metadata\<close> section whose elements hold text only: the entries, and the
  refinements still to be attached.
\<close>

fun leaf_text :: "xml_node \<Rightarrow> string \<Rightarrow> string" where
  "leaf_text (Leaf (EvText t)) acc = acc @ t"
| "leaf_text (Leaf (EvCData t)) acc = acc @ t"
| "leaf_text (Leaf (EvRef r)) acc = push_ref acc r"
| "leaf_text _ acc = acc"

fun is_leaf :: "xml_node \<Rightarrow> bool" where
  "is_leaf (Leaf ev) = plain_event ev"
| "is_leaf _ = False"

fun text_only :: "xml_node \<Rightarrow> bool" where
  "text_only (Elem s nodes) = list_all is_leaf nodes"
| "text_only _ = True"

definition meta_tag :: "xml_start \<Rightarrow> string \<Rightarrow> metadata \<times> (string \<times> refinement) list
    \<Rightarrow> metadata \<times> (string \<times> refinement) list" where
  "meta_tag s txt mr =
     (if is_cover_meta s then (set_cover s (fst mr), snd mr)
      else case pending_of s of
             None \<Rightarrow> mr
           | Some pe \<Rightarrow>
               if pe_refines pe = []
               then ((fst mr)\<lparr>md_entries := md_entries (fst mr) @ [(pe_entry pe)\<lparr>me_value := txt\<rparr>]\<rparr>,
                     snd mr)
               else (fst mr, snd mr @ [(pe_refines pe,
                      \<lparr>rf_property = me_element (pe_entry pe), rf_value = txt,
                       rf_scheme = me_scheme (pe_entry pe)\<rparr>)]))"

fun meta_effect where
  "meta_effect (Elem s nodes) mr = meta_tag s (trim (fold leaf_text nodes [])) mr"
| "meta_effect (Void s) mr = meta_tag s [] mr"
| "meta_effect (Leaf ev) mr = mr"

fun read_meta where
  "read_meta (Elem s nodes) mr =
     (if st_local s = ''metadata'' then fold meta_effect nodes mr
      else if st_local s = ''manifest'' \<or> st_local s = ''spine'' then mr
      else fold read_meta nodes mr)"
| "read_meta (Void s) mr = mr"
| "read_meta (Leaf ev) mr = mr"

fun simple_meta :: "xml_node \<Rightarrow> bool" where
  "simple_meta (Elem s nodes) =
     (if st_local s = ''metadata'' then list_all text_only nodes
      else if st_local s = ''manifest'' \<or> st_local s = ''spine'' then True
      else list_all simple_meta nodes)"
| "simple_meta _ = True"

section \<open>Steps inside a section\<close>

definition sketch :: "package \<Rightarrow> package" where
  "sketch k = k\<lparr>pk_metadata := empty_metadata\<rparr>"

definition gathered :: "package_parser \<Rightarrow> metadata \<times> (string \<times> refinement) list" where
  "gathered p = (pk_metadata (pp_package p), pp_refinements p)"

text \<open>What a step inside the metadata never touches.\<close>

definition outline :: "package_parser \<Rightarrow> bool \<times> opf_section \<times> nat \<times> nat \<times> package" where
  "outline p = (pp_saw_package p, pp_section p, pp_depth p, pp_section_depth p, sketch (pp_package p))"

lemma outline_update_metadata [simp]: "outline (update_metadata f p) = outline p"
  by (simp add: outline_def update_metadata_def update_package_def sketch_def)

lemma outline_store [simp]: "outline (store pe txt p) = outline p"
  by (simp add: store_def) (simp add: outline_def)

lemma outline_collect [simp]: "outline (collect f p) = outline p"
  by (simp add: collect_def outline_def)

lemma outline_text [simp]: "outline (p\<lparr>pp_text := t\<rparr>) = outline p"
  "outline (p\<lparr>pp_collecting := c\<rparr>) = outline p"
  by (simp_all add: outline_def)

lemma outline_open_metadata [simp]: "outline (open_metadata s void p) = outline p"
  by (simp add: open_metadata_def Let_def split: option.split)

lemma collecting_simps [simp]:
  "pp_collecting (update_package g p) = pp_collecting p"
  "pp_collecting (update_metadata h p) = pp_collecting p"
  "pp_collecting (store pe txt p) = pp_collecting p"
  "pp_collecting (collect f p) = pp_collecting p"
  by (simp_all add: update_metadata_def update_package_def store_def collect_def)

text \<open>An element still being collected after a node was being collected before it.\<close>

definition kept :: "package_parser \<Rightarrow> package_parser \<Rightarrow> bool" where
  "kept p p' \<longleftrightarrow> outline p' = outline p \<and> (pp_collecting p' = None \<or> pp_collecting p' = pp_collecting p)"

lemma kept_trans: "kept p q \<Longrightarrow> kept q r \<Longrightarrow> kept p r"
  by (auto simp: kept_def)

lemma outline_eq:
  "outline p = outline q \<longleftrightarrow> pp_saw_package p = pp_saw_package q \<and> pp_section p = pp_section q
     \<and> pp_depth p = pp_depth q \<and> pp_section_depth p = pp_section_depth q
     \<and> sketch (pp_package p) = sketch (pp_package q)"
  by (simp add: outline_def)

text \<open>The end of an element below the section's own: the collection it may close, one level up.\<close>

lemma close_tag_inside:
  assumes "pp_section_depth p \<noteq> pp_depth p"
  shows "outline (close_tag local p) = outline (p\<lparr>pp_depth := pp_depth p - 1\<rparr>)"
    and "pp_collecting (close_tag local p) =
      (case pp_collecting p of
         None \<Rightarrow> None | Some pe \<Rightarrow> if pe_local pe = local then None else Some pe)"
proof -
  define q where "q = (case pp_collecting p of
      Some pe \<Rightarrow> if pe_local pe = local
        then store pe (trim (pp_text p)) (p\<lparr>pp_collecting := None, pp_text := []\<rparr>) else p
    | None \<Rightarrow> p)"
  have q: "outline q = outline p" by (simp add: q_def split: option.split)
  then have c: "close_tag local p = q\<lparr>pp_depth := pp_depth q - 1\<rparr>"
    using assms by (simp add: close_tag_def q_def [symmetric] Let_def outline_eq)
  show "outline (close_tag local p) = outline (p\<lparr>pp_depth := pp_depth p - 1\<rparr>)"
    using q by (simp add: c outline_eq)
  show "pp_collecting (close_tag local p) =
      (case pp_collecting p of
         None \<Rightarrow> None | Some pe \<Rightarrow> if pe_local pe = local then None else Some pe)"
    by (simp add: c q_def split: option.split)
qed

definition in_section :: "opf_section \<Rightarrow> package_parser \<Rightarrow> bool" where
  "in_section sect p \<longleftrightarrow>
     pp_saw_package p \<and> pp_section p = sect \<and> pp_section_depth p \<le> pp_depth p"

lemma in_section_kept: "in_section sect p \<Longrightarrow> kept p q \<Longrightarrow> in_section sect q"
  by (auto simp: in_section_def kept_def outline_eq)

lemma drive_kept:
  assumes "\<And>n p. n \<in> set nodes \<Longrightarrow> P p \<Longrightarrow>
      \<exists>p'. drive package_step p (flatten n) = Inr p' \<and> kept p p'"
    and "\<And>p q. P p \<Longrightarrow> kept p q \<Longrightarrow> P q" and "P p"
  shows "\<exists>p'. drive package_step p (flatten_all nodes) = Inr p' \<and> kept p p'"
  using assms
proof (induction nodes arbitrary: p)
  case Nil
  then show ?case by (simp add: kept_def)
next
  case (Cons n nodes)
  from Cons.prems(1) [of n p] Cons.prems(3) obtain q
    where q: "drive package_step p (flatten n) = Inr q" "kept p q" by auto
  have "\<exists>p'. drive package_step q (flatten_all nodes) = Inr p' \<and> kept q p'"
    using Cons.prems(1) Cons.prems(2) Cons.prems(2) [OF Cons.prems(3) q(2)]
    by (intro Cons.IH) auto
  with q show ?case by (auto simp: drive_append intro: kept_trans)
qed

text \<open>Anything nested inside the metadata leaves the parser in it, and the rest of the package alone.\<close>

lemma metadata_node:
  assumes "nested n" and "in_section Metadata p"
  shows "\<exists>p'. drive package_step p (flatten n) = Inr p' \<and> kept p p'"
  using assms
proof (induction n arbitrary: p)
  case (Leaf ev)
  then show ?case
    by (cases ev) (auto simp: package_step_def plain_event_def kept_def)
next
  case (Void t)
  have "pp_collecting (open_metadata t True p) = pp_collecting p"
    by (simp add: open_metadata_def Let_def split: option.split)
  with Void show ?case
    by (auto simp: package_step_def open_tag_def in_section_def kept_def)
next
  case (Elem t nodes)
  define p1 where "p1 = open_metadata t False (p\<lparr>pp_depth := pp_depth p + 1\<rparr>)"
  have start: "package_step p (EvStart t) = Inr p1"
    using Elem.prems(2) by (simp add: package_step_def open_tag_def p1_def in_section_def)
  have o1: "outline p1 = outline (p\<lparr>pp_depth := pp_depth p + 1\<rparr>)" by (simp add: p1_def)
  then have in1: "in_section Metadata p1" "pp_section_depth p1 \<noteq> pp_depth p1"
    using Elem.prems(2) by (auto simp: in_section_def outline_eq)
  have c1: "pp_collecting p1 = pp_collecting p
      \<or> (\<exists>pe. pp_collecting p1 = Some pe \<and> pe_local pe = st_local t)"
    by (auto simp: p1_def open_metadata_def pending_of_def Let_def split: option.split)
  have "\<exists>p2. drive package_step p1 (flatten_all nodes) = Inr p2 \<and> kept p1 p2"
  proof (rule drive_kept [where P = "in_section Metadata"])
    show "\<exists>p'. drive package_step p (flatten n) = Inr p' \<and> kept p p'"
      if "n \<in> set nodes" "in_section Metadata p" for n p
      using Elem.IH [OF that(1) _ that(2)] Elem.prems(1) that(1) by (simp add: list_all_iff)
  qed (use in1(1) in_section_kept in auto)
  then obtain p2 where p2: "drive package_step p1 (flatten_all nodes) = Inr p2" "kept p1 p2" by blast
  have "pp_section_depth p2 \<noteq> pp_depth p2"
    using p2(2) in1(2) by (auto simp: kept_def outline_eq)
  note end_facts = close_tag_inside [OF this, of "st_local t"]
  have "outline (p2\<lparr>pp_depth := pp_depth p2 - 1\<rparr>) = outline p"
    using p2(2) o1 by (auto simp: kept_def outline_eq)
  then have "kept p (close_tag (st_local t) p2)"
    using end_facts p2(2) c1 by (auto simp: kept_def split: option.split)
  then show ?case
    using start p2(1) by (simp add: drive_append) (simp add: package_step_def)
qed

text \<open>The manifest and the spine list their tags, however nested.\<close>

definition section_add :: "opf_section \<Rightarrow> xml_start \<Rightarrow> package \<Rightarrow> package" where
  "section_add sect s k =
     (if sect = Manifest \<and> st_local s = ''item'' then k\<lparr>pk_manifest := pk_manifest k @ [item_of s]\<rparr>
      else if sect = Spine \<and> st_local s = ''itemref'' then k\<lparr>pk_spine := pk_spine k @ [itemref_of s]\<rparr>
      else k)"

abbreviation listing :: "opf_section \<Rightarrow> package_parser \<Rightarrow> bool" where
  "listing sect p \<equiv> in_section sect p \<and> pp_collecting p = None"

definition list_tags :: "opf_section \<Rightarrow> xml_start list \<Rightarrow> package_parser \<Rightarrow> package_parser" where
  "list_tags sect tags = update_package (fold (section_add sect) tags)"

lemma update_package_simps [simp]:
  "pp_depth (update_package f p) = pp_depth p"
  "pp_section_depth (update_package f p) = pp_section_depth p"
  "pp_section (update_package f p) = pp_section p"
  "pp_saw_package (update_package f p) = pp_saw_package p"
  "pp_package (update_package f p) = f (pp_package p)"
  "pp_refinements (update_package f p) = pp_refinements p"
  by (simp_all add: update_package_def)

lemma fold_list_tags:
  "fold (\<lambda>n. list_tags sect (tags_of n)) nodes p = list_tags sect (concat (map tags_of nodes)) p"
  by (induction nodes arbitrary: p) (simp_all add: list_tags_def update_package_def)

lemma listing_list_tags [simp]: "listing sect (list_tags sect' tags p) \<longleftrightarrow> listing sect p"
  by (simp add: in_section_def list_tags_def)

lemma close_tag_plain:
  "pp_collecting p = None \<Longrightarrow> pp_section_depth p \<noteq> pp_depth p
   \<Longrightarrow> close_tag local p = p\<lparr>pp_depth := pp_depth p - 1\<rparr>"
  by (simp add: close_tag_def Let_def)

lemma open_tag_listing:
  assumes "in_section sect p" and "sect = Manifest \<or> sect = Spine"
  shows "open_tag s void p =
    Inr (list_tags sect [s] (if void then p else p\<lparr>pp_depth := pp_depth p + 1\<rparr>))"
  using assms(2,1)
  by (elim disjE)
    (simp_all add: open_tag_def in_section_def list_tags_def section_add_def Let_def update_package_def)

lemma listing_node:
  assumes "nested n" and "listing sect p" and "sect = Manifest \<or> sect = Spine"
  shows "drive package_step p (flatten n) = Inr (list_tags sect (tags_of n) p)"
  using assms(1,2)
proof (induction n arbitrary: p)
  case (Leaf ev)
  then show ?case
    by (cases ev)
      (simp_all add: package_step_def plain_event_def collect_def list_tags_def update_package_def)
next
  case (Void t)
  then show ?case
    using open_tag_listing [OF _ assms(3), of p t True] by (simp add: package_step_def)
next
  case (Elem t nodes)
  define p1 where "p1 = list_tags sect [t] (p\<lparr>pp_depth := pp_depth p + 1\<rparr>)"
  have start: "package_step p (EvStart t) = Inr p1"
    using Elem.prems(2) open_tag_listing [OF _ assms(3), of p t False]
    by (simp add: package_step_def p1_def)
  have in1: "listing sect p1" "pp_section_depth p1 \<noteq> pp_depth p1"
    using Elem.prems(2) by (auto simp: p1_def list_tags_def in_section_def)
  have "drive package_step p1 (flatten_all nodes) =
      Inr (fold (\<lambda>n. list_tags sect (tags_of n)) nodes p1)
      \<and> listing sect (fold (\<lambda>n. list_tags sect (tags_of n)) nodes p1)"
  proof (rule drive_nodes [where P = "listing sect"])
    show "drive package_step s (flatten n) = Inr (list_tags sect (tags_of n) s)
        \<and> listing sect (list_tags sect (tags_of n) s)"
      if "n \<in> set nodes" "listing sect s" for n s
      using Elem.IH [OF that(1) _ that(2)] Elem.prems(1) that by (simp add: list_all_iff)
  qed (rule in1(1))
  then have body: "drive package_step p1 (flatten_all nodes) =
      Inr (list_tags sect (concat (map tags_of nodes)) p1)"
    by (simp add: fold_list_tags)
  have "close_tag (st_local t) (list_tags sect (concat (map tags_of nodes)) p1) =
      list_tags sect (tags_of (Elem t nodes)) p"
    using in1 by (subst close_tag_plain)
      (simp_all add: p1_def list_tags_def update_package_def)
  then show ?case
    using start body by (simp add: drive_append) (simp add: package_step_def)
qed

text \<open>An element of the metadata that holds text only is filed with that text.\<close>

lemma leaf_texts:
  "list_all is_leaf nodes
   \<Longrightarrow> drive package_step p (flatten_all nodes) = Inr (collect (fold leaf_text nodes) p)"
proof (induction nodes arbitrary: p)
  case Nil
  then show ?case by (simp add: collect_def)
next
  case (Cons n nodes)
  then obtain ev where n: "n = Leaf ev" and plain: "plain_event ev" by (cases n) auto
  have "drive package_step p (flatten n) = Inr (collect (leaf_text n) p)"
    using plain by (cases ev) (simp_all add: n package_step_def plain_event_def collect_def)
  moreover have "collect (fold leaf_text nodes) (collect (leaf_text n) p) =
      collect (fold leaf_text (n # nodes)) p"
    by (simp add: collect_def)
  ultimately show ?case using Cons by (simp add: drive_append comp_def)
qed

lemma gathered_store:
  "gathered (store pe txt p) =
     (if pe_refines pe = []
      then ((fst (gathered p))\<lparr>md_entries := md_entries (fst (gathered p))
              @ [(pe_entry pe)\<lparr>me_value := txt\<rparr>]\<rparr>, snd (gathered p))
      else (fst (gathered p), snd (gathered p) @ [(pe_refines pe,
              \<lparr>rf_property = me_element (pe_entry pe), rf_value = txt,
               rf_scheme = me_scheme (pe_entry pe)\<rparr>)]))"
  by (simp add: store_def gathered_def update_metadata_def update_package_def)

lemma gathered_simps [simp]:
  "gathered (p\<lparr>pp_text := t\<rparr>) = gathered p" "gathered (p\<lparr>pp_collecting := c\<rparr>) = gathered p"
  "gathered (p\<lparr>pp_depth := d\<rparr>) = gathered p" "gathered (p\<lparr>pp_section := s\<rparr>) = gathered p"
  "gathered (collect f p) = gathered p"
  by (simp_all add: gathered_def collect_def)

lemma gathered_cover: "gathered (update_metadata f p) = (f (fst (gathered p)), snd (gathered p))"
  by (simp add: gathered_def update_metadata_def update_package_def)

lemma gathered_close:
  "gathered (close_tag local p) =
     gathered (case pp_collecting p of
       Some pe \<Rightarrow> if pe_local pe = local then store pe (trim (pp_text p)) p else p
     | None \<Rightarrow> p)"
  by (simp add: close_tag_def Let_def gathered_store split: option.split)

lemma metadata_simple_node:
  assumes "nested n" and "text_only n" and "listing Metadata p"
  shows "\<exists>p'. drive package_step p (flatten n) = Inr p' \<and> kept p p'
    \<and> gathered p' = meta_effect n (gathered p)"
proof -
  from metadata_node [OF assms(1)] assms(3) obtain p'
    where p': "drive package_step p (flatten n) = Inr p'" "kept p p'" by blast
  have "gathered p' = meta_effect n (gathered p)"
  proof (cases n)
    case (Leaf ev)
    with p'(1) assms(1,3) show ?thesis
      by (cases ev) (auto simp: package_step_def plain_event_def)
  next
    case (Void t)
    have "p' = open_metadata t True p"
      using p'(1) assms(3) by (simp add: Void package_step_def open_tag_def in_section_def)
    then show ?thesis
      by (simp add: Void open_metadata_def meta_tag_def gathered_store gathered_cover Let_def
          split: option.split)
  next
    case (Elem t nodes)
    define p1 where "p1 = open_metadata t False (p\<lparr>pp_depth := pp_depth p + 1\<rparr>)"
    have start: "package_step p (EvStart t) = Inr p1"
      using assms(3) by (simp add: package_step_def open_tag_def p1_def in_section_def)
    have body: "drive package_step p1 (flatten_all nodes) = Inr (collect (fold leaf_text nodes) p1)"
      using assms(2) Elem by (intro leaf_texts) simp
    have p'_eq: "p' = close_tag (st_local t) (collect (fold leaf_text nodes) p1)"
      using p'(1) start body by (simp add: Elem drive_append package_step_def)
    have pl: "pending_of t = Some pe \<Longrightarrow> pe_local pe = st_local t" for pe
      by (auto simp: pending_of_def Let_def split: if_splits)
    show ?thesis
      using assms(3) pl unfolding p'_eq gathered_close
      by (auto simp: Elem p1_def open_metadata_def meta_tag_def gathered_store gathered_cover
          Let_def collect_def split: option.split)
  qed
  with p' show ?thesis by blast
qed

section \<open>The whole document\<close>

text \<open>
  What the parser does with a node outside every section, seen from the package: the sketch of the
  package becomes what the tree reading makes of it, and, where the metadata is simple, so do the
  metadata and the refinements.
\<close>

definition between :: "package_parser \<Rightarrow> bool" where
  "between p \<longleftrightarrow> pp_saw_package p \<and> pp_section p = Outside \<and> pp_collecting p = None"

definition reads :: "xml_node \<Rightarrow> package_parser \<Rightarrow> package_parser \<Rightarrow> bool" where
  "reads n p p' \<longleftrightarrow> between p' \<and> pp_depth p' = pp_depth p
     \<and> sketch (pp_package p') = read_node n (sketch (pp_package p))
     \<and> (simple_meta n \<longrightarrow> gathered p' = read_meta n (gathered p))"

lemma drive_reads:
  assumes "\<And>n p. n \<in> set nodes \<Longrightarrow> between p \<Longrightarrow>
      \<exists>p'. drive package_step p (flatten n) = Inr p' \<and> reads n p p'"
    and "between p"
  shows "\<exists>p'. drive package_step p (flatten_all nodes) = Inr p' \<and> between p'
    \<and> pp_depth p' = pp_depth p
    \<and> sketch (pp_package p') = fold read_node nodes (sketch (pp_package p))
    \<and> (list_all simple_meta nodes \<longrightarrow> gathered p' = fold read_meta nodes (gathered p))"
  using assms
proof (induction nodes arbitrary: p)
  case Nil
  then show ?case by simp
next
  case (Cons n nodes)
  from Cons.prems(1) [of n p] Cons.prems(2) obtain q
    where q: "drive package_step p (flatten n) = Inr q" "reads n p q" by auto
  have "\<exists>p'. drive package_step q (flatten_all nodes) = Inr p' \<and> between p'
    \<and> pp_depth p' = pp_depth q
    \<and> sketch (pp_package p') = fold read_node nodes (sketch (pp_package q))
    \<and> (list_all simple_meta nodes \<longrightarrow> gathered p' = fold read_meta nodes (gathered q))"
    using Cons.prems(1) q(2) by (intro Cons.IH) (auto simp: reads_def)
  with q show ?case by (auto simp: drive_append reads_def)
qed

lemma metadata_simple_nodes:
  assumes "list_all nested nodes" and "list_all text_only nodes" and "listing Metadata p"
  shows "\<exists>p'. drive package_step p (flatten_all nodes) = Inr p' \<and> kept p p'
    \<and> gathered p' = fold meta_effect nodes (gathered p)"
  using assms
proof (induction nodes arbitrary: p)
  case Nil
  then show ?case by (simp add: kept_def)
next
  case (Cons n nodes)
  from metadata_simple_node [of n p] Cons.prems obtain q
    where q: "drive package_step p (flatten n) = Inr q" "kept p q"
      "gathered q = meta_effect n (gathered p)" by auto
  have "listing Metadata q"
    using in_section_kept [OF _ q(2)] Cons.prems(3) q(2) by (auto simp: kept_def)
  with Cons.IH [of q] Cons.prems q show ?case by (auto simp: drive_append intro: kept_trans)
qed

lemma close_section:
  assumes "pp_section p = sect" "sect \<noteq> Outside" "pp_section_depth p = pp_depth p" "pp_collecting p = None"
  shows "close_tag local p = p\<lparr>pp_section := Outside, pp_depth := pp_depth p - 1\<rparr>"
  using assms by (simp add: close_tag_def Let_def)

lemma sketch_simps [simp]:
  "sketch (k\<lparr>pk_manifest := x\<rparr>) = (sketch k)\<lparr>pk_manifest := x\<rparr>"
  "sketch (k\<lparr>pk_spine := y\<rparr>) = (sketch k)\<lparr>pk_spine := y\<rparr>"
  "sketch (k\<lparr>pk_toc_idref := z\<rparr>) = (sketch k)\<lparr>pk_toc_idref := z\<rparr>"
  "pk_manifest (sketch k) = pk_manifest k" "pk_spine (sketch k) = pk_spine k"
  by (simp_all add: sketch_def)

lemma fold_section_add_Manifest:
  "fold (section_add Manifest) tags k =
    k\<lparr>pk_manifest := pk_manifest k @ map item_of (filter (\<lambda>s. st_local s = ''item'') tags)\<rparr>"
  by (induction tags arbitrary: k) (auto simp: section_add_def)

lemma fold_section_add_Spine:
  "fold (section_add Spine) tags k =
    k\<lparr>pk_spine := pk_spine k @ map itemref_of (filter (\<lambda>s. st_local s = ''itemref'') tags)\<rparr>"
  by (induction tags arbitrary: k) (auto simp: section_add_def)

lemma section_nodes:
  assumes "list_all nested nodes" and "listing sect p" and "sect = Manifest \<or> sect = Spine"
  shows "drive package_step p (flatten_all nodes) =
    Inr (list_tags sect (concat (map tags_of nodes)) p)"
proof -
  have "drive package_step p (flatten_all nodes) =
      Inr (fold (\<lambda>n. list_tags sect (tags_of n)) nodes p)
      \<and> listing sect (fold (\<lambda>n. list_tags sect (tags_of n)) nodes p)"
  proof (rule drive_nodes [where P = "listing sect"])
    show "drive package_step s (flatten n) = Inr (list_tags sect (tags_of n) s)
        \<and> listing sect (list_tags sect (tags_of n) s)"
      if "n \<in> set nodes" "listing sect s" for n s
      using listing_node [OF _ that(2) assms(3), of n] assms(1) that by (simp add: list_all_iff)
  qed (rule assms(2))
  then show ?thesis by (simp add: fold_list_tags)
qed

text \<open>The three sections, from their start tag to their end tag.\<close>

lemma metadata_section:
  assumes "between p" and "list_all nested nodes" and "st_local t = ''metadata''"
  shows "\<exists>p'. drive package_step p (flatten (Elem t nodes)) = Inr p' \<and> reads (Elem t nodes) p p'"
proof -
  define p1 where "p1 = enter Metadata (p\<lparr>pp_depth := pp_depth p + 1\<rparr>)"
  have start: "package_step p (EvStart t) = Inr p1"
    using assms(1,3) by (simp add: package_step_def open_tag_def between_def p1_def)
  have in1: "listing Metadata p1" "pp_section_depth p1 = pp_depth p1"
    using assms(1) by (simp_all add: p1_def enter_def in_section_def between_def)
  have "\<exists>p2. drive package_step p1 (flatten_all nodes) = Inr p2 \<and> kept p1 p2"
  proof (rule drive_kept [where P = "in_section Metadata"])
    show "\<exists>p'. drive package_step p (flatten n) = Inr p' \<and> kept p p'"
      if "n \<in> set nodes" "in_section Metadata p" for n p
      using metadata_node [OF _ that(2), of n] assms(2) that(1) by (simp add: list_all_iff)
  qed (use in1(1) in_section_kept in auto)
  then obtain p2 where p2: "drive package_step p1 (flatten_all nodes) = Inr p2" "kept p1 p2" by blast
  have simple: "gathered p2 = fold meta_effect nodes (gathered p)" if "list_all text_only nodes"
    using metadata_simple_nodes [OF assms(2) that in1(1)] p2(1) by (auto simp: p1_def enter_def gathered_def)
  define p3 where "p3 = p2\<lparr>pp_section := Outside, pp_depth := pp_depth p2 - 1\<rparr>"
  have p3: "close_tag (st_local t) p2 = p3"
    unfolding p3_def
    using p2(2) in1 by (intro close_section) (auto simp: kept_def outline_eq in_section_def)
  have "reads (Elem t nodes) p p3"
    using p2(2) in1 assms(1,3) simple
    by (auto simp: reads_def between_def p3_def kept_def outline_eq p1_def enter_def)
  moreover have "drive package_step p (flatten (Elem t nodes)) = Inr p3"
    using start p2(1) p3 by (simp add: drive_append) (simp add: package_step_def)
  ultimately show ?thesis by blast
qed

lemma listing_section:
  assumes "between p" and "list_all nested nodes" and "st_local t = ''manifest'' \<or> st_local t = ''spine''"
  shows "\<exists>p'. drive package_step p (flatten (Elem t nodes)) = Inr p' \<and> reads (Elem t nodes) p p'"
proof -
  define sect where "sect = (if st_local t = ''manifest'' then Manifest else Spine)"
  have sect: "sect = Manifest \<or> sect = Spine" "sect \<noteq> Outside" by (auto simp: sect_def)
  define p1 where "p1 = enter sect (update_package
      (if sect = Spine then (\<lambda>k. k\<lparr>pk_toc_idref := attribute t ''toc''\<rparr>) else id)
      (p\<lparr>pp_depth := pp_depth p + 1\<rparr>))"
  have start: "package_step p (EvStart t) = Inr p1"
    using assms(1,3)
    by (auto simp: package_step_def open_tag_def between_def p1_def sect_def update_package_def)
  have in1: "listing sect p1" "pp_section_depth p1 = pp_depth p1"
    using assms(1) by (simp_all add: p1_def enter_def in_section_def between_def)
  define p2 where "p2 = list_tags sect (concat (map tags_of nodes)) p1"
  have p2: "drive package_step p1 (flatten_all nodes) = Inr p2"
    unfolding p2_def by (rule section_nodes [OF assms(2) in1(1) sect(1)])
  define p3 where "p3 = p2\<lparr>pp_section := Outside, pp_depth := pp_depth p2 - 1\<rparr>"
  have p3: "close_tag (st_local t) p2 = p3"
    unfolding p3_def using in1 sect(2)
    by (intro close_section [of _ sect]) (simp_all add: p2_def list_tags_def in_section_def)
  have "reads (Elem t nodes) p p3"
    using assms(1,3)
    by (auto simp: reads_def between_def p3_def p2_def p1_def sect_def list_tags_def enter_def
        fold_section_add_Manifest fold_section_add_Spine tagged_def gathered_def)
  moreover have "drive package_step p (flatten (Elem t nodes)) = Inr p3"
    using start p2 p3 by (simp add: drive_append) (simp add: package_step_def)
  ultimately show ?thesis by blast
qed

lemma outside_node:
  assumes "nested n" and "between p"
  shows "\<exists>p'. drive package_step p (flatten n) = Inr p' \<and> reads n p p'"
  using assms
proof (induction n arbitrary: p)
  case (Leaf ev)
  then show ?case
    by (cases ev) (simp_all add: package_step_def plain_event_def reads_def between_def collect_def)
next
  case (Void t)
  then show ?case by (simp add: package_step_def open_tag_def reads_def between_def)
next
  case (Elem t nodes)
  have nodes: "list_all nested nodes" using Elem.prems(1) by simp
  consider "st_local t = ''metadata''" | "st_local t = ''manifest'' \<or> st_local t = ''spine''"
    | "st_local t \<notin> {''metadata'', ''manifest'', ''spine''}" by auto
  then show ?case
  proof cases
    case 1
    then show ?thesis by (rule metadata_section [OF Elem.prems(2) nodes])
  next
    case 2
    then show ?thesis by (rule listing_section [OF Elem.prems(2) nodes])
  next
    case 3
    define p1 where "p1 = p\<lparr>pp_depth := pp_depth p + 1\<rparr>"
    have start: "package_step p (EvStart t) = Inr p1"
      using 3 Elem.prems(2) by (simp add: package_step_def open_tag_def between_def p1_def)
    have "between p1" using Elem.prems(2) by (simp add: p1_def between_def)
    then obtain p2 where p2: "drive package_step p1 (flatten_all nodes) = Inr p2" "between p2"
      "pp_depth p2 = pp_depth p1"
      "sketch (pp_package p2) = fold read_node nodes (sketch (pp_package p1))"
      "list_all simple_meta nodes \<longrightarrow> gathered p2 = fold read_meta nodes (gathered p1)"
      using drive_reads [of nodes p1] Elem.IH nodes by (auto simp: list_all_iff)
    have "close_tag (st_local t) p2 = p2\<lparr>pp_depth := pp_depth p2 - 1\<rparr>"
      using p2(2) by (simp add: close_tag_def Let_def between_def)
    moreover have "reads (Elem t nodes) p (p2\<lparr>pp_depth := pp_depth p2 - 1\<rparr>)"
      using 3 p2(2-5) by (auto simp: reads_def between_def p1_def)
    ultimately show ?thesis
      using start p2(1) by (simp add: drive_append) (simp add: package_step_def)
  qed
qed

section \<open>Attaching refinements\<close>

text \<open>
  The refinements as they end up: each entry that is the first with its id takes, after its own,
  those that name the id, in document order.
\<close>

fun attached :: "string list \<Rightarrow> (string \<times> refinement) list \<Rightarrow> meta_entry list \<Rightarrow> meta_entry list" where
  "attached seen trs [] = []"
| "attached seen trs (e # es) =
     (if me_id e \<in> set seen then e
      else e\<lparr>me_refinements := me_refinements e
              @ map snd (filter (\<lambda>tr. fst tr = me_id e) trs)\<rparr>)
     # attached (me_id e # seen) trs es"

lemma attached_none: "\<forall>tr\<in>set trs. fst tr \<in> set seen \<Longrightarrow> attached seen trs es = es"
proof (induction es arbitrary: seen)
  case (Cons e es)
  have "filter (\<lambda>tr. fst tr = me_id e) trs = []" if "me_id e \<notin> set seen"
    using Cons.prems that by (auto simp: filter_empty_conv)
  with Cons show ?case by simp
qed simp

lemma attached_Nil [simp]: "attached seen [] es = es"
  by (rule attached_none) simp

lemma attach_refinement_attached:
  "fst tr \<notin> set seen \<Longrightarrow> attach_refinement tr es = attached seen [tr] es"
proof (induction es arbitrary: seen)
  case (Cons e es)
  show ?case
  proof (cases "me_id e = fst tr")
    case True
    with Cons.prems show ?thesis by (simp add: attached_none)
  next
    case False
    with Cons.prems Cons.IH [of "me_id e # seen"] show ?thesis by auto
  qed
qed simp

lemma attached_twice: "attached seen trs (attached seen [tr] es) = attached seen (tr # trs) es"
  by (induction es arbitrary: seen) auto

lemma fold_attach_refinement: "fold attach_refinement trs es = attached [] trs es"
proof (induction trs arbitrary: es)
  case (Cons tr trs)
  then show ?case using attach_refinement_attached [of tr "[]" es] attached_twice by simp
qed simp

lemma read_node_spine:
  "pk_spine k = pk_spine k' \<Longrightarrow> pk_spine (read_node n k) = pk_spine (read_node n k')"
proof (induction n arbitrary: k k')
  case (Elem s nodes)
  have "pk_spine (fold read_node ns k) = pk_spine (fold read_node ns k')"
    if "set ns \<subseteq> set nodes" "pk_spine k = pk_spine k'" for ns k k'
    using that
  proof (induction ns arbitrary: k k')
    case (Cons n ns)
    have "pk_spine (read_node n k) = pk_spine (read_node n k')"
      using Cons.prems by (intro Elem.IH) auto
    from Cons.IH [OF _ this] Cons.prems(1) show ?case by simp
  qed simp
  from this [OF subset_refl Elem.prems] Elem.prems show ?case by simp
qed simp_all

lemma read_nodes_spine:
  "pk_spine k = pk_spine k' \<Longrightarrow> pk_spine (fold read_node nodes k) = pk_spine (fold read_node nodes k')"
proof (induction nodes arbitrary: k k')
  case (Cons n nodes)
  from Cons.IH [OF read_node_spine [OF Cons.prems]] show ?case by simp
qed simp

lemma package_document:
  assumes "reader reader_settings bytes = flatten_all prolog @ flatten (Elem root nodes) @ flatten_all epilog"
    and "list_all is_leaf prolog" and "list_all is_leaf epilog"
    and "st_local root = ''package''" and "list_all nested nodes"
  shows "\<exists>p. drive package_step new_parser (reader reader_settings bytes) = Inr p \<and> pp_saw_package p
    \<and> sketch (pp_package p) = fold read_node nodes (empty_package\<lparr>pk_version := attribute root ''version'',
               pk_unique_identifier_id := attribute root ''unique-identifier''\<rparr>)
    \<and> (list_all simple_meta nodes
         \<longrightarrow> gathered p = fold read_meta nodes (empty_metadata, []))"
proof -
  let ?k = "empty_package\<lparr>pk_version := attribute root ''version'',
               pk_unique_identifier_id := attribute root ''unique-identifier''\<rparr>"
  define p1 where "p1 = new_parser\<lparr>pp_depth := 1, pp_saw_package := True, pp_package := ?k\<rparr>"
  have prolog: "drive package_step new_parser (flatten_all prolog) = Inr new_parser"
    using leaf_texts [OF assms(2), of new_parser] by (simp add: collect_def new_parser_def)
  have start: "package_step new_parser (EvStart root) = Inr p1"
    using assms(4)
    by (simp add: package_step_def open_tag_def new_parser_def p1_def update_package_def Let_def)
  have "between p1" by (simp add: p1_def between_def new_parser_def)
  then obtain p2 where p2: "drive package_step p1 (flatten_all nodes) = Inr p2" "between p2"
      "sketch (pp_package p2) = fold read_node nodes (sketch (pp_package p1))"
      "list_all simple_meta nodes \<longrightarrow> gathered p2 = fold read_meta nodes (gathered p1)"
    using drive_reads [of nodes p1] outside_node assms(5) by (auto simp: list_all_iff)
  define p3 where "p3 = p2\<lparr>pp_depth := pp_depth p2 - 1\<rparr>"
  have p3: "close_tag (st_local root) p2 = p3"
    using p2(2) by (simp add: close_tag_def Let_def between_def p3_def)
  have epilog: "drive package_step p3 (flatten_all epilog) = Inr p3"
    using leaf_texts [OF assms(3), of p3] p2(2) by (simp add: collect_def p3_def between_def)
  have "drive package_step new_parser (reader reader_settings bytes) = Inr p3"
    using prolog start p2(1) p3 epilog
    by (simp add: assms(1) drive_append) (simp add: package_step_def)
  moreover have "sketch (pp_package p1) = ?k" "gathered p1 = (empty_metadata, [])"
    by (simp_all add: p1_def new_parser_def sketch_def empty_package_def gathered_def)
  ultimately show ?thesis using p2(2-4) by (auto simp: p3_def between_def)
qed

section \<open>Properties\<close>

text \<open>
  The container names the path of its first rootfile with the package media type,
  or of its first rootfile when none has it; rootfiles that name no path do not count.
\<close>

theorem parse_container_choice:
  assumes "reader reader_settings bytes = map Inr evs" and "list_all no_doctype evs"
  shows "parse_container reader bytes =
    ok_or NoRootfile (container_choice None (List.map_filter tag_of evs))"
  using container_loop_choice [OF assms(2), of None] by (simp add: parse_container_def assms(1))

definition plain_attr :: "string \<Rightarrow> string \<Rightarrow> string + xml_attr" where
  "plain_attr k v = Inr \<lparr>at_key = k, at_local = k, at_raw = v, at_normalized = Some v\<rparr>"

theorem parse_container_choice_witness:
  "parse_container (\<lambda>_ _. map Inr
      [EvOther,
       EvEmpty \<lparr>st_local = ''rootfile'', st_attributes = [plain_attr ''full-path'' ''alt.opf'']\<rparr>,
       EvEmpty \<lparr>st_local = ''rootfile'', st_attributes = [plain_attr ''full-path'' ''book.opf'',
                 plain_attr ''media-type'' ''application/oebps-package+xml'']\<rparr>]) [] = Inr ''book.opf''"
proof -
  let ?evs = "[EvOther,
       EvEmpty \<lparr>st_local = ''rootfile'', st_attributes = [plain_attr ''full-path'' ''alt.opf'']\<rparr>,
       EvEmpty \<lparr>st_local = ''rootfile'', st_attributes = [plain_attr ''full-path'' ''book.opf'',
                 plain_attr ''media-type'' ''application/oebps-package+xml'']\<rparr>]"
  have nd: "list_all no_doctype ?evs" by simp
  have choice: "container_choice None (List.map_filter tag_of ?evs) = Some ''book.opf''" by code_simp
  show ?thesis
    using parse_container_choice
      [where reader = "\<lambda>_ _. map Inr ?evs" and bytes = "[]" and evs = ?evs, OF refl nd] choice
    by (simp add: ok_or_def)
qed

text \<open>
  Property C21.  A document type that declares an entity ends every reader with that refusal,
  whatever the document holds after it, broken or not.
\<close>

theorem entity_declarations_refused:
  assumes "reader reader_settings bytes =
      flatten_all prolog @ Inr (EvDocType dtd) # rest"
    and "list_all is_leaf prolog" and "contains_str ''!ENTITY'' (to_ascii_uppercase dtd)"
  shows "parse_container reader bytes = Inl EntityDeclaration
    \<and> parse_encryption reader bytes = Inl EntityDeclaration
    \<and> parse_package reader bytes = Inl EntityDeclaration"
proof (intro conjI)
  have dt: "check_doctype dtd = Inl EntityDeclaration" using assms(3) by (simp add: check_doctype_iff)
  have leaf: "\<exists>ev. n = Leaf ev \<and> plain_event ev" if "n \<in> set prolog" for n
    using assms(2) that by (cases n) (auto simp: list_all_iff)
  have "container_loop first (flatten_all nodes @ Inr (EvDocType dtd) # rest) = Inl EntityDeclaration"
    if "list_all is_leaf nodes" for first nodes
    using that
  proof (induction nodes)
    case (Cons n nodes)
    then obtain ev where "n = Leaf ev" "plain_event ev" by (cases n) auto
    with Cons show ?case by (cases ev) (simp_all add: plain_event_def)
  qed (simp add: dt)
  then show "parse_container reader bytes = Inl EntityDeclaration"
    using assms(1,2) by (simp add: parse_container_def)
  have "drive encryption_step s (flatten_all nodes @ Inr (EvDocType dtd) # rest) = Inl EntityDeclaration"
    if "list_all is_leaf nodes" for s nodes
    using that
  proof (induction nodes)
    case (Cons n nodes)
    then obtain ev where "n = Leaf ev" "plain_event ev" by (cases n) auto
    with Cons show ?case by (cases ev) (simp_all add: plain_event_def encryption_step_def)
  qed (simp add: dt encryption_step_def)
  then show "parse_encryption reader bytes = Inl EntityDeclaration"
    using assms(1,2) by (simp add: parse_encryption_def)
  show "parse_package reader bytes = Inl EntityDeclaration"
    using assms(1) leaf_texts [OF assms(2)]
    by (simp add: parse_package_def drive_append package_step_def dt)
qed

theorem entity_declarations_refused_witness:
  "parse_package (\<lambda>_ _. [Inr EvOther, Inr (EvDocType ''x [<!entity a SYSTEM b>]''), Inl ''broken'']) []
   = Inl EntityDeclaration"
proof -
  have d: "contains_str ''!ENTITY'' (to_ascii_uppercase ''x [<!entity a SYSTEM b>]'')" by code_simp
  show ?thesis
    using entity_declarations_refused [OF _ _ d,
        of "\<lambda>_ _. [Inr EvOther, Inr (EvDocType ''x [<!entity a SYSTEM b>]''), Inl ''broken'']" "[]"
           "[Leaf EvOther]" "[Inl ''broken'']"]
    by (simp add: plain_event_def)
qed

text \<open>
  \<open>encryption.xml\<close>, read as a tree: every \<open>EncryptedData\<close> and \<open>EncryptedKey\<close>, nested
  or not, is one record, with the first method and reference inside it that are not inside a record
  of its own.  None is lost, so a key wrapped in the data it unlocks is seen.
\<close>

theorem parse_encryption_reads_tree:
  assumes "reader reader_settings bytes = flatten_all nodes" and "list_all nested nodes"
  shows "parse_encryption reader bytes = Inr (concat (map records_of nodes))
    \<and> length (concat (map records_of nodes)) = sum_list (map (count_tags is_record) nodes)"
proof
  let ?s = "\<lparr>es_open = [], es_found = [], es_depth = 0\<rparr>"
  have "drive encryption_step ?s (flatten_all nodes) = Inr (fold encryption_effect nodes ?s)
      \<and> open_within (fold encryption_effect nodes ?s)"
  proof (rule drive_nodes [where P = open_within])
    show "drive encryption_step s (flatten n) = Inr (encryption_effect n s)
        \<and> open_within (encryption_effect n s)"
      if "n \<in> set nodes" "open_within s" for n s
      using encryption_nodes [OF _ that(2), of n] assms(2) that
      by (simp add: list_all_iff encryption_effect_def)
  qed (simp add: open_within_def)
  then show "parse_encryption reader bytes = Inr (concat (map records_of nodes))"
    by (simp add: parse_encryption_def assms(1) fold_encryption_effect)
  show "length (concat (map records_of nodes)) = sum_list (map (count_tags is_record) nodes)"
    by (simp add: length_concat comp_def length_records_of)
qed

theorem parse_encryption_reads_tree_witness:
  "map en_uri (projr (parse_encryption (\<lambda>_ _. flatten_all
     [Elem \<lparr>st_local = ''encryption'', st_attributes = []\<rparr>
       [Elem \<lparr>st_local = ''EncryptedData'', st_attributes = []\<rparr>
         [Void \<lparr>st_local = ''EncryptedKey'', st_attributes = []\<rparr>,
          Void \<lparr>st_local = ''CipherReference'', st_attributes = [plain_attr ''URI'' ''a.otf'']\<rparr>]]]) []))
   = [[], ''a.otf'']"
proof -
  let ?nodes = "[Elem \<lparr>st_local = ''encryption'', st_attributes = []\<rparr>
       [Elem \<lparr>st_local = ''EncryptedData'', st_attributes = []\<rparr>
         [Void \<lparr>st_local = ''EncryptedKey'', st_attributes = []\<rparr>,
          Void \<lparr>st_local = ''CipherReference'', st_attributes = [plain_attr ''URI'' ''a.otf'']\<rparr>]]]"
  have n: "list_all nested ?nodes" by simp
  have r: "map en_uri (concat (map records_of ?nodes)) = [[], ''a.otf'']" by code_simp
  show ?thesis
    using parse_encryption_reads_tree
      [where reader = "\<lambda>_ _. flatten_all ?nodes" and bytes = "[]", OF refl n] r
    by (simp del: records_of.simps)
qed

text \<open>
  Property C19.  \<open>parse_package\<close> on the events of a package document agrees with its tree: the
  version, the unique identifier, the manifest, the spine and the NCX reference are those of the
  tree reading, whatever the metadata holds, and a book without spine items is refused.
\<close>

theorem parse_package_reads_tree:
  assumes "reader reader_settings bytes = flatten_all prolog @ flatten (Elem root nodes) @ flatten_all epilog"
    and "list_all is_leaf prolog" and "list_all is_leaf epilog"
    and "st_local root = ''package''" and "list_all nested nodes"
  shows "map_sum id sketch (parse_package reader bytes) =
    (let k = fold read_node nodes (empty_package\<lparr>pk_version := attribute root ''version'',
               pk_unique_identifier_id := attribute root ''unique-identifier''\<rparr>)
     in if pk_spine k = [] then Inl EmptySpine else Inr k)"
proof -
  from package_document [where reader = reader and bytes = bytes, OF assms] obtain p where
    "drive package_step new_parser (reader reader_settings bytes) = Inr p" and "pp_saw_package p"
    and "sketch (pp_package p) = fold read_node nodes (empty_package\<lparr>pk_version := attribute root ''version'',
               pk_unique_identifier_id := attribute root ''unique-identifier''\<rparr>)"
    by blast
  then show ?thesis
    by (auto simp: parse_package_def Let_def finish_metadata_def sketch_def
        dest!: arg_cong [where f = pk_spine])
qed

theorem parse_package_reads_tree_witness:
  "map_sum id (map mi_id \<circ> pk_manifest) (map_sum id sketch (parse_package (\<lambda>_ _.
     flatten_all [Leaf EvOther] @
     flatten (Elem \<lparr>st_local = ''package'', st_attributes = [plain_attr ''version'' ''3.0'']\<rparr>
       [Elem \<lparr>st_local = ''manifest'', st_attributes = []\<rparr>
          [Void \<lparr>st_local = ''item'', st_attributes = [plain_attr ''id'' ''c1'']\<rparr>],
        Elem \<lparr>st_local = ''spine'', st_attributes = []\<rparr>
          [Void \<lparr>st_local = ''itemref'', st_attributes = [plain_attr ''idref'' ''c1'']\<rparr>]])
     @ flatten_all []) [])) = Inr [''c1'']"
proof -
  let ?root = "\<lparr>st_local = ''package'', st_attributes = [plain_attr ''version'' ''3.0'']\<rparr>"
  let ?nodes = "[Elem \<lparr>st_local = ''manifest'', st_attributes = []\<rparr>
          [Void \<lparr>st_local = ''item'', st_attributes = [plain_attr ''id'' ''c1'']\<rparr>],
        Elem \<lparr>st_local = ''spine'', st_attributes = []\<rparr>
          [Void \<lparr>st_local = ''itemref'', st_attributes = [plain_attr ''idref'' ''c1'']\<rparr>]]"
  have hyps: "list_all is_leaf [Leaf EvOther]" "list_all is_leaf []" "st_local ?root = ''package''"
    "list_all nested ?nodes" by (simp_all add: plain_event_def)
  have k: "map_sum id (map mi_id \<circ> pk_manifest)
      (let k = fold read_node ?nodes (empty_package\<lparr>pk_version := attribute ?root ''version'',
               pk_unique_identifier_id := attribute ?root ''unique-identifier''\<rparr>)
       in if pk_spine k = [] then Inl EmptySpine else Inr k) = Inr [''c1'']"
    by code_simp
  show ?thesis
    unfolding parse_package_reads_tree [where reader = "\<lambda>_ _. flatten_all [Leaf EvOther]
        @ flatten (Elem ?root ?nodes) @ flatten_all []" and bytes = "[]", OF refl hyps]
    by (rule k)
qed

text \<open>
  Property C20.  The metadata of a package document whose metadata elements hold text only is the
  reading of the tree: each Dublin Core element and bare \<open>meta\<close> is an entry with its trimmed text,
  and each refining \<open>meta\<close>, before or after what it refines, is attached to the first entry with
  the id it names, in document order.
\<close>

theorem package_metadata_reads_tree:
  assumes "reader reader_settings bytes = flatten_all prolog @ flatten (Elem root nodes) @ flatten_all epilog"
    and "list_all is_leaf prolog" and "list_all is_leaf epilog"
    and "st_local root = ''package''" and "list_all nested nodes" and "list_all simple_meta nodes"
  shows "map_sum id pk_metadata (parse_package reader bytes) =
    (if pk_spine (fold read_node nodes empty_package) = [] then Inl EmptySpine
     else let (m, refines) = fold read_meta nodes (empty_metadata, [])
          in Inr (derive (m\<lparr>md_entries := attached [] refines (md_entries m)\<rparr>)))"
proof -
  from package_document [where reader = reader and bytes = bytes, OF assms(1-5)] obtain p where
    run: "drive package_step new_parser (reader reader_settings bytes) = Inr p" "pp_saw_package p"
    and k: "sketch (pp_package p) = fold read_node nodes (empty_package\<lparr>pk_version := attribute root ''version'',
               pk_unique_identifier_id := attribute root ''unique-identifier''\<rparr>)"
    and g: "gathered p = fold read_meta nodes (empty_metadata, [])"
    using assms(6) by blast
  have "pk_spine (pp_package p) = pk_spine (fold read_node nodes empty_package)"
    using arg_cong [OF k, of pk_spine]
      read_nodes_spine [of empty_package "empty_package\<lparr>pk_version := attribute root ''version'',
               pk_unique_identifier_id := attribute root ''unique-identifier''\<rparr>" nodes]
    by simp
  with run show ?thesis
    by (simp add: parse_package_def finish_metadata_def Let_def fold_attach_refinement
        g [symmetric] gathered_def)
qed

theorem package_metadata_reads_tree_witness:
  "map_sum id md_creators (map_sum id pk_metadata (parse_package (\<lambda>_ _.
     flatten_all [] @
     flatten (Elem \<lparr>st_local = ''package'', st_attributes = []\<rparr>
       [Elem \<lparr>st_local = ''metadata'', st_attributes = []\<rparr>
          [Elem \<lparr>st_local = ''meta'', st_attributes = [plain_attr ''refines'' ''#a'', plain_attr ''property'' ''role'']\<rparr>
             [Leaf (EvText ''aut'')],
           Elem \<lparr>st_local = ''creator'', st_attributes = [plain_attr ''id'' ''a'']\<rparr>
             [Leaf (EvText '' Ada '')]],
        Elem \<lparr>st_local = ''spine'', st_attributes = []\<rparr>
          [Void \<lparr>st_local = ''itemref'', st_attributes = [plain_attr ''idref'' ''c1'']\<rparr>]])
     @ flatten_all []) []))
   = Inr [\<lparr>co_name = ''Ada'', co_role = ''aut'', co_file_as = []\<rparr>]"
proof -
  let ?root = "\<lparr>st_local = ''package'', st_attributes = []\<rparr>"
  let ?nodes = "[Elem \<lparr>st_local = ''metadata'', st_attributes = []\<rparr>
          [Elem \<lparr>st_local = ''meta'', st_attributes = [plain_attr ''refines'' ''#a'', plain_attr ''property'' ''role'']\<rparr>
             [Leaf (EvText ''aut'')],
           Elem \<lparr>st_local = ''creator'', st_attributes = [plain_attr ''id'' ''a'']\<rparr>
             [Leaf (EvText '' Ada '')]],
        Elem \<lparr>st_local = ''spine'', st_attributes = []\<rparr>
          [Void \<lparr>st_local = ''itemref'', st_attributes = [plain_attr ''idref'' ''c1'']\<rparr>]]"
  let ?reader = "\<lambda>_ _. flatten_all [] @ flatten (Elem ?root ?nodes) @ flatten_all []"
  have hyps: "list_all is_leaf []" "list_all is_leaf []" "st_local ?root = ''package''"
    "list_all nested ?nodes" "list_all simple_meta ?nodes" by (simp_all add: plain_event_def)
  have eval: "map_sum id md_creators
      (if pk_spine (fold read_node ?nodes empty_package) = [] then Inl EmptySpine
       else let (m, refines) = fold read_meta ?nodes (empty_metadata, [])
            in Inr (derive (m\<lparr>md_entries := attached [] refines (md_entries m)\<rparr>))) =
     Inr [\<lparr>co_name = ''Ada'', co_role = ''aut'', co_file_as = []\<rparr>]" by code_simp
  show ?thesis
    unfolding package_metadata_reads_tree [where reader = ?reader and bytes = "[]", OF refl hyps]
    by (rule eval)
qed

end
