(* ===== verification/Nav.thy ===== *)
theory Nav imports Href Xml begin

text \<open>
  \<open>src/nav.rs\<close>: the table of contents, from an EPUB 3 navigation document (\<open>parse_nav\<close>) or an
  EPUB 2 NCX (\<open>parse_ncx\<close>).

  The locals of the two event loops are the record \<open>nav_state\<close>: \<open>ns_inside\<close> is \<open>in_toc_nav\<close> of
  the one and \<open>in_map\<close> of the other, \<open>ns_inside_depth\<close> is \<open>nav_depth\<close> and \<open>map_depth\<close>,
  \<open>ns_reading\<close> is \<open>in_label\<close> and \<open>in_text\<close>.  The stack has its innermost entry first; the code's
  vector has it last.  Both loops stop at the first read error and keep what they have.
\<close>

section \<open>Definitions\<close>

definition MAX_ENTRIES :: usize where
  "MAX_ENTRIES = 5000"

definition MAX_DEPTH :: usize where
  "MAX_DEPTH = 32"

datatype nav_point =
  NavPoint (np_label: string) (np_href: string) (np_depth: nat) (np_children: "nav_point list")

definition new_point :: nav_point where
  "new_point = NavPoint [] [] 0 []"

record navigation =
  nv_source_href :: string
  nv_toc :: "nav_point list"
  nv_from_ncx :: bool

definition nav_is_empty :: "navigation \<Rightarrow> bool" where
  "nav_is_empty n \<longleftrightarrow> nv_toc n = []"

fun walk :: "nav_point \<Rightarrow> nav_point list" where
  "walk (NavPoint l h d cs) = NavPoint l h d cs # concat (map walk cs)"

definition nav_flatten :: "navigation \<Rightarrow> nav_point list" where
  "nav_flatten n = concat (map walk (nv_toc n))"

definition resolve_with_fragment :: "string \<Rightarrow> string \<Rightarrow> string option" where
  "resolve_with_fragment base_dir raw =
     (let (path, fragment) =
            (case split_once CHR ''#'' raw of Some (p, f) \<Rightarrow> (p, Some f) | None \<Rightarrow> (raw, None))
      in if path = [] then None
         else case resolve base_dir path of
           Inr (Entry resolved) \<Rightarrow>
             Some (case fragment of
                     Some f \<Rightarrow> if f \<noteq> [] then resolved @ ''#'' @ f else resolved
                   | None \<Rightarrow> resolved)
         | _ \<Rightarrow> None)"

definition collapse :: "string \<Rightarrow> string" where
  "collapse txt = join_on CHR '' '' (split_whitespace txt)"

definition nav_settings :: reader_config where
  "nav_settings =
     \<lparr>check_end_names = False, allow_unmatched_ends = True, expand_empty_elements = False\<rparr>"

record open_point =
  op_point :: nav_point
  op_depth :: nat

record nav_state =
  ns_inside :: bool
  ns_inside_depth :: nat
  ns_depth :: nat
  ns_stack :: "open_point list"
  ns_roots :: "nav_point list"
  ns_reading :: bool
  ns_label :: string
  ns_entries :: nat

definition new_nav_state :: nav_state where
  "new_nav_state = \<lparr>ns_inside = False, ns_inside_depth = 0, ns_depth = 0, ns_stack = [],
     ns_roots = [], ns_reading = False, ns_label = [], ns_entries = 0\<rparr>"

definition add_child :: "nav_point \<Rightarrow> nav_point \<Rightarrow> nav_point" where
  "add_child child p = NavPoint (np_label p) (np_href p) (np_depth p) (np_children p @ [child])"

definition set_label :: "string \<Rightarrow> nav_point \<Rightarrow> nav_point" where
  "set_label l p = NavPoint l (np_href p) (np_depth p) (np_children p)"

definition set_href :: "string \<Rightarrow> nav_point \<Rightarrow> nav_point" where
  "set_href h p = NavPoint (np_label p) h (np_depth p) (np_children p)"

text \<open>\<open>stack.last_mut()\<close> with an update of the entry found.\<close>

definition on_last :: "(nav_point \<Rightarrow> nav_point) \<Rightarrow> open_point list \<Rightarrow> open_point list" where
  "on_last f stack =
     (case stack of [] \<Rightarrow> [] | o1 # rest \<Rightarrow> o1\<lparr>op_point := f (op_point o1)\<rparr> # rest)"

definition attach :: "nav_point \<Rightarrow> nav_state \<Rightarrow> nav_state" where
  "attach finished s =
     (case ns_stack s of
        [] \<Rightarrow> s\<lparr>ns_roots := ns_roots s @ [finished]\<rparr>
      | _ \<Rightarrow> s\<lparr>ns_stack := on_last (add_child finished) (ns_stack s)\<rparr>)"

definition push_open :: "nav_state \<Rightarrow> nav_state" where
  "push_open s = s\<lparr>ns_stack := \<lparr>op_point = new_point, op_depth = ns_depth s\<rparr> # ns_stack s\<rparr>"

text \<open>The end-tag code both loops share: the entry this depth opened is popped, and kept if it may be.\<close>

definition close_point :: "nav_state \<Rightarrow> nav_state" where
  "close_point s =
     (case ns_stack s of
        [] \<Rightarrow> s
      | o1 # rest \<Rightarrow>
          if op_depth o1 = ns_depth s then
            (let s' = s\<lparr>ns_stack := rest\<rparr>
             in if ns_entries s < MAX_ENTRIES \<and> np_label (op_point o1) \<noteq> []
                then attach (op_point o1) (s'\<lparr>ns_entries := ns_entries s + 1\<rparr>)
                else s')
          else s)"

definition leave_depth :: "nav_state \<Rightarrow> nav_state" where
  "leave_depth s =
     (let s' = (if ns_inside s \<and> ns_depth s = ns_inside_depth s then s\<lparr>ns_inside := False\<rparr> else s)
      in s'\<lparr>ns_depth := ns_depth s' - 1\<rparr>)"

definition last_label_empty :: "nav_state \<Rightarrow> bool" where
  "last_label_empty s =
     (case ns_stack s of [] \<Rightarrow> False | o1 # _ \<Rightarrow> np_label (op_point o1) = [])"

definition nav_open :: "string \<Rightarrow> xml_start \<Rightarrow> nav_state \<Rightarrow> nav_state" where
  "nav_open base_dir start s0 =
     (let s = s0\<lparr>ns_depth := ns_depth s0 + 1\<rparr>;
          local = st_local start
      in if local = ''nav'' \<and> \<not> ns_inside s then
           (let kind = attribute start ''type''
            in if kind = [] \<or> ''toc'' \<in> set (split_whitespace kind)
               then s\<lparr>ns_inside := True, ns_inside_depth := ns_depth s\<rparr> else s)
         else if local = ''li'' \<and> ns_inside s then
           (if length (ns_stack s) < MAX_DEPTH then push_open s else s)
         else if (local = ''a'' \<or> local = ''span'') \<and> ns_inside s then
           (if last_label_empty s
            then s\<lparr>ns_stack := on_last (set_href
                     (opt_or (resolve_with_fragment base_dir (attribute start ''href'')) []))
                     (ns_stack s),
                   ns_reading := True, ns_label := []\<rparr>
            else s)
         else s)"

definition nav_close :: "string \<Rightarrow> nav_state \<Rightarrow> nav_state" where
  "nav_close local s =
     (let s = (if ns_reading s \<and> (local = ''a'' \<or> local = ''span'')
               then s\<lparr>ns_reading := False,
                      ns_stack := on_last (set_label (collapse (ns_label s))) (ns_stack s),
                      ns_label := []\<rparr>
               else s)
      in leave_depth (close_point s))"

definition read_text :: "string \<Rightarrow> nav_state \<Rightarrow> nav_state" where
  "read_text txt s = (if ns_reading s then s\<lparr>ns_label := ns_label s @ txt\<rparr> else s)"

definition nav_step :: "string \<Rightarrow> nav_state \<Rightarrow> xml_event \<Rightarrow> nav_state" where
  "nav_step base_dir s ev =
     (case ev of
        EvStart start \<Rightarrow> nav_open base_dir start s
      | EvText txt \<Rightarrow> read_text txt s
      | EvEnd local \<Rightarrow> nav_close local s
      | _ \<Rightarrow> s)"

text \<open>\<open>while let Ok(event)\<close>: the events before the first read error.\<close>

definition ok_events :: "(string + xml_event) list \<Rightarrow> xml_event list" where
  "ok_events rs = map projr (takeWhile (\<lambda>r. \<not> isl r) rs)"

text \<open>What was still open at the end of a navigation document is kept, innermost first.\<close>

fun keep_open :: "open_point list \<Rightarrow> nav_point list \<Rightarrow> nav_point list" where
  "keep_open [] roots = roots"
| "keep_open [o1] roots =
     (if np_label (op_point o1) \<noteq> [] then roots @ [op_point o1] else roots)"
| "keep_open (o1 # o2 # rest) roots =
     (if np_label (op_point o1) \<noteq> []
      then keep_open (o2\<lparr>op_point := add_child (op_point o1) (op_point o2)\<rparr> # rest) roots
      else keep_open (o2 # rest) roots)"

fun renumber :: "nat \<Rightarrow> nav_point \<Rightarrow> nav_point" where
  "renumber d (NavPoint l h _ cs) = NavPoint l h d (map (renumber (Suc d)) cs)"

definition nest :: "nav_point list \<Rightarrow> nav_point list" where
  "nest roots = map (renumber 0) roots"

definition parse_nav :: "xml_reader \<Rightarrow> string \<Rightarrow> string \<Rightarrow> navigation" where
  "parse_nav reader bytes source_href =
     (let s = fold (\<lambda>ev s. nav_step (parent_dir source_href) s ev)
                (ok_events (reader nav_settings bytes)) new_nav_state
      in \<lparr>nv_source_href = source_href, nv_toc = nest (keep_open (ns_stack s) (ns_roots s)),
          nv_from_ncx = False\<rparr>)"

definition ncx_content :: "string \<Rightarrow> xml_start \<Rightarrow> nav_state \<Rightarrow> nav_state" where
  "ncx_content base_dir start s =
     s\<lparr>ns_stack := on_last (set_href
         (opt_or (resolve_with_fragment base_dir (attribute start ''src'')) [])) (ns_stack s)\<rparr>"

definition ncx_open :: "string \<Rightarrow> xml_start \<Rightarrow> nav_state \<Rightarrow> nav_state" where
  "ncx_open base_dir start s0 =
     (let s = s0\<lparr>ns_depth := ns_depth s0 + 1\<rparr>;
          local = st_local start
      in if local = ''navMap'' then s\<lparr>ns_inside := True, ns_inside_depth := ns_depth s\<rparr>
         else if local = ''navPoint'' \<and> ns_inside s \<and> length (ns_stack s) < MAX_DEPTH then push_open s
         else if local = ''text'' \<and> ns_inside s \<and> ns_stack s \<noteq> []
         then s\<lparr>ns_reading := True, ns_label := []\<rparr>
         else if local = ''content'' \<and> ns_inside s then ncx_content base_dir start s
         else s)"

definition ncx_close :: "string \<Rightarrow> nav_state \<Rightarrow> nav_state" where
  "ncx_close local s =
     (let s = (if local = ''text'' \<and> ns_reading s
               then s\<lparr>ns_reading := False,
                      ns_stack := (if last_label_empty s
                                   then on_last (set_label (collapse (ns_label s))) (ns_stack s)
                                   else ns_stack s),
                      ns_label := []\<rparr>
               else s)
      in leave_depth (close_point s))"

definition ncx_step :: "string \<Rightarrow> nav_state \<Rightarrow> xml_event \<Rightarrow> nav_state" where
  "ncx_step base_dir s ev =
     (case ev of
        EvEmpty start \<Rightarrow>
          (if ns_inside s \<and> st_local start = ''content'' then ncx_content base_dir start s else s)
      | EvStart start \<Rightarrow> ncx_open base_dir start s
      | EvText txt \<Rightarrow> read_text txt s
      | EvEnd local \<Rightarrow> ncx_close local s
      | _ \<Rightarrow> s)"

definition parse_ncx :: "xml_reader \<Rightarrow> string \<Rightarrow> string \<Rightarrow> navigation" where
  "parse_ncx reader bytes source_href =
     (let s = fold (\<lambda>ev s. ncx_step (parent_dir source_href) s ev)
                (ok_events (reader nav_settings bytes)) new_nav_state
      in \<lparr>nv_source_href = source_href, nv_toc = nest (ns_roots s), nv_from_ncx = True\<rparr>)"

section \<open>The invariant of both loops\<close>

text \<open>\<open>tall n p\<close>: the entry and what is under it take at most \<open>n\<close> levels.\<close>

fun tall :: "nat \<Rightarrow> nav_point \<Rightarrow> bool" where
  "tall 0 p = False"
| "tall (Suc n) (NavPoint l h d cs) = list_all (tall n) cs"

abbreviation walk_all :: "nav_point list \<Rightarrow> nav_point list" where
  "walk_all ps \<equiv> concat (map walk ps)"

text \<open>An href is empty or what a reference in a document of the directory resolves to.\<close>

definition href_from :: "string \<Rightarrow> string \<Rightarrow> bool" where
  "href_from base_dir h \<longleftrightarrow> h = [] \<or> (\<exists>raw. resolve_with_fragment base_dir raw = Some h)"

definition entry_ok :: "string \<Rightarrow> nav_point \<Rightarrow> bool" where
  "entry_ok base_dir p \<longleftrightarrow> np_label p \<noteq> [] \<and> href_from base_dir (np_href p)"

fun stack_fits :: "open_point list \<Rightarrow> bool" where
  "stack_fits [] = True"
| "stack_fits (o1 # rest) \<longleftrightarrow>
     length rest < MAX_DEPTH
     \<and> list_all (tall (MAX_DEPTH - Suc (length rest))) (np_children (op_point o1))
     \<and> stack_fits rest"

definition children_of :: "open_point list \<Rightarrow> nav_point list" where
  "children_of stack = concat (map (\<lambda>o1. walk_all (np_children (op_point o1))) stack)"

definition built :: "string \<Rightarrow> open_point list \<Rightarrow> nav_point list \<Rightarrow> nat \<Rightarrow> bool" where
  "built base_dir stack roots n \<longleftrightarrow>
     stack_fits stack \<and> list_all (tall MAX_DEPTH) roots
     \<and> list_all (\<lambda>o1. href_from base_dir (np_href (op_point o1))) stack
     \<and> list_all (entry_ok base_dir) (children_of stack)
     \<and> list_all (entry_ok base_dir) (walk_all roots)
     \<and> length (children_of stack) + length (walk_all roots) \<le> n \<and> n \<le> MAX_ENTRIES"

definition nav_inv :: "string \<Rightarrow> nav_state \<Rightarrow> bool" where
  "nav_inv base_dir s \<longleftrightarrow> built base_dir (ns_stack s) (ns_roots s) (ns_entries s)"

lemma children_of_simps [simp]:
  "children_of [] = []"
  "children_of (o1 # rest) = walk_all (np_children (op_point o1)) @ children_of rest"
  by (simp_all add: children_of_def)

lemma point_simps [simp]:
  "np_label (add_child c p) = np_label p" "np_href (add_child c p) = np_href p"
  "np_children (add_child c p) = np_children p @ [c]"
  "np_label (set_label l p) = l" "np_href (set_label l p) = np_href p"
  "np_children (set_label l p) = np_children p"
  "np_label (set_href h p) = np_label p" "np_href (set_href h p) = h"
  "np_children (set_href h p) = np_children p"
  "np_label new_point = []" "np_href new_point = []" "np_children new_point = []"
  by (simp_all add: add_child_def set_label_def set_href_def new_point_def)

lemma walk_children: "walk p = p # walk_all (np_children p)"
  by (cases p) simp

lemma tall_Suc: "tall (Suc n) p \<longleftrightarrow> list_all (tall n) (np_children p)"
  by (cases p) simp

lemma href_from_simps [simp]:
  "href_from base_dir []" "href_from base_dir (opt_or (resolve_with_fragment base_dir raw) [])"
  by (cases "resolve_with_fragment base_dir raw"; auto simp: href_from_def)+

lemma built_on_last_label [simp]:
  "built b (on_last (set_label l) stack) roots n \<longleftrightarrow> built b stack roots n"
  by (cases stack) (simp_all add: built_def on_last_def)

lemma built_on_last_href:
  "built b stack roots n \<Longrightarrow> href_from b h \<Longrightarrow> built b (on_last (set_href h) stack) roots n"
  by (cases stack) (simp_all add: built_def on_last_def)

lemma nav_inv_push:
  "nav_inv b s \<Longrightarrow> length (ns_stack s) < MAX_DEPTH \<Longrightarrow> nav_inv b (push_open s)"
  by (simp add: nav_inv_def built_def push_open_def)

lemma built_pop: "built b (o1 # rest) roots n \<Longrightarrow> built b rest roots n"
  by (simp add: built_def)

lemma tall_popped:
  assumes "stack_fits (o1 # rest)"
  shows "tall (MAX_DEPTH - length rest) (op_point o1)"
proof -
  have "length rest < MAX_DEPTH" using assms by simp
  then have "MAX_DEPTH - length rest = Suc (MAX_DEPTH - Suc (length rest))" by (rule Suc_diff_Suc [symmetric])
  with assms show ?thesis by (simp add: tall_Suc)
qed

lemma built_attach:
  assumes "built b (o1 # rest) roots n" and "np_label (op_point o1) \<noteq> []" and "n < MAX_ENTRIES"
  shows "rest = [] \<Longrightarrow> built b [] (roots @ [op_point o1]) (Suc n)"
    and "rest = o2 # outer \<Longrightarrow>
      built b (o2\<lparr>op_point := add_child (op_point o1) (op_point o2)\<rparr> # outer) roots (Suc n)"
  using assms tall_popped [of o1 rest]
  by (auto simp: built_def walk_children [of "op_point o1"] entry_ok_def)

lemma nav_inv_close_point: "nav_inv b s \<Longrightarrow> nav_inv b (close_point s)"
proof (cases "ns_stack s")
  case Nil
  then show "nav_inv b s \<Longrightarrow> ?thesis" by (simp add: close_point_def)
next
  case (Cons o1 rest)
  assume "nav_inv b s"
  then have built: "built b (o1 # rest) (ns_roots s) (ns_entries s)" by (simp add: nav_inv_def Cons)
  show ?thesis
    using built_pop [OF built] built_attach [OF built] built
    by (cases rest) (auto simp: nav_inv_def close_point_def Cons attach_def on_last_def Let_def)
qed

lemma nav_inv_frame:
  "ns_stack s = ns_stack s' \<Longrightarrow> ns_roots s = ns_roots s' \<Longrightarrow> ns_entries s = ns_entries s'
   \<Longrightarrow> nav_inv b s = nav_inv b s'"
  by (simp add: nav_inv_def)

lemma leave_depth_fields [simp]:
  "ns_stack (leave_depth s) = ns_stack s" "ns_roots (leave_depth s) = ns_roots s"
  "ns_entries (leave_depth s) = ns_entries s"
  by (simp_all add: leave_depth_def Let_def)

lemma nav_inv_leave_depth [simp]: "nav_inv b (leave_depth s) = nav_inv b s"
  by (rule nav_inv_frame) simp_all

lemma nav_inv_set_href:
  "nav_inv b s \<Longrightarrow> nav_inv b (s\<lparr>ns_stack := on_last (set_href
      (opt_or (resolve_with_fragment b raw) [])) (ns_stack s)\<rparr>)"
  by (simp add: nav_inv_def built_on_last_href)

lemma nav_step_inv: "nav_inv b s \<Longrightarrow> nav_inv b (nav_step b s ev)"
proof (cases ev)
  case (EvStart start)
  assume "nav_inv b s"
  then have inv: "nav_inv b (s\<lparr>ns_depth := ns_depth s + 1\<rparr>)" by (simp add: nav_inv_def)
  show ?thesis
    using inv nav_inv_push [OF inv] nav_inv_set_href [OF inv]
    by (auto simp: EvStart nav_step_def nav_open_def Let_def nav_inv_def)
next
  case (EvEnd local)
  assume inv: "nav_inv b s"
  define s1 where "s1 = (if ns_reading s \<and> (local = ''a'' \<or> local = ''span'')
               then s\<lparr>ns_reading := False,
                      ns_stack := on_last (set_label (collapse (ns_label s))) (ns_stack s),
                      ns_label := []\<rparr>
               else s)"
  have "nav_inv b s1" using inv by (simp add: s1_def nav_inv_def)
  moreover have "nav_step b s ev = leave_depth (close_point s1)"
    by (simp add: EvEnd nav_step_def nav_close_def Let_def s1_def)
  ultimately show ?thesis by (simp add: nav_inv_close_point)
qed (simp_all add: nav_step_def nav_inv_def read_text_def)

lemma ncx_step_inv: "nav_inv b s \<Longrightarrow> nav_inv b (ncx_step b s ev)"
proof (cases ev)
  case (EvStart start)
  assume "nav_inv b s"
  then have inv: "nav_inv b (s\<lparr>ns_depth := ns_depth s + 1\<rparr>)" by (simp add: nav_inv_def)
  show ?thesis
    using inv nav_inv_push [OF inv] nav_inv_set_href [OF inv]
    by (auto simp: EvStart ncx_step_def ncx_open_def ncx_content_def Let_def nav_inv_def)
next
  case (EvEmpty start)
  assume "nav_inv b s"
  then show ?thesis using nav_inv_set_href
    by (auto simp: EvEmpty ncx_step_def ncx_content_def)
next
  case (EvEnd local)
  assume inv: "nav_inv b s"
  define s1 where "s1 = (if local = ''text'' \<and> ns_reading s
               then s\<lparr>ns_reading := False,
                      ns_stack := (if last_label_empty s
                                   then on_last (set_label (collapse (ns_label s))) (ns_stack s)
                                   else ns_stack s),
                      ns_label := []\<rparr>
               else s)"
  have "nav_inv b s1" using inv by (simp add: s1_def nav_inv_def)
  moreover have "ncx_step b s ev = leave_depth (close_point s1)"
    by (simp add: EvEnd ncx_step_def ncx_close_def Let_def s1_def)
  ultimately show ?thesis by (simp add: nav_inv_close_point)
qed (simp_all add: ncx_step_def nav_inv_def read_text_def)

lemma new_nav_state_inv: "nav_inv b new_nav_state"
  by (simp add: nav_inv_def built_def new_nav_state_def)

text \<open>
  What the two dialects share: a step that keeps the invariant, and so a run that does, from
  whatever events the reader gives before its first error.
\<close>

locale outline_parser =
  fixes step :: "string \<Rightarrow> nav_state \<Rightarrow> xml_event \<Rightarrow> nav_state"
  assumes step_inv: "nav_inv b s \<Longrightarrow> nav_inv b (step b s ev)"
begin

lemma fold_inv: "nav_inv b s \<Longrightarrow> nav_inv b (fold (\<lambda>ev s. step b s ev) evs s)"
  by (induction evs arbitrary: s) (simp_all add: step_inv)

lemma run_inv: "nav_inv b (fold (\<lambda>ev s. step b s ev) evs new_nav_state)"
  by (rule fold_inv [OF new_nav_state_inv])

end

interpretation nav: outline_parser nav_step
  by unfold_locales (rule nav_step_inv)

interpretation ncx: outline_parser ncx_step
  by unfold_locales (rule ncx_step_inv)

section \<open>The finished tree\<close>

lemma keep_open_built:
  assumes "stack_fits stack" and "list_all (tall MAX_DEPTH) roots"
    and "list_all (\<lambda>o1. href_from b (np_href (op_point o1))) stack"
    and "list_all (entry_ok b) (children_of stack)" and "list_all (entry_ok b) (walk_all roots)"
  shows "list_all (tall MAX_DEPTH) (keep_open stack roots)
    \<and> list_all (entry_ok b) (walk_all (keep_open stack roots))
    \<and> length (walk_all (keep_open stack roots))
        \<le> length (children_of stack) + length (walk_all roots) + length stack"
  using assms
proof (induction stack roots rule: keep_open.induct)
  case (1 roots)
  then show ?case by simp
next
  case (2 o1 roots)
  then show ?case using tall_popped [of o1 "[]"]
    by (auto simp: walk_children [of "op_point o1"] entry_ok_def)
next
  case (3 o1 o2 rest roots)
  show ?case
  proof (cases "np_label (op_point o1) = []")
    case True
    with 3 show ?thesis by (simp add: le_SucI)
  next
    case False
    have "tall (MAX_DEPTH - Suc (length rest)) (op_point o1)"
      using tall_popped [OF 3(3)] by simp
    with False 3 show ?thesis
      by (simp add: walk_children [of "op_point o1"] entry_ok_def)
  qed
qed

text \<open>Each entry's depth is the level it sits at.\<close>

fun levelled :: "nat \<Rightarrow> nav_point \<Rightarrow> bool" where
  "levelled d (NavPoint l h d' cs) \<longleftrightarrow> d' = d \<and> list_all (levelled (Suc d)) cs"

lemma levelled_renumber: "levelled d (renumber d p)"
  by (induction d p rule: renumber.induct) (simp add: list_all_iff)

lemma length_walk_renumber: "length (walk (renumber d p)) = length (walk p)"
  by (induction d p rule: renumber.induct) (simp add: length_concat comp_def cong: map_cong)

lemma entry_ok_renumber:
  "list_all (entry_ok b) (walk (renumber d p)) = list_all (entry_ok b) (walk p)"
  by (induction d p rule: renumber.induct) (auto simp: entry_ok_def list_all_iff)

lemma depth_renumber:
  "tall n p \<Longrightarrow> list_all (\<lambda>q. np_depth q < d + n) (walk (renumber d p))"
proof (induction d p arbitrary: n rule: renumber.induct)
  case (1 d l h d' cs)
  from 1(2) obtain m where m: "n = Suc m" "list_all (tall m) cs" by (cases n) auto
  have "list_all (\<lambda>q. np_depth q < Suc d + m) (walk (renumber (Suc d) c))" if "c \<in> set cs" for c
    using 1(1) [OF that] m(2) that by (simp add: list_all_iff)
  then show ?case by (auto simp: m(1) list_all_iff)
qed

lemma nest_facts:
  assumes "list_all (tall MAX_DEPTH) ps" and "list_all (entry_ok b) (walk_all ps)"
  shows "list_all (levelled 0) (nest ps)"
    and "list_all (\<lambda>q. entry_ok b q \<and> np_depth q < MAX_DEPTH) (walk_all (nest ps))"
    and "length (walk_all (nest ps)) = length (walk_all ps)"
proof -
  show "list_all (levelled 0) (nest ps)"
    by (auto simp: nest_def list_all_iff levelled_renumber)
  have "list_all (entry_ok b) (walk (renumber 0 p))" "list_all (\<lambda>q. np_depth q < MAX_DEPTH) (walk (renumber 0 p))"
    if "p \<in> set ps" for p
    using assms that depth_renumber [of MAX_DEPTH p 0] entry_ok_renumber [of b 0 p]
    by (auto simp: list_all_iff)
  then show "list_all (\<lambda>q. entry_ok b q \<and> np_depth q < MAX_DEPTH) (walk_all (nest ps))"
    by (auto simp: nest_def list_all_iff)
  show "length (walk_all (nest ps)) = length (walk_all ps)"
    by (simp add: nest_def length_concat comp_def length_walk_renumber)
qed

text \<open>A path of the archive, with or without a fragment, or nothing.\<close>

definition href_safe :: "string \<Rightarrow> bool" where
  "href_safe h \<longleftrightarrow> h = [] \<or> (\<exists>p f. safe_path p \<and> (h = p \<or> h = p @ ''#'' @ f))"

lemma resolve_with_fragment_safe:
  assumes "safe_dir d" and "resolve_with_fragment d raw = Some h"
  shows "href_safe h"
proof -
  obtain path p where r: "resolve d path = Inr (Entry p)" and h: "h = p \<or> (\<exists>f. h = p @ ''#'' @ f)"
    using assms(2)
    by (auto simp: resolve_with_fragment_def Let_def split: prod.splits option.splits if_splits
        sum.splits target.splits)
  have "safe_path p" using r href.res_ok [OF assms(1)] by blast
  with h show ?thesis by (auto simp: href_safe_def)
qed

lemma href_from_safe: "safe_dir d \<Longrightarrow> href_from d h \<Longrightarrow> href_safe h"
  by (auto simp: href_from_def resolve_with_fragment_safe) (simp add: href_safe_def)

section \<open>Reading back an outline\<close>

text \<open>The document an outline is written as, with each entry's raw reference in its \<open>np_href\<close>.\<close>

definition tag :: "string \<Rightarrow> (string + xml_attr) list \<Rightarrow> xml_start" where
  "tag name attrs = \<lparr>st_local = name, st_attributes = attrs\<rparr>"

definition written_attr :: "string \<Rightarrow> string \<Rightarrow> string + xml_attr" where
  "written_attr k v = Inr \<lparr>at_key = k, at_local = k, at_raw = v, at_normalized = Some v\<rparr>"

fun render_item :: "nav_point \<Rightarrow> xml_node" where
  "render_item (NavPoint l h d cs) =
     Elem (tag ''li'' [])
       [Elem (tag ''a'' [written_attr ''href'' h]) [Leaf (EvText l)],
        Elem (tag ''ol'' []) (map render_item cs)]"

definition render_nav :: "nav_point list \<Rightarrow> xml_node" where
  "render_nav ps =
     Elem (tag ''html'' [])
       [Elem (tag ''nav'' [written_attr ''type'' ''toc'']) [Elem (tag ''ol'' []) (map render_item ps)]]"

fun resolved_point :: "string \<Rightarrow> nat \<Rightarrow> nav_point \<Rightarrow> nav_point" where
  "resolved_point base_dir d (NavPoint l h _ cs) =
     NavPoint l (opt_or (resolve_with_fragment base_dir h) []) d
       (map (resolved_point base_dir (Suc d)) cs)"

fun unnumbered :: "string \<Rightarrow> nav_point \<Rightarrow> nav_point" where
  "unnumbered base_dir (NavPoint l h _ cs) =
     NavPoint l (opt_or (resolve_with_fragment base_dir h) []) 0 (map (unnumbered base_dir) cs)"

lemma renumber_unnumbered: "renumber d (unnumbered b p) = resolved_point b d p"
  by (induction b p arbitrary: d rule: unnumbered.induct) auto

definition nav_run :: "string \<Rightarrow> nav_state \<Rightarrow> (string + xml_event) list \<Rightarrow> nav_state" where
  "nav_run b s rs = fold (\<lambda>ev s. nav_step b s ev) (ok_events rs) s"

lemma ok_events_append: "list_all (\<lambda>r. \<not> isl r) xs \<Longrightarrow> ok_events (xs @ ys) = ok_events xs @ ok_events ys"
  by (induction xs) (auto simp: ok_events_def)

lemma flatten_ok: "list_all (\<lambda>r. \<not> isl r) (flatten n)"
  by (induction n) (auto simp: list_all_iff)

lemma flatten_all_ok: "list_all (\<lambda>r. \<not> isl r) (flatten_all ns)"
  using flatten_ok by (auto simp: list_all_iff)

lemma nav_run_simps [simp]:
  "nav_run b s [] = s"
  "nav_run b s (Inr ev # rs) = nav_run b (nav_step b s ev) rs"
  by (simp_all add: nav_run_def ok_events_def)

lemma nav_run_append:
  "list_all (\<lambda>r. \<not> isl r) xs \<Longrightarrow> nav_run b s (xs @ ys) = nav_run b (nav_run b s xs) ys"
  by (simp add: nav_run_def ok_events_append)

lemma tag_simps [simp]:
  "st_local (tag n attrs) = n" "attribute (tag n [written_attr k v]) k' = (if \<not> prefix ''xmlns'' k \<and> k = k' then v else [])"
  by (auto simp: tag_def written_attr_def attribute_def attribute_value_def)

definition between_items :: "nav_state \<Rightarrow> bool" where
  "between_items s \<longleftrightarrow> ns_inside s \<and> \<not> ns_reading s \<and> ns_label s = [] \<and> ns_inside_depth s \<le> ns_depth s"

definition take_point :: "nat \<Rightarrow> nav_point \<Rightarrow> nav_state \<Rightarrow> nav_state" where
  "take_point n p s = (attach p s)\<lparr>ns_entries := ns_entries s + n\<rparr>"

lemma attach_fields [simp]:
  "ns_inside (attach p s) = ns_inside s" "ns_reading (attach p s) = ns_reading s"
  "ns_label (attach p s) = ns_label s" "ns_inside_depth (attach p s) = ns_inside_depth s"
  "ns_depth (attach p s) = ns_depth s" "ns_entries (attach p s) = ns_entries s"
  "length (ns_stack (attach p s)) = length (ns_stack s)"
  by (auto simp: attach_def on_last_def split: list.split)

lemma between_items_take [simp]: "between_items (take_point n p s) = between_items s"
  by (simp add: between_items_def take_point_def)

lemma take_point_fields [simp]:
  "length (ns_stack (take_point n p s)) = length (ns_stack s)"
  "ns_entries (take_point n p s) = ns_entries s + n"
  by (simp_all add: take_point_def)

text \<open>The readable outlines: collapsed labels, within the depth and the entry count.\<close>

definition readable_label :: "nav_point \<Rightarrow> bool" where
  "readable_label p \<longleftrightarrow> np_label p \<noteq> [] \<and> collapse (np_label p) = np_label p"

fun take_children :: "nav_point list \<Rightarrow> nav_point \<Rightarrow> nav_point" where
  "take_children [] p = p"
| "take_children (c # cs) p = take_children cs (add_child c p)"

lemma take_children_eq:
  "take_children cs p = NavPoint (np_label p) (np_href p) (np_depth p) (np_children p @ cs)"
  by (induction cs arbitrary: p) (auto simp: add_child_def)

lemma render_items:
  assumes "\<And>p s. p \<in> set ps \<Longrightarrow> between_items s \<Longrightarrow> length (ns_stack s) + n \<le> MAX_DEPTH
      \<Longrightarrow> ns_entries s + length (walk p) \<le> MAX_ENTRIES
      \<Longrightarrow> nav_run b s (flatten (render_item p)) = take_point (length (walk p)) (unnumbered b p) s"
    and "between_items s" and "length (ns_stack s) + n \<le> MAX_DEPTH"
    and "ns_entries s + length (walk_all ps) \<le> MAX_ENTRIES"
  shows "nav_run b s (flatten_all (map render_item ps)) =
    (fold attach (map (unnumbered b) ps) s)\<lparr>ns_entries := ns_entries s + length (walk_all ps)\<rparr>"
  using assms
proof (induction ps arbitrary: s)
  case Nil
  then show ?case by simp
next
  case (Cons p ps)
  let ?s1 = "take_point (length (walk p)) (unnumbered b p) s"
  have "nav_run b s (flatten (render_item p)) = ?s1"
    using Cons.prems by (intro Cons.prems(1)) auto
  moreover have "nav_run b ?s1 (flatten_all (map render_item ps)) =
      (fold attach (map (unnumbered b) ps) ?s1)\<lparr>ns_entries := ns_entries ?s1 + length (walk_all ps)\<rparr>"
    using Cons.prems by (intro Cons.IH) auto
  moreover have "(fold attach qs (t\<lparr>ns_entries := k\<rparr>))\<lparr>ns_entries := k'\<rparr> = (fold attach qs t)\<lparr>ns_entries := k'\<rparr>"
    for qs t k k'
  proof (induction qs arbitrary: t)
    case (Cons q qs)
    have "attach q (t\<lparr>ns_entries := k\<rparr>) = (attach q t)\<lparr>ns_entries := k\<rparr>"
      by (auto simp: attach_def split: list.split)
    with Cons show ?case by simp
  qed simp
  ultimately show ?case
    by (simp add: nav_run_append flatten_ok take_point_def add.assoc)
qed

lemma fold_attach_stack:
  "ns_stack s = o1 # rest \<Longrightarrow>
   fold attach ps s = s\<lparr>ns_stack := o1\<lparr>op_point := take_children ps (op_point o1)\<rparr> # rest\<rparr>"
proof (induction ps arbitrary: s o1)
  case (Cons p ps)
  have "attach p s = s\<lparr>ns_stack := o1\<lparr>op_point := add_child p (op_point o1)\<rparr> # rest\<rparr>"
    using Cons.prems by (simp add: attach_def on_last_def)
  with Cons.IH [of "attach p s" "o1\<lparr>op_point := add_child p (op_point o1)\<rparr>"] show ?case by simp
qed simp

lemma fold_attach_roots:
  "ns_stack s = [] \<Longrightarrow> fold attach ps s = s\<lparr>ns_roots := ns_roots s @ ps\<rparr>"
  by (induction ps arbitrary: s) (simp_all add: attach_def)

lemma render_item_run:
  assumes "list_all readable_label (walk p)" and "tall n p" and "between_items s"
    and "length (ns_stack s) + n \<le> MAX_DEPTH" and "ns_entries s + length (walk p) \<le> MAX_ENTRIES"
  shows "nav_run b s (flatten (render_item p)) = take_point (length (walk p)) (unnumbered b p) s"
  using assms
proof (induction p arbitrary: n s)
  case (NavPoint l h d cs)
  from NavPoint.prems(2) obtain m where m: "n = Suc m" "list_all (tall m) cs" by (cases n) auto
  let ?h = "opt_or (resolve_with_fragment b h) []"
  define s1 where "s1 = s\<lparr>ns_depth := ns_depth s + 2,
      ns_stack := \<lparr>op_point = NavPoint l ?h 0 [], op_depth = ns_depth s + 1\<rparr> # ns_stack s\<rparr>"
  have l: "l \<noteq> []" "collapse l = l"
    using NavPoint.prems(1) by (auto simp: readable_label_def)
  have s1: "nav_run b s (Inr (EvStart (tag ''li'' []))
      # flatten (Elem (tag ''a'' [written_attr ''href'' h]) [Leaf (EvText l)])
      @ [Inr (EvStart (tag ''ol'' []))]) = s1"
    using NavPoint.prems(3,4) l m(1)
    by (simp add: s1_def nav_step_def nav_open_def nav_close_def read_text_def between_items_def
        push_open_def new_point_def last_label_empty_def on_last_def set_href_def set_label_def
        close_point_def leave_depth_def Let_def)
  have "nav_run b s1 (flatten_all (map render_item cs)) =
      (fold attach (map (unnumbered b) cs) s1)\<lparr>ns_entries := ns_entries s1 + length (walk_all cs)\<rparr>"
  proof (rule render_items [where n = m])
    fix c t
    assume c: "c \<in> set cs" and t: "between_items t" "length (ns_stack t) + m \<le> MAX_DEPTH"
      "ns_entries t + length (walk c) \<le> MAX_ENTRIES"
    have "list_all readable_label (walk c)" "tall m c"
      using NavPoint.prems(1) m(2) c by (auto simp: list_all_iff)
    then show "nav_run b t (flatten (render_item c)) = take_point (length (walk c)) (unnumbered b c) t"
      using NavPoint.IH [OF c] t by blast
  qed (use NavPoint.prems(3-5) m(1) in \<open>auto simp: s1_def between_items_def\<close>)
  also have "\<dots> = s1\<lparr>ns_stack := \<lparr>op_point = unnumbered b (NavPoint l h d cs), op_depth = ns_depth s + 1\<rparr>
      # ns_stack s, ns_entries := ns_entries s + length (walk_all cs)\<rparr>"
    by (simp add: fold_attach_stack s1_def take_children_eq)
  finally have body: "nav_run b s1 (flatten_all (map render_item cs)) = \<dots>" .
  have "nav_run b s (flatten (render_item (NavPoint l h d cs))) =
      nav_run b (nav_run b s1 (flatten_all (map render_item cs)))
        [Inr (EvEnd ''ol''), Inr (EvEnd ''li'')]"
    using s1 nav_run_append [OF flatten_all_ok, of b s1 "map render_item cs"] by simp
  also have "\<dots> = take_point (length (walk (NavPoint l h d cs))) (unnumbered b (NavPoint l h d cs)) s"
    unfolding body using NavPoint.prems(3,5) l
    by (cases "ns_stack s")
      (simp_all add: s1_def nav_step_def nav_close_def close_point_def leave_depth_def between_items_def
        take_point_def attach_def on_last_def add_child_def Let_def)
  finally show ?case .
qed

section \<open>Properties\<close>

lemma outline_facts:
  assumes "safe_path source_href" and "list_all (tall MAX_DEPTH) ps"
    and "list_all (entry_ok (parent_dir source_href)) (walk_all ps)"
  shows "list_all (levelled 0) (nest ps)
    \<and> list_all (\<lambda>p. np_label p \<noteq> [] \<and> href_safe (np_href p) \<and> np_depth p < MAX_DEPTH) (walk_all (nest ps))"
  using nest_facts(1,2) [OF assms(2,3)] href_from_safe [OF parent_dir_safe [OF assms(1)]]
  by (auto simp: list_all_iff entry_ok_def)

text \<open>
  Property C22.  Whatever the bytes of a navigation document or an NCX are, its outline is bounded
  and sound: every entry has a label, its href is empty or a safe path with perhaps a fragment,
  and its depth is the level it sits at, below 32; an NCX gives at most 5000 entries and a
  navigation document at most 5032, since what is still open at its end is kept uncounted.
\<close>

theorem outline_bounded:
  assumes "safe_path source_href"
  shows "list_all (levelled 0) (nv_toc (parse_nav reader bytes source_href))
    \<and> list_all (\<lambda>p. np_label p \<noteq> [] \<and> href_safe (np_href p) \<and> np_depth p < MAX_DEPTH)
        (nav_flatten (parse_nav reader bytes source_href))
    \<and> length (nav_flatten (parse_nav reader bytes source_href)) \<le> MAX_ENTRIES + MAX_DEPTH
    \<and> list_all (levelled 0) (nv_toc (parse_ncx reader bytes source_href))
    \<and> list_all (\<lambda>p. np_label p \<noteq> [] \<and> href_safe (np_href p) \<and> np_depth p < MAX_DEPTH)
        (nav_flatten (parse_ncx reader bytes source_href))
    \<and> length (nav_flatten (parse_ncx reader bytes source_href)) \<le> MAX_ENTRIES"
proof -
  let ?b = "parent_dir source_href"
  define s where "s = fold (\<lambda>ev s. nav_step ?b s ev) (ok_events (reader nav_settings bytes)) new_nav_state"
  define t where "t = fold (\<lambda>ev s. ncx_step ?b s ev) (ok_events (reader nav_settings bytes)) new_nav_state"
  have s: "built ?b (ns_stack s) (ns_roots s) (ns_entries s)"
    and t: "built ?b (ns_stack t) (ns_roots t) (ns_entries t)"
    using nav.run_inv ncx.run_inv by (auto simp: s_def t_def nav_inv_def)
  let ?ps = "keep_open (ns_stack s) (ns_roots s)" and ?qs = "ns_roots t"
  have stack: "length stack \<le> MAX_DEPTH" if "stack_fits stack" for stack
    using that by (cases stack) auto
  have ps: "list_all (tall MAX_DEPTH) ?ps" "list_all (entry_ok ?b) (walk_all ?ps)"
    "length (walk_all ?ps) \<le> MAX_ENTRIES + MAX_DEPTH"
    using keep_open_built [of "ns_stack s" "ns_roots s" ?b] s stack [of "ns_stack s"]
    by (auto simp: built_def)
  have qs: "list_all (tall MAX_DEPTH) ?qs" "list_all (entry_ok ?b) (walk_all ?qs)"
    "length (walk_all ?qs) \<le> MAX_ENTRIES"
    using t by (auto simp: built_def)
  have "nv_toc (parse_nav reader bytes source_href) = nest ?ps"
    "nv_toc (parse_ncx reader bytes source_href) = nest ?qs"
    by (simp_all add: parse_nav_def parse_ncx_def s_def t_def Let_def)
  then show ?thesis
    using outline_facts [OF assms ps(1,2)] outline_facts [OF assms qs(1,2)] ps(3) qs(3)
      nest_facts(3) [OF ps(1,2)] nest_facts(3) [OF qs(1,2)]
    by (simp add: nav_flatten_def)
qed

theorem outline_bounded_witness:
  "\<forall>reader bytes. length (nav_flatten (parse_nav reader bytes ''OEBPS/nav.xhtml'')) \<le> 5032
    \<and> length (nav_flatten (parse_ncx reader bytes ''OEBPS/nav.xhtml'')) \<le> 5000"
proof -
  have p: "safe_path ''OEBPS/nav.xhtml''" by code_simp
  show ?thesis using outline_bounded [OF p] by (simp add: MAX_ENTRIES_def MAX_DEPTH_def)
qed

text \<open>
  Property C23.  An outline written as a navigation document is read back as itself, with each
  reference resolved and each entry's depth filled in: nothing is dropped, reordered or re-nested,
  as long as it is within the depth and the entry count and its labels are collapsed.
\<close>

theorem parse_nav_render:
  assumes "reader nav_settings bytes = flatten (render_nav ps)"
    and "list_all readable_label (walk_all ps)" and "list_all (tall MAX_DEPTH) ps"
    and "length (walk_all ps) \<le> MAX_ENTRIES"
  shows "parse_nav reader bytes source_href =
    \<lparr>nv_source_href = source_href, nv_toc = map (resolved_point (parent_dir source_href) 0) ps,
     nv_from_ncx = False\<rparr>"
proof -
  let ?b = "parent_dir source_href"
  define s where "s = new_nav_state\<lparr>ns_inside := True, ns_inside_depth := 2, ns_depth := 3\<rparr>"
  have open_tags: "nav_run ?b new_nav_state [Inr (EvStart (tag ''html'' [])),
      Inr (EvStart (tag ''nav'' [written_attr ''type'' ''toc''])), Inr (EvStart (tag ''ol'' []))] = s"
  proof -
    have "''toc'' \<in> set (split_whitespace ''toc'')" by code_simp
    then show ?thesis by (simp add: nav_step_def nav_open_def Let_def new_nav_state_def s_def)
  qed
  have "nav_run ?b s (flatten_all (map render_item ps)) =
      (fold attach (map (unnumbered ?b) ps) s)\<lparr>ns_entries := ns_entries s + length (walk_all ps)\<rparr>"
  proof (rule render_items [where n = MAX_DEPTH])
    fix p t
    assume p: "p \<in> set ps" and t: "between_items t" "length (ns_stack t) + MAX_DEPTH \<le> MAX_DEPTH"
      "ns_entries t + length (walk p) \<le> MAX_ENTRIES"
    have "list_all readable_label (walk p)" "tall MAX_DEPTH p"
      using assms(2,3) p by (auto simp: list_all_iff)
    then show "nav_run ?b t (flatten (render_item p)) = take_point (length (walk p)) (unnumbered ?b p) t"
      using render_item_run t by blast
  qed (use assms(4) in \<open>simp_all add: s_def new_nav_state_def between_items_def\<close>)
  also have "\<dots> = s\<lparr>ns_roots := map (unnumbered ?b) ps, ns_entries := length (walk_all ps)\<rparr>"
    by (simp add: fold_attach_roots s_def new_nav_state_def)
  finally have body: "nav_run ?b s (flatten_all (map render_item ps)) = \<dots>" .
  have "nav_run ?b new_nav_state (flatten (render_nav ps)) =
      nav_run ?b (nav_run ?b s (flatten_all (map render_item ps)))
        [Inr (EvEnd ''ol''), Inr (EvEnd ''nav''), Inr (EvEnd ''html'')]"
    using open_tags nav_run_append [OF flatten_all_ok, of ?b s "map render_item ps"]
    by (simp add: render_nav_def)
  then have "ns_stack (nav_run ?b new_nav_state (flatten (render_nav ps))) = []"
    "ns_roots (nav_run ?b new_nav_state (flatten (render_nav ps))) = map (unnumbered ?b) ps"
    unfolding body
    by (simp_all add: s_def new_nav_state_def nav_step_def nav_close_def close_point_def leave_depth_def
        Let_def)
  then show ?thesis
    by (simp add: parse_nav_def assms(1) nav_run_def nest_def comp_def renumber_unnumbered)
qed

theorem parse_nav_render_witness:
  "nv_toc (parse_nav (\<lambda>_ _. flatten (render_nav
      [NavPoint ''One'' ''c1.xhtml#a'' 0 [NavPoint ''Part'' ''../x'' 0 []], NavPoint ''Two'' ''c%202.xhtml'' 0 []]))
     [] ''OEBPS/nav.xhtml'') =
   [NavPoint ''One'' ''OEBPS/c1.xhtml#a'' 0 [NavPoint ''Part'' ''x'' 1 []],
    NavPoint ''Two'' ''OEBPS/c 2.xhtml'' 0 []]"
proof -
  let ?ps = "[NavPoint ''One'' ''c1.xhtml#a'' 0 [NavPoint ''Part'' ''../x'' 0 []], NavPoint ''Two'' ''c%202.xhtml'' 0 []]"
  have hyps: "list_all readable_label (walk_all ?ps)" "list_all (tall MAX_DEPTH) ?ps"
    "length (walk_all ?ps) \<le> MAX_ENTRIES" by code_simp+
  have r: "map (resolved_point (parent_dir ''OEBPS/nav.xhtml'') 0) ?ps =
    [NavPoint ''One'' ''OEBPS/c1.xhtml#a'' 0 [NavPoint ''Part'' ''x'' 1 []],
     NavPoint ''Two'' ''OEBPS/c 2.xhtml'' 0 []]" by code_simp
  show ?thesis
    using parse_nav_render [where reader = "\<lambda>_ _. flatten (render_nav ?ps)" and bytes = "[]"
        and source_href = "''OEBPS/nav.xhtml''", OF refl hyps] r
    by (simp del: list.map)
qed

text \<open>
  An anchor whose text is in a \<open>span\<close> loses its target: the label is still empty when
  the span opens, so the span, which has no \<open>href\<close>, is taken for the titling element and clears the
  one the anchor set.  The code's comment says the first titling element wins.
\<close>

definition span_anchor :: "string \<Rightarrow> string \<Rightarrow> xml_node" where
  "span_anchor h l =
     Elem (tag ''nav'' [])
       [Elem (tag ''li'' [])
          [Elem (tag ''a'' [written_attr ''href'' h]) [Elem (tag ''span'' []) [Leaf (EvText l)]]]]"

theorem span_in_anchor_loses_target:
  assumes "reader nav_settings bytes = flatten (span_anchor h l)" and "collapse l \<noteq> []"
  shows "nv_toc (parse_nav reader bytes source_href) = [NavPoint (collapse l) [] 0 []]"
proof -
  have none: "attribute (tag n []) k = []" for n k by (simp add: tag_def attribute_def)
  have bare: "resolve_with_fragment b [] = None" for b
    by (simp add: resolve_with_fragment_def)
  have run: "nav_run b new_nav_state (flatten (span_anchor h l)) =
      new_nav_state\<lparr>ns_inside_depth := 1, ns_roots := [NavPoint (collapse l) [] 0 []], ns_entries := 1\<rparr>"
    for b
    using assms(2)
    by (simp add: none bare span_anchor_def nav_step_def nav_open_def nav_close_def read_text_def
        push_open_def new_point_def last_label_empty_def on_last_def set_href_def set_label_def
        close_point_def attach_def leave_depth_def new_nav_state_def MAX_DEPTH_def MAX_ENTRIES_def
        Let_def)
  then show ?thesis
    by (simp add: parse_nav_def assms(1) nav_run_def nest_def new_nav_state_def)
qed

theorem span_in_anchor_loses_target_witness:
  "nv_toc (parse_nav (\<lambda>_ _. flatten (span_anchor ''c1.xhtml'' ''One'')) [] ''OEBPS/nav.xhtml'') =
     [NavPoint ''One'' [] 0 []]"
proof -
  have c: "collapse ''One'' = ''One''" by code_simp
  then have ne: "collapse ''One'' \<noteq> []" by simp
  show ?thesis
    using span_in_anchor_loses_target [where reader = "\<lambda>_ _. flatten (span_anchor ''c1.xhtml'' ''One'')"
        and bytes = "[]" and source_href = "''OEBPS/nav.xhtml''", OF refl ne] c by simp
qed

text \<open>A reference inside a label is dropped: only text events reach the label of either dialect.\<close>

lemma reference_in_label_dropped:
  "nav_step b s (EvRef r) = s" "ncx_step b s (EvRef r) = s"
  by (simp_all add: nav_step_def ncx_step_def)

text \<open>
  A navigation document that breaks off keeps its open entries and an NCX loses them, although the
  NCX loop is commented as having the same policy.
\<close>

lemma truncated_outlines:
  "nv_toc (parse_nav (\<lambda>_ _. map Inr
      [EvStart (tag ''nav'' []), EvStart (tag ''li'' []), EvStart (tag ''a'' []), EvText ''One'',
       EvEnd ''a''] @ [Inl ''eof'']) [] ''n'') = [NavPoint ''One'' [] 0 []]
   \<and> nv_toc (parse_ncx (\<lambda>_ _. map Inr
      [EvStart (tag ''navMap'' []), EvStart (tag ''navPoint'' []), EvStart (tag ''text'' []), EvText ''One'',
       EvEnd ''text''] @ [Inl ''eof'']) [] ''n'') = []"
  by code_simp

end
