(* ===== verification/F64.thy ===== *)
theory F64 imports RustStr Complex_Main begin

text \<open>
  Rust's \<open>f64\<close>, as far as the media overlays use it: IEEE 754 binary64 values with the sign of zero,
  rounding to nearest even, addition, multiplication, comparison, \<open>max\<close>, and \<open>str::parse\<close>.

  A finite value is its sign and its magnitude, an exact rational; \<open>round_mag\<close> gives the nearest
  representable magnitude, or nothing where the result overflows.
\<close>

section \<open>Values\<close>

datatype f64 = NaN | Inf bool | Fin bool rat

definition f_zero :: f64 where "f_zero = Fin False 0"

definition pow2 :: "int \<Rightarrow> rat" where
  "pow2 k = (if k \<ge> 0 then 2 ^ nat k else 1 / 2 ^ nat (- k))"

fun bits :: "nat \<Rightarrow> nat" where
  "bits n = (if n = 0 then 0 else Suc (bits (n div 2)))"

declare bits.simps [simp del]

text \<open>The binary exponent of a positive magnitude: \<open>\<lfloor>log2 m\<rfloor>\<close>.\<close>

definition mag_exp :: "rat \<Rightarrow> int" where
  "mag_exp m =
     (let (p, q) = quotient_of m;
          k = int (bits (nat p)) - int (bits (nat q))
      in if pow2 k \<le> m then k else k - 1)"

definition round_even :: "rat \<Rightarrow> int" where
  "round_even y =
     (let f = \<lfloor>y\<rfloor>; r = y - of_int f
      in if r < 1 / 2 \<or> (r = 1 / 2 \<and> even f) then f else f + 1)"

definition round_mag :: "rat \<Rightarrow> rat option" where
  "round_mag m =
     (if m = 0 then Some 0
      else let e = max (mag_exp m - 52) (- 1074);
               r = of_int (round_even (m / pow2 e)) * pow2 e
           in if r < pow2 1024 then Some r else None)"

definition f_round :: "bool \<Rightarrow> rat \<Rightarrow> f64" where
  "f_round neg m = (case round_mag m of Some r \<Rightarrow> Fin neg r | None \<Rightarrow> Inf neg)"

definition signed :: "bool \<Rightarrow> rat \<Rightarrow> rat" where
  "signed neg m = (if neg then - m else m)"

fun f_add :: "f64 \<Rightarrow> f64 \<Rightarrow> f64" where
  "f_add NaN _ = NaN"
| "f_add _ NaN = NaN"
| "f_add (Inf a) (Inf b) = (if a = b then Inf a else NaN)"
| "f_add (Inf a) (Fin _ _) = Inf a"
| "f_add (Fin _ _) (Inf b) = Inf b"
| "f_add (Fin a x) (Fin b y) =
     (let s = signed a x + signed b y
      in if s = 0 then Fin (a \<and> b) 0 else f_round (s < 0) \<bar>s\<bar>)"

fun f_mul :: "f64 \<Rightarrow> f64 \<Rightarrow> f64" where
  "f_mul NaN _ = NaN"
| "f_mul _ NaN = NaN"
| "f_mul (Inf a) (Inf b) = Inf (a \<noteq> b)"
| "f_mul (Inf a) (Fin b y) = (if y = 0 then NaN else Inf (a \<noteq> b))"
| "f_mul (Fin a x) (Inf b) = (if x = 0 then NaN else Inf (a \<noteq> b))"
| "f_mul (Fin a x) (Fin b y) = f_round (a \<noteq> b) (x * y)"

fun f_lt :: "f64 \<Rightarrow> f64 \<Rightarrow> bool" where
  "f_lt NaN _ = False"
| "f_lt _ NaN = False"
| "f_lt (Inf a) (Inf b) = (a \<and> \<not> b)"
| "f_lt (Inf a) (Fin _ _) = a"
| "f_lt (Fin _ _) (Inf b) = (\<not> b)"
| "f_lt (Fin a x) (Fin b y) = (signed a x < signed b y)"

fun f_eq :: "f64 \<Rightarrow> f64 \<Rightarrow> bool" where
  "f_eq (Inf a) (Inf b) = (a = b)"
| "f_eq (Fin a x) (Fin b y) = (signed a x = signed b y)"
| "f_eq _ _ = False"

definition f_ge :: "f64 \<Rightarrow> f64 \<Rightarrow> bool" where
  "f_ge x y \<longleftrightarrow> f_lt y x \<or> f_eq x y"

fun is_finite :: "f64 \<Rightarrow> bool" where
  "is_finite (Fin _ _) = True"
| "is_finite _ = False"

text \<open>\<open>f64::max\<close>: a NaN loses to a number.  Of two zeros either may be returned; here the first.\<close>

definition f_max :: "f64 \<Rightarrow> f64 \<Rightarrow> f64" where
  "f_max x y = (if x = NaN then y else if y = NaN then x else if f_lt x y then y else x)"

section \<open>Reading\<close>

fun exponent_of :: "string \<Rightarrow> int option" where
  "exponent_of [] = Some 0"
| "exponent_of (c # cs) =
     (if c = CHR ''e'' \<or> c = CHR ''E'' then
        (let (neg, ds) = (case cs of
                            x # xs \<Rightarrow> if x = CHR ''-'' then (True, xs)
                                      else if x = CHR ''+'' then (False, xs) else (False, cs)
                          | [] \<Rightarrow> (False, cs))
         in if ds = [] then None
            else map_option (\<lambda>n. if neg then - int n else int n) (digits_val 0 ds))
      else None)"

definition pow10 :: "int \<Rightarrow> rat" where
  "pow10 k = (if k \<ge> 0 then 10 ^ nat k else 1 / 10 ^ nat (- k))"

definition decimal_of :: "string \<Rightarrow> rat option" where
  "decimal_of s =
     (let whole = takeWhile byte_is_digit s;
          rest = dropWhile byte_is_digit s;
          (fraction, tail) = (case rest of
              c # cs \<Rightarrow> if c = CHR ''.'' then (takeWhile byte_is_digit cs, dropWhile byte_is_digit cs)
                        else ([], rest)
            | [] \<Rightarrow> ([], []))
      in if whole = [] \<and> fraction = [] then None
         else Option.bind (exponent_of tail) (\<lambda>e.
           map_option (\<lambda>n. of_nat n * pow10 (e - int (length fraction)))
             (digits_val 0 (whole @ fraction))))"

definition parse_f64 :: "string \<Rightarrow> f64 option" where
  "parse_f64 s =
     (let (neg, body) = (case s of
            c # cs \<Rightarrow> if c = CHR ''-'' then (True, cs) else if c = CHR ''+'' then (False, cs)
                      else (False, s)
          | [] \<Rightarrow> (False, s));
          lower = to_ascii_lowercase body
      in if lower = ''inf'' \<or> lower = ''infinity'' then Some (Inf neg)
         else if lower = ''nan'' then Some NaN
         else map_option (f_round neg) (decimal_of body))"

section \<open>Exact integers\<close>

lemma bits_le: "bits n \<le> k \<longleftrightarrow> n < 2 ^ k"
proof (induction n arbitrary: k rule: bits.induct)
  case (1 n)
  show ?case
  proof (cases "n = 0")
    case True
    then show ?thesis by (simp add: bits.simps)
  next
    case False
    show ?thesis
    proof (cases k)
      case 0
      with False show ?thesis by (simp add: bits.simps [of n])
    next
      case (Suc j)
      have "n div 2 < 2 ^ j \<longleftrightarrow> n < 2 ^ Suc j" by auto
      with False Suc 1 [of j] show ?thesis by (simp add: bits.simps [of n])
    qed
  qed
qed

lemma bits_1 [simp]: "bits (Suc 0) = 1"
  by (simp add: bits.simps)

lemma pow2_nonneg [simp]: "0 \<le> pow2 k" "0 < pow2 k"
  by (simp_all add: pow2_def)

lemma mag_exp_nat:
  assumes "n < 2 ^ 53"
  shows "mag_exp (of_nat n) \<le> 52"
proof -
  have "quotient_of (of_nat n) = (int n, 1)"
    using quotient_of_int [of "int n"] by simp
  moreover have "bits n \<le> 53" using assms by (simp only: bits_le)
  ultimately show ?thesis by (simp add: mag_exp_def Let_def)
qed

lemma round_even_int [simp]: "round_even (of_int i) = i"
  by (simp add: round_even_def)

lemma round_mag_nat:
  assumes "n < 2 ^ 53"
  shows "round_mag (of_nat n) = Some (of_nat n)"
proof (cases "n = 0")
  case True
  then show ?thesis by (simp add: round_mag_def)
next
  case False
  define e where "e = max (mag_exp (of_nat n) - 52) (- 1074)"
  have "e \<le> 0" using mag_exp_nat [OF assms] by (simp add: e_def)
  then have pow: "pow2 e = 1 / 2 ^ nat (- e)"
    by (cases "e = 0") (simp_all add: pow2_def)
  then have div: "of_nat n / pow2 e = of_int (int n * 2 ^ nat (- e))" by simp
  have prod: "of_int (round_even (of_nat n / pow2 e)) * pow2 e = of_nat n"
    unfolding div round_even_int by (simp add: pow)
  have "(of_nat n :: rat) < 2 ^ 53"
    using assms by (metis of_nat_less_iff of_nat_numeral of_nat_power)
  also have "(2::rat) ^ 53 \<le> 2 ^ 1024" by (rule power_increasing) simp_all
  finally have "(of_nat n :: rat) < pow2 1024" by (simp add: pow2_def)
  with False prod show ?thesis by (simp add: round_mag_def Let_def e_def [symmetric])
qed

lemma f_round_nat: "n < 2 ^ 53 \<Longrightarrow> f_round neg (of_nat n) = Fin neg (of_nat n)"
  by (simp only: f_round_def round_mag_nat option.case)

definition f_nat :: "nat \<Rightarrow> f64" where
  "f_nat n = Fin False (of_nat n)"

lemma f_mul_nat: "a * b < 2 ^ 53 \<Longrightarrow> f_mul (f_nat a) (f_nat b) = f_nat (a * b)"
  using f_round_nat [of "a * b" False] by (simp add: f_nat_def)

lemma f_add_pos:
  "0 \<le> x \<Longrightarrow> 0 \<le> y \<Longrightarrow> x + y \<noteq> 0 \<Longrightarrow> f_add (Fin False x) (Fin False y) = f_round False (x + y)"
  by (simp add: signed_def Let_def)

lemma f_add_nat: "a + b < 2 ^ 53 \<Longrightarrow> f_add (f_nat a) (f_nat b) = f_nat (a + b)"
proof (cases "a + b = 0")
  case False
  assume "a + b < 2 ^ 53"
  then have r: "f_round False (of_nat (a + b)) = Fin False (of_nat (a + b))" by (rule f_round_nat)
  have "(of_nat a + of_nat b :: rat) = of_nat (a + b)" by simp
  moreover have "(of_nat a + of_nat b :: rat) \<noteq> 0" using False by linarith
  ultimately show ?thesis
    using r f_add_pos [of "of_nat a" "of_nat b"] by (simp only: f_nat_def of_nat_0_le_iff simp_thms)
qed (simp add: f_nat_def signed_def)

lemma digits_decimal:
  assumes "s \<noteq> []" and "list_all byte_is_digit s" and "digits_val 0 s = Some n"
  shows "decimal_of s = Some (of_nat n)"
proof -
  have tw: "takeWhile byte_is_digit s = s" and dw: "dropWhile byte_is_digit s = []"
    using assms(2) by (auto simp: list_all_iff takeWhile_eq_all_conv dropWhile_eq_Nil_conv)
  show ?thesis unfolding decimal_of_def tw dw using assms(1,3) by (simp add: pow10_def)
qed

lemma parse_f64_nat_str: "n < 2 ^ 53 \<Longrightarrow> parse_f64 (nat_str n) = Some (f_nat n)"
proof -
  assume n: "n < 2 ^ 53"
  have digits: "list_all byte_is_digit (nat_str n)" by (auto simp: list_all_iff nat_str_digits)
  obtain c cs where c: "nat_str n = c # cs" by (cases "nat_str n") auto
  then have d: "byte_is_digit c" using digits by simp
  then have sign: "c \<noteq> CHR ''-''" "c \<noteq> CHR ''+''" by (auto simp: byte_is_digit_def ord_def)
  have "byte_lower c = c" using d by (auto simp: byte_lower_def byte_is_digit_def byte_is_upper_def)
  then have word: "to_ascii_lowercase (nat_str n) = c # map byte_lower cs"
    by (simp add: to_ascii_lowercase_def c)
  have "c \<noteq> CHR ''i''" "c \<noteq> CHR ''n''" using d by (auto simp: byte_is_digit_def ord_def)
  then have "to_ascii_lowercase (nat_str n) \<noteq> ''inf''" "to_ascii_lowercase (nat_str n) \<noteq> ''infinity''"
    "to_ascii_lowercase (nat_str n) \<noteq> ''nan''" by (simp_all add: word)
  moreover have "decimal_of (nat_str n) = Some (of_nat n)"
    by (rule digits_decimal [OF _ digits digits_val_nat_str]) simp
  ultimately show ?thesis
    using sign f_round_nat [OF n] by (simp add: parse_f64_def c f_nat_def)
qed

section \<open>Signs\<close>

definition not_negative :: "f64 \<Rightarrow> bool" where
  "not_negative x \<longleftrightarrow> (case x of NaN \<Rightarrow> True | Inf neg \<Rightarrow> \<not> neg | Fin neg m \<Rightarrow> 0 \<le> m \<and> (neg \<longrightarrow> m = 0))"

definition f_wf :: "f64 \<Rightarrow> bool" where
  "f_wf x \<longleftrightarrow> (case x of Fin neg m \<Rightarrow> 0 \<le> m | _ \<Rightarrow> True)"

lemma round_even_nonneg: "0 \<le> y \<Longrightarrow> 0 \<le> round_even y"
  by (simp add: round_even_def Let_def)

lemma round_mag_nonneg: "0 \<le> m \<Longrightarrow> round_mag m = Some r \<Longrightarrow> 0 \<le> r"
  by (auto simp: round_mag_def Let_def round_even_nonneg split: if_splits)

lemma f_round_0: "f_round neg 0 = Fin neg 0"
  by (simp add: f_round_def round_mag_def)

lemma f_round_wf: "0 \<le> m \<Longrightarrow> f_wf (f_round neg m)"
  using round_mag_nonneg by (auto simp: f_round_def f_wf_def split: option.split)

lemma f_round_not_negative: "0 \<le> m \<Longrightarrow> not_negative (f_round False m)"
  using round_mag_nonneg by (auto simp: f_round_def not_negative_def split: option.split)

lemma f_add_not_negative: "not_negative x \<Longrightarrow> not_negative y \<Longrightarrow> not_negative (f_add x y)"
  by (cases x; cases y)
    (auto simp: not_negative_def [of NaN] not_negative_def [of "Inf _"] not_negative_def [of "Fin _ _"]
      signed_def Let_def intro!: f_round_not_negative)

lemma f_mul_not_negative:
  "not_negative x \<Longrightarrow> not_negative (Fin False m) \<Longrightarrow> 0 < m \<Longrightarrow> not_negative (f_mul x (Fin False m))"
proof (cases x)
  case (Fin neg k)
  assume "not_negative x" "0 < m"
  with Fin have "0 \<le> k * m" "neg \<Longrightarrow> k = 0" by (auto simp: not_negative_def)
  with Fin show ?thesis
    using f_round_not_negative [of "k * m"]
    by (cases neg) (simp_all add: f_round_0 not_negative_def [of "Fin True 0"])
qed (auto simp: not_negative_def)

end
