(* ===== verification/Smil.thy ===== *)
theory Smil imports F64 Nav begin

text \<open>
  \<open>src/smil.rs\<close>: the media overlays, their clock values and their cues.  Clock values are \<open>f64\<close>
  (theory \<open>F64\<close>); the reader is the one of theory \<open>Xml\<close>, with the lenient settings of theory
  \<open>Nav\<close>.
\<close>

section \<open>Definitions\<close>

definition MAX_CUES :: usize where
  "MAX_CUES = 20000"

record cue =
  cue_text_href :: string
  cue_audio_href :: string
  cue_start_time :: f64
  cue_end_time :: f64
  cue_identifier :: string

definition new_cue :: cue where
  "new_cue = \<lparr>cue_text_href = [], cue_audio_href = [], cue_start_time = f_zero,
     cue_end_time = f_zero, cue_identifier = []\<rparr>"

record overlay =
  ov_source_href :: string
  ov_cues :: "cue list"

definition overlay_is_empty :: "overlay \<Rightarrow> bool" where
  "overlay_is_empty ov \<longleftrightarrow> ov_cues ov = []"

definition duration_ms :: "overlay \<Rightarrow> f64" where
  "duration_ms ov =
     f_mul (fold (\<lambda>c acc. f_max acc (cue_end_time c)) (ov_cues ov) f_zero) (f_nat 1000)"

text \<open>The fields of a clock value with colons, and how many there were.\<close>

fun clock_loop :: "f64 \<Rightarrow> nat \<Rightarrow> string list \<Rightarrow> (f64 \<times> nat) option" where
  "clock_loop seconds parts [] = Some (seconds, parts)"
| "clock_loop seconds parts (field # rest) =
     Option.bind (parse_f64 (trim field)) (\<lambda>part.
       if f_lt part f_zero then None
       else clock_loop (f_add (f_mul seconds (f_nat 60)) part) (Suc parts) rest)"

text \<open>The units, longest first, with their scale in seconds.\<close>

definition clock_units :: "(string \<times> f64) list" where
  "clock_units = [(''ms'', f_round False (1 / 1000)), (''min'', f_nat 60), (''h'', f_nat 3600),
     (''s'', f_nat 1)]"

fun timecount :: "(string \<times> f64) list \<Rightarrow> string \<Rightarrow> f64 option option" where
  "timecount [] v = None"
| "timecount ((unit_name, scale) # rest) v =
     (case strip_suffix unit_name v of
        Some number \<Rightarrow>
          Some (Option.bind (parse_f64 (trim number)) (\<lambda>n.
            if f_ge n f_zero then Some (f_mul n scale) else None))
      | None \<Rightarrow> timecount rest v)"

definition parse_clock :: "string \<Rightarrow> f64 option" where
  "parse_clock raw =
     (let v = trim raw
      in if v = [] then None
         else if CHR '':'' \<in> set v then
           Option.bind (clock_loop f_zero 0 (split_on CHR '':'' v)) (\<lambda>(seconds, parts).
             if 2 \<le> parts \<and> parts \<le> 3 then Some seconds else None)
         else case timecount clock_units v of
           Some r \<Rightarrow> r
         | None \<Rightarrow>
             Option.bind (parse_f64 v) (\<lambda>n.
               if f_ge n f_zero \<and> is_finite n then Some n else None))"

definition resolve_src :: "string \<Rightarrow> string \<Rightarrow> string" where
  "resolve_src base_dir raw =
     (let (path, fragment) =
            (case split_once CHR ''#'' raw of Some (p, f) \<Rightarrow> (p, Some f) | None \<Rightarrow> (raw, None))
      in if path = [] then []
         else case resolve base_dir path of
           Inr (Entry resolved) \<Rightarrow>
             (case fragment of
                Some f \<Rightarrow> if f \<noteq> [] then resolved @ ''#'' @ f else resolved
              | None \<Rightarrow> resolved)
         | _ \<Rightarrow> [])"

text \<open>The test of \<open>push\<close>: whether a cue says anything.\<close>

definition says_something :: "cue \<Rightarrow> bool" where
  "says_something c \<longleftrightarrow>
     \<not> (cue_text_href c = [] \<and> cue_audio_href c = [] \<and> f_eq (cue_end_time c) f_zero)"

definition push_cue :: "cue list \<Rightarrow> cue \<Rightarrow> cue list" where
  "push_cue cues c = (if says_something c then cues @ [c] else cues)"

definition flush_cue :: "cue list \<Rightarrow> cue option \<Rightarrow> cue list" where
  "flush_cue cues current = (case current of None \<Rightarrow> cues | Some c \<Rightarrow> push_cue cues c)"

definition with_text :: "string \<Rightarrow> xml_start \<Rightarrow> cue \<Rightarrow> cue" where
  "with_text base_dir start c = c\<lparr>cue_text_href := resolve_src base_dir (attribute start ''src'')\<rparr>"

definition with_audio :: "string \<Rightarrow> xml_start \<Rightarrow> cue \<Rightarrow> cue" where
  "with_audio base_dir start c =
     c\<lparr>cue_audio_href := resolve_src base_dir (attribute start ''src''),
       cue_start_time := opt_or (parse_clock (attribute start ''clipBegin'')) f_zero,
       cue_end_time := opt_or (parse_clock (attribute start ''clipEnd'')) f_zero\<rparr>"

definition overlay_tag ::
  "string \<Rightarrow> xml_start \<Rightarrow> cue list \<times> cue option \<Rightarrow> cue list \<times> cue option" where
  "overlay_tag base_dir start s =
     (case s of (cues, current) \<Rightarrow>
        if st_local start = ''par'' then
          (flush_cue cues current, Some (new_cue\<lparr>cue_identifier := attribute start ''id''\<rparr>))
        else if st_local start = ''text'' then (cues, map_option (with_text base_dir start) current)
        else if st_local start = ''audio'' then (cues, map_option (with_audio base_dir start) current)
        else (cues, current))"

definition overlay_step ::
  "string \<Rightarrow> xml_event \<Rightarrow> cue list \<times> cue option \<Rightarrow> cue list \<times> cue option" where
  "overlay_step base_dir ev s =
     (case ev of
        EvStart start \<Rightarrow> overlay_tag base_dir start s
      | EvEmpty start \<Rightarrow> overlay_tag base_dir start s
      | EvEnd local \<Rightarrow> if local = ''par'' then (flush_cue (fst s) (snd s), None) else s
      | _ \<Rightarrow> s)"

text \<open>The event loop, which stops when the overlay has all the cues it may.\<close>

fun overlay_loop ::
  "string \<Rightarrow> cue list \<times> cue option \<Rightarrow> xml_event list \<Rightarrow> cue list \<times> cue option" where
  "overlay_loop base_dir s [] = s"
| "overlay_loop base_dir s (ev # rest) =
     (let s' = overlay_step base_dir ev s
      in if length (fst s') \<ge> MAX_CUES then s' else overlay_loop base_dir s' rest)"

definition parse_overlay :: "xml_reader \<Rightarrow> string \<Rightarrow> string \<Rightarrow> overlay" where
  "parse_overlay reader bytes source_href =
     (let (cues, current) = overlay_loop (parent_dir source_href) ([], None)
            (ok_events (reader nav_settings bytes))
      in \<lparr>ov_source_href = source_href, ov_cues = flush_cue cues current\<rparr>)"

section \<open>Clock values\<close>

lemma nat_str_clean: "set (nat_str n) \<subseteq> {c. byte_is_digit c}"
  using nat_str_digits by blast

lemma trim_nat_str [simp]: "trim (nat_str n) = nat_str n"
proof (rule trim_visible)
  have v: "byte_is_digit c \<Longrightarrow> visible c" for c by (simp add: byte_is_digit_def visible_def)
  show "visible (hd (nat_str n))" "visible (last (nat_str n))"
    using nat_str_clean [of n] v by (auto simp: subset_iff)
qed simp

lemma clock_field:
  "n < 2 ^ 53 \<Longrightarrow> clock_loop s k (nat_str n # rest) = clock_loop (f_add (f_mul s (f_nat 60)) (f_nat n)) (Suc k) rest"
  by (simp add: parse_f64_nat_str f_nat_def f_zero_def signed_def)

lemma f_step_nat:
  "a * 60 + b < 2 ^ 53 \<Longrightarrow> f_add (f_mul (f_nat a) (f_nat 60)) (f_nat b) = f_nat (a * 60 + b)"
  using f_mul_nat [of a 60] f_add_nat [of "a * 60" b] by simp

lemma f_zero_nat: "f_zero = f_nat 0"
  by (simp add: f_zero_def f_nat_def)

lemma not_lt_not_negative: "f_wf x \<Longrightarrow> \<not> f_lt x f_zero \<Longrightarrow> not_negative x"
  by (cases x) (auto simp: f_wf_def f_zero_def signed_def not_negative_def split: if_splits)

lemma ge_not_negative: "f_wf x \<Longrightarrow> f_ge x f_zero \<Longrightarrow> not_negative x"
  by (cases x) (auto simp: f_wf_def f_zero_def signed_def not_negative_def f_ge_def split: if_splits)

lemma decimal_of_nonneg: "decimal_of s = Some m \<Longrightarrow> 0 \<le> m"
  by (auto simp: decimal_of_def Let_def bind_eq_Some_conv pow10_def split: prod.splits if_splits)

lemma parse_f64_wf: "parse_f64 s = Some x \<Longrightarrow> f_wf x"
  by (auto simp: parse_f64_def Let_def f_round_wf dest!: decimal_of_nonneg split: prod.splits if_splits)
    (simp_all add: f_wf_def)

lemma f_nat_pos: "0 < n \<Longrightarrow> not_negative x \<Longrightarrow> not_negative (f_mul x (f_nat n))"
  unfolding f_nat_def by (rule f_mul_not_negative) (simp_all add: not_negative_def)

lemma clock_loop_not_negative:
  "not_negative s \<Longrightarrow> clock_loop s k fs = Some (x, n) \<Longrightarrow> not_negative x"
proof (induction s k fs rule: clock_loop.induct)
  case (2 s k field rest)
  from 2(3) obtain part where part: "parse_f64 (trim field) = Some part" "\<not> f_lt part f_zero"
    and rest: "clock_loop (f_add (f_mul s (f_nat 60)) part) (Suc k) rest = Some (x, n)"
    by (auto simp: bind_eq_Some_conv split: if_splits)
  have "not_negative part" using part parse_f64_wf not_lt_not_negative by blast
  then have "not_negative (f_add (f_mul s (f_nat 60)) part)"
    using 2(2) f_nat_pos [of 60 s] by (intro f_add_not_negative) simp_all
  then show ?case using 2(1) part rest by blast
qed simp

lemma ms_scale: "f_round False (1 / 1000) = Fin False (4611686018427388 / 2 ^ 62)"
proof -
  have "quotient_of (1 / 1000) = (1, 1000)" by code_simp
  moreover have "bits 1000 = 10" by (simp add: bits.simps)
  ultimately have e: "mag_exp (1 / 1000) = - 10" by (simp add: mag_exp_def pow2_def)
  have "\<lfloor>576460752303423488 / 125 :: rat\<rfloor> = 4611686018427387" by (simp add: floor_eq_iff)
  then have r: "round_even (576460752303423488 / 125) = 4611686018427388"
    by (simp add: round_even_def Let_def)
  have "(4611686018427388 / 2 ^ 62 :: rat) < 1" by simp
  also have "(1::rat) \<le> pow2 1024" by (simp add: pow2_def del: power_numeral)
  finally have "(4611686018427388 / 2 ^ 62 :: rat) < pow2 1024" .
  then show ?thesis
    by (simp add: f_round_def round_mag_def e Let_def pow2_def [of "-62"] r)
qed

lemma clock_units_positive:
  "(u, scale) \<in> set clock_units \<Longrightarrow> not_negative x \<Longrightarrow> not_negative (f_mul x scale)"
proof -
  assume u: "(u, scale) \<in> set clock_units" and x: "not_negative x"
  then consider "scale = Fin False (4611686018427388 / 2 ^ 62)" | n where "scale = f_nat n" "0 < n"
    by (auto simp: clock_units_def ms_scale)
  then show ?thesis
  proof cases
    case 1
    show ?thesis unfolding 1 using x by (rule f_mul_not_negative) (simp_all add: not_negative_def)
  next
    case 2
    with x show ?thesis by (simp add: f_nat_pos)
  qed
qed

lemma timecount_not_negative:
  "set us \<subseteq> set clock_units \<Longrightarrow> timecount us v = Some (Some x) \<Longrightarrow> not_negative x"
proof (induction us v rule: timecount.induct)
  case (2 u scale rest v)
  show ?case
  proof (cases "strip_suffix u v")
    case None
    with 2 show ?thesis by simp
  next
    case (Some number)
    with 2(3) obtain n where n: "parse_f64 (trim number) = Some n" "f_ge n f_zero" "x = f_mul n scale"
      by (auto simp: bind_eq_Some_conv split: if_splits)
    have "not_negative n" using n(1,2) parse_f64_wf ge_not_negative by blast
    with 2(2) n(3) show ?thesis by (auto intro: clock_units_positive)
  qed
qed simp

lemma parse_clock_not_negative: "parse_clock raw = Some x \<Longrightarrow> not_negative x"
proof -
  assume run: "parse_clock raw = Some x"
  define v where "v = trim raw"
  have ne: "v \<noteq> []" using run by (auto simp: parse_clock_def v_def)
  have z: "not_negative f_zero" by (simp add: not_negative_def f_zero_def)
  show ?thesis
  proof (cases "CHR '':'' \<in> set v")
    case True
    then obtain n where "clock_loop f_zero 0 (split_on CHR '':'' v) = Some (x, n)"
      using run ne by (auto simp: parse_clock_def Let_def v_def [symmetric] bind_eq_Some_conv split: if_splits)
    with z show ?thesis by (rule clock_loop_not_negative)
  next
    case False
    show ?thesis
    proof (cases "timecount clock_units v")
      case None
      then obtain n where "parse_f64 v = Some n" "f_ge n f_zero" "x = n"
        using run ne False
        by (auto simp: parse_clock_def Let_def v_def [symmetric] bind_eq_Some_conv split: if_splits)
      then show ?thesis using parse_f64_wf ge_not_negative by blast
    next
      case (Some r)
      then have "r = Some x"
        using run ne False by (simp add: parse_clock_def Let_def v_def [symmetric])
      with Some show ?thesis by (intro timecount_not_negative [of clock_units v]) auto
    qed
  qed
qed

section \<open>Cues\<close>

lemma resolve_src_with_fragment: "resolve_src b raw = opt_or (resolve_with_fragment b raw) []"
  by (auto simp: resolve_src_def resolve_with_fragment_def Let_def split: prod.split option.split
      sum.split target.split)

text \<open>A cue that has only its identifier says nothing.\<close>

definition blank :: "cue \<Rightarrow> bool" where
  "blank c \<longleftrightarrow> cue_text_href c = [] \<and> cue_audio_href c = [] \<and> cue_end_time c = f_zero"

definition cue_ok :: "string \<Rightarrow> cue \<Rightarrow> bool" where
  "cue_ok b c \<longleftrightarrow> href_from b (cue_text_href c) \<and> href_from b (cue_audio_href c)
     \<and> not_negative (cue_start_time c) \<and> not_negative (cue_end_time c)"

definition overlay_inv :: "string \<Rightarrow> cue list \<times> cue option \<Rightarrow> bool" where
  "overlay_inv b s \<longleftrightarrow>
     list_all (\<lambda>c. cue_ok b c \<and> says_something c) (fst s) \<and> pred_option (cue_ok b) (snd s)
     \<and> (length (fst s) < MAX_CUES \<or> length (fst s) = MAX_CUES \<and> pred_option blank (snd s))"

lemma not_negative_zero [simp]: "not_negative f_zero"
  by (simp add: not_negative_def f_zero_def)

lemma cue_ok_new [simp]: "cue_ok b (new_cue\<lparr>cue_identifier := i\<rparr>)" "blank (new_cue\<lparr>cue_identifier := i\<rparr>)"
  by (simp_all add: cue_ok_def blank_def new_cue_def)

lemma parse_clock_or_zero [simp]: "not_negative (opt_or (parse_clock raw) f_zero)"
  by (cases "parse_clock raw") (auto dest: parse_clock_not_negative)

lemma cue_ok_with [simp]:
  "cue_ok b c \<Longrightarrow> cue_ok b (with_text b start c)" "cue_ok b c \<Longrightarrow> cue_ok b (with_audio b start c)"
  by (simp_all add: cue_ok_def with_text_def with_audio_def resolve_src_with_fragment)

lemma overlay_step_inv:
  assumes "overlay_inv b s" and "length (fst s) < MAX_CUES"
  shows "overlay_inv b (overlay_step b ev s)"
  using assms
  by (cases s; cases "snd s"; cases ev)
    (auto simp: overlay_inv_def overlay_step_def overlay_tag_def flush_cue_def push_cue_def)

lemma overlay_loop_inv:
  "overlay_inv b s \<Longrightarrow> length (fst s) < MAX_CUES \<Longrightarrow> overlay_inv b (overlay_loop b s evs)"
proof (induction b s evs rule: overlay_loop.induct)
  case (2 b s ev rest)
  have "overlay_inv b (overlay_step b ev s)" using 2(2,3) by (rule overlay_step_inv)
  then show ?case using 2(1) by (simp add: Let_def not_le)
qed simp

lemma blank_silent: "blank c \<Longrightarrow> \<not> says_something c"
  by (simp add: blank_def says_something_def f_zero_def signed_def)

lemma flush_inv:
  assumes "overlay_inv b (cues, current)"
  shows "list_all (\<lambda>c. cue_ok b c \<and> says_something c) (flush_cue cues current)
    \<and> length (flush_cue cues current) \<le> MAX_CUES"
  using assms blank_silent
  by (cases current) (auto simp: overlay_inv_def flush_cue_def push_cue_def)

text \<open>A par of an overlay, as a document has it.\<close>

record par =
  par_id :: string
  par_text :: string
  par_audio :: string
  par_begin :: string
  par_end :: string

definition render_par :: "par \<Rightarrow> xml_node" where
  "render_par p =
     Elem (tag ''par'' [written_attr ''id'' (par_id p)])
       [Void (tag ''text'' [written_attr ''src'' (par_text p)]),
        Void (tag ''audio'' [written_attr ''src'' (par_audio p),
          written_attr ''clipBegin'' (par_begin p), written_attr ''clipEnd'' (par_end p)])]"

definition render_overlay :: "par list \<Rightarrow> xml_node" where
  "render_overlay ps =
     Elem (tag ''smil'' []) [Elem (tag ''body'' []) (map render_par ps)]"

definition cue_of_par :: "string \<Rightarrow> par \<Rightarrow> cue" where
  "cue_of_par b p = \<lparr>cue_text_href = resolve_src b (par_text p),
     cue_audio_href = resolve_src b (par_audio p),
     cue_start_time = opt_or (parse_clock (par_begin p)) f_zero,
     cue_end_time = opt_or (parse_clock (par_end p)) f_zero,
     cue_identifier = par_id p\<rparr>"

lemma audio_attributes [simp]:
  "attribute (tag ''audio'' [written_attr ''src'' a, written_attr ''clipBegin'' x,
     written_attr ''clipEnd'' y]) ''src'' = a"
  "attribute (tag ''audio'' [written_attr ''src'' a, written_attr ''clipBegin'' x,
     written_attr ''clipEnd'' y]) ''clipBegin'' = x"
  "attribute (tag ''audio'' [written_attr ''src'' a, written_attr ''clipBegin'' x,
     written_attr ''clipEnd'' y]) ''clipEnd'' = y"
  by (simp_all add: tag_def written_attr_def attribute_def attribute_value_def)

lemma ok_events_flatten_Cons [simp]: "ok_events (Inr ev # rs) = ev # ok_events rs" "ok_events [] = []"
  by (simp_all add: ok_events_def)

lemma overlay_loop_step:
  "length (fst (overlay_step b ev s)) < MAX_CUES
   \<Longrightarrow> overlay_loop b s (ev # rest) = overlay_loop b (overlay_step b ev s) rest"
  by (simp add: Let_def)

lemma overlay_par:
  assumes "length cues < MAX_CUES" and "length (push_cue cues (cue_of_par b p)) < MAX_CUES"
  shows "overlay_loop b (cues, None) (ok_events (flatten (render_par p)) @ rest) =
    overlay_loop b (push_cue cues (cue_of_par b p), None) rest"
proof -
  define c1 where "c1 = new_cue\<lparr>cue_identifier := par_id p\<rparr>"
  define t where "t = tag ''text'' [written_attr ''src'' (par_text p)]"
  define a where "a = tag ''audio'' [written_attr ''src'' (par_audio p),
          written_attr ''clipBegin'' (par_begin p), written_attr ''clipEnd'' (par_end p)]"
  define c3 where "c3 = with_audio b a (with_text b t c1)"
  have c3: "c3 = cue_of_par b p"
    by (simp add: c3_def c1_def t_def a_def with_text_def with_audio_def new_cue_def cue_of_par_def)
  have names: "st_local t = ''text''" "st_local a = ''audio''" by (simp_all add: t_def a_def)
  have steps:
    "overlay_step b (EvStart (tag ''par'' [written_attr ''id'' (par_id p)])) (cues, None) = (cues, Some c1)"
    "overlay_step b (EvEmpty t) (cues, Some c1) = (cues, Some (with_text b t c1))"
    "overlay_step b (EvEmpty a) (cues, Some (with_text b t c1)) = (cues, Some c3)"
    "overlay_step b (EvEnd ''par'') (cues, Some c3) = (push_cue cues c3, None)"
    by (simp_all add: overlay_step_def overlay_tag_def flush_cue_def c1_def c3_def names)
  have "ok_events (flatten (render_par p)) =
      [EvStart (tag ''par'' [written_attr ''id'' (par_id p)]), EvEmpty t, EvEmpty a, EvEnd ''par'']"
    by (simp add: render_par_def t_def a_def)
  then show ?thesis
    using assms unfolding c3 [symmetric]
    by (simp only: append.simps overlay_loop_step steps fst_conv)
qed

lemma overlay_pars:
  assumes "length cues + length ps < MAX_CUES"
  shows "overlay_loop b (cues, None) (ok_events (flatten_all (map render_par ps)) @ rest) =
    overlay_loop b (cues @ filter says_something (map (cue_of_par b) ps), None) rest"
  using assms
proof (induction ps arbitrary: cues)
  case (Cons p ps)
  have len: "length (push_cue cues (cue_of_par b p)) + length ps < MAX_CUES"
    using Cons.prems by (simp add: push_cue_def)
  have "ok_events (flatten_all (map render_par (p # ps))) =
      ok_events (flatten (render_par p)) @ ok_events (flatten_all (map render_par ps))"
    by (simp add: ok_events_append flatten_ok)
  then have "overlay_loop b (cues, None) (ok_events (flatten_all (map render_par (p # ps))) @ rest) =
      overlay_loop b (push_cue cues (cue_of_par b p), None) (ok_events (flatten_all (map render_par ps)) @ rest)"
    using Cons.prems len by (simp only: append_assoc) (rule overlay_par, simp_all)
  also have "\<dots> = overlay_loop b (push_cue cues (cue_of_par b p)
      @ filter says_something (map (cue_of_par b) ps), None) rest"
    using len by (rule Cons.IH)
  finally show ?case by (simp add: push_cue_def)
qed simp

section \<open>Properties\<close>

text \<open>
  Property C24.  A clock value in hours, minutes and whole seconds is read exactly, through
  binary64 arithmetic that rounds at every step, as long as the total is below \<open>2 ^ 53\<close> seconds.
\<close>

theorem parse_clock_exact:
  assumes "h < 2 ^ 53" and "m < 2 ^ 53" and "s < 2 ^ 53" and "(h * 60 + m) * 60 + s < 2 ^ 53"
  shows "parse_clock (nat_str h @ '':'' @ nat_str m @ '':'' @ nat_str s) = Some (f_nat ((h * 60 + m) * 60 + s))"
proof -
  let ?v = "nat_str h @ '':'' @ nat_str m @ '':'' @ nat_str s"
  have no: "CHR '':'' \<notin> set (nat_str n)" for n
    using nat_str_clean [of n] by (auto simp: byte_is_digit_def ord_def)
  have vis: "byte_is_digit c \<Longrightarrow> visible c" for c by (simp add: byte_is_digit_def visible_def)
  have "hd ?v \<in> set (nat_str h)" "last ?v \<in> set (nat_str s)" by simp_all
  then have trim: "trim ?v = ?v"
    using nat_str_clean vis by (intro trim_visible) (simp, blast, blast)
  have split: "split_on CHR '':'' ?v = [nat_str h, nat_str m, nat_str s]"
    using no by (simp add: split_on_append_sep split_on_no_sep)
  have hm: "h * 60 + m < 2 ^ 53" using assms(4) by simp
  have "f_add (f_mul f_zero (f_nat 60)) (f_nat h) = f_nat h"
    unfolding f_zero_nat using f_step_nat [of 0 h] assms(1) by simp
  then have "clock_loop f_zero 0 [nat_str h, nat_str m, nat_str s] = Some (f_nat ((h * 60 + m) * 60 + s), 3)"
    using assms hm by (simp add: clock_field f_step_nat del: clock_loop.simps(2)) 
  then show ?thesis using trim split by (simp add: parse_clock_def)
qed

theorem parse_clock_exact_witness: "parse_clock ''1:2:3'' = Some (f_nat 3723)"
proof -
  have n: "nat_str 1 = ''1''" "nat_str 2 = ''2''" "nat_str 3 = ''3''" by code_simp+
  have ok: "(1::nat) < 2 ^ 53" "(2::nat) < 2 ^ 53" "(3::nat) < 2 ^ 53" "((1::nat) * 60 + 2) * 60 + 3 < 2 ^ 53"
    by simp_all
  show ?thesis
    using parse_clock_exact [OF ok] n by simp
qed

text \<open>
  A clock value is never negative.  It need not be a number either: the finiteness
  test is made on bare seconds only, so an infinite timecount and a NaN field are accepted.
\<close>

theorem parse_clock_never_negative:
  "pred_option not_negative (parse_clock raw)
   \<and> parse_clock ''infs'' = Some (Inf False) \<and> parse_clock ''nan:00'' = Some NaN
   \<and> parse_clock ''inf'' = None"
proof (intro conjI)
  show "pred_option not_negative (parse_clock raw)"
    by (cases "parse_clock raw") (auto dest: parse_clock_not_negative)
  have inf: "parse_f64 ''inf'' = Some (Inf False)" "trim ''inf'' = ''inf''" "trim ''infs'' = ''infs''"
    by code_simp+
  show "parse_clock ''nan:00'' = Some NaN" by code_simp
  show "parse_clock ''infs'' = Some (Inf False)" "parse_clock ''inf'' = None"
    by (simp_all add: parse_clock_def inf clock_units_def strip_suffix_def suffix_def f_ge_def
        f_zero_def f_nat_def)
qed

text \<open>
  Whatever the bytes of an overlay are, it has at most 20000 cues, each of which says
  something: its references are empty or safe paths with perhaps a fragment and its times are not
  negative.
\<close>

theorem overlay_bounded:
  assumes "safe_path source_href"
  shows "length (ov_cues (parse_overlay reader bytes source_href)) \<le> MAX_CUES
    \<and> list_all (\<lambda>c. says_something c \<and> href_safe (cue_text_href c) \<and> href_safe (cue_audio_href c)
         \<and> not_negative (cue_start_time c) \<and> not_negative (cue_end_time c))
        (ov_cues (parse_overlay reader bytes source_href))"
proof -
  let ?b = "parent_dir source_href"
  obtain cues current where s: "overlay_loop ?b ([], None) (ok_events (reader nav_settings bytes)) = (cues, current)"
    by fastforce
  have "overlay_inv ?b (cues, current)"
    using overlay_loop_inv [of ?b "([], None)" "ok_events (reader nav_settings bytes)"]
    by (simp add: s overlay_inv_def MAX_CUES_def)
  from flush_inv [OF this] show ?thesis
    using href_from_safe [OF parent_dir_safe [OF assms]]
    by (auto simp: parse_overlay_def s list_all_iff cue_ok_def)
qed

theorem overlay_bounded_witness:
  "\<forall>reader bytes. length (ov_cues (parse_overlay reader bytes ''OEBPS/a.smil'')) \<le> 20000"
proof -
  have p: "safe_path ''OEBPS/a.smil''" by code_simp
  show ?thesis using overlay_bounded [OF p] by (simp add: MAX_CUES_def)
qed

text \<open>
  Property C25.  An overlay written as a list of pars is read back par by par, in order, dropping
  only those that say nothing.
\<close>

theorem parse_overlay_render:
  assumes "reader nav_settings bytes = flatten (render_overlay ps)" and "length ps < MAX_CUES"
  shows "parse_overlay reader bytes source_href =
    \<lparr>ov_source_href = source_href,
     ov_cues = filter says_something (map (cue_of_par (parent_dir source_href)) ps)\<rparr>"
proof -
  let ?b = "parent_dir source_href"
  have evs: "ok_events (flatten (render_overlay ps)) =
      EvStart (tag ''smil'' []) # EvStart (tag ''body'' [])
      # ok_events (flatten_all (map render_par ps)) @ [EvEnd ''body'', EvEnd ''smil'']"
    by (simp add: render_overlay_def ok_events_append flatten_all_ok del: map_map)
  have len: "length (filter says_something (map (cue_of_par ?b) ps)) < MAX_CUES"
    by (rule le_less_trans [OF length_filter_le]) (simp add: assms(2))
  have skip: "overlay_step ?b (EvStart (tag ''smil'' [])) s = s"
    "overlay_step ?b (EvStart (tag ''body'' [])) s = s"
    "overlay_step ?b (EvEnd ''body'') s = s" "overlay_step ?b (EvEnd ''smil'') s = s" for s
    by (cases s; simp add: overlay_step_def overlay_tag_def)+
  have "overlay_loop ?b ([], None) (ok_events (flatten (render_overlay ps))) =
      (filter says_something (map (cue_of_par ?b) ps), None)"
    using len assms(2) overlay_pars [of "[]" ps ?b "[EvEnd ''body'', EvEnd ''smil'']"]
    by (simp add: evs skip MAX_CUES_def)
  then show ?thesis by (simp add: parse_overlay_def assms(1) flush_cue_def)
qed

theorem parse_overlay_render_witness:
  "map cue_text_href (ov_cues (parse_overlay (\<lambda>_ _. flatten (render_overlay
      [\<lparr>par_id = ''p1'', par_text = ''c1.xhtml#s1'', par_audio = ''../a.mp3'', par_begin = [],
        par_end = []\<rparr>,
       \<lparr>par_id = ''p2'', par_text = ''../../x'', par_audio = [], par_begin = [], par_end = []\<rparr>]))
     [] ''OEBPS/a.smil'')) = [''OEBPS/c1.xhtml#s1'']"
proof -
  let ?ps = "[\<lparr>par_id = ''p1'', par_text = ''c1.xhtml#s1'', par_audio = ''../a.mp3'', par_begin = [],
        par_end = []\<rparr>,
       \<lparr>par_id = ''p2'', par_text = ''../../x'', par_audio = [], par_begin = [], par_end = []\<rparr>]"
  have len: "length ?ps < MAX_CUES" by (simp add: MAX_CUES_def)
  have r: "map cue_text_href (filter says_something (map (cue_of_par (parent_dir ''OEBPS/a.smil'')) ?ps)) =
      [''OEBPS/c1.xhtml#s1'']" by code_simp
  show ?thesis
    using parse_overlay_render [where reader = "\<lambda>_ _. flatten (render_overlay ?ps)" and bytes = "[]"
        and source_href = "''OEBPS/a.smil''", OF refl len] r by (simp del: list.map filter.simps)
qed

end
