(* ===== verification/Datetime.thy ===== *)
theory Datetime imports RustStr "HOL-Library.Signed_Division" begin

text \<open>
  \<open>src/datetime.rs\<close>: W3CDTF dates read as instants.  The unsigned fields of the code (\<open>u32\<close>) are
  \<open>nat\<close> here, the signed ones (\<open>i64\<close>, \<open>i32\<close>) are \<open>int\<close>; \<open>parse_bounds\<close> shows every value stays
  well inside its width.  Division on signed values is Rust's, which truncates (\<open>sdiv\<close>).

  \<open>str::split_at\<close> panics at an index that is not a character boundary, so the reader of a
  timezone designator, and with it \<open>parse\<close>, can panic.
\<close>

section \<open>Definitions\<close>

record timestamp =
  seconds :: int
  nanos :: int

definition SECONDS_PER_DAY :: int where
  "SECONDS_PER_DAY = 86400"

definition days_in_month :: "int \<Rightarrow> nat \<Rightarrow> nat" where
  "days_in_month year month =
     (if month \<in> {1, 3, 5, 7, 8, 10, 12} then 31
      else if month \<in> {4, 6, 9, 11} then 30
      else if month = 2 \<and> year smod 4 = 0 \<and> (year smod 100 \<noteq> 0 \<or> year smod 400 = 0) then 29
      else if month = 2 then 28
      else 0)"

definition days_from_civil :: "int \<Rightarrow> nat \<Rightarrow> nat \<Rightarrow> int" where
  "days_from_civil year month day =
     (let month = int month;
          day = int day;
          year = (if month \<le> 2 then year - 1 else year);
          era = (if year \<ge> 0 then year else year - 399) sdiv 400;
          year_of_era = year - era * 400;
          day_of_year = (153 * (if month > 2 then month - 3 else month + 9) + 2) sdiv 5 + day - 1;
          day_of_era = year_of_era * 365 + year_of_era sdiv 4 - year_of_era sdiv 100 + day_of_year
      in era * 146097 + day_of_era - 719468)"

text \<open>\<open>field.parse()\<close> on a string already known to be all digits.\<close>

definition two_digits :: "string option \<Rightarrow> nat \<Rightarrow> nat option" where
  "two_digits field dflt =
     (case field of
        None \<Rightarrow> Some dflt
      | Some f \<Rightarrow>
          if f = [] \<or> length f > 2 \<or> \<not> list_all byte_is_digit f then None
          else parse_unsigned (2 ^ 32) f)"

definition date_parts :: "string \<Rightarrow> (int \<times> nat \<times> nat) option" where
  "date_parts date =
     (let parts = split_on CHR ''-'' date;
          year = hd parts
      in if length year \<noteq> 4 \<or> \<not> list_all byte_is_digit year then None
         else Option.bind (map_option int (parse_unsigned (2 ^ 63) year)) (\<lambda>year.
           if year = 0 then None
           else Option.bind (two_digits (get parts 1) 1) (\<lambda>month.
                Option.bind (two_digits (get parts 2) 1) (\<lambda>day.
                  if get parts 3 \<noteq> None \<or> \<not> (1 \<le> month \<and> month \<le> 12) then None
                  else if day < 1 \<or> day > days_in_month year month then None
                  else Some (year, month, day)))))"

fun fraction_digits :: "nat \<Rightarrow> string \<Rightarrow> int \<Rightarrow> int" where
  "fraction_digits 0 fraction ns = ns"
| "fraction_digits (Suc n) [] ns = fraction_digits n [] (ns * 10)"
| "fraction_digits (Suc n) (b # bs) ns =
     fraction_digits n bs (ns * 10 + (int (ord b) - 48))"

definition nanoseconds :: "string \<Rightarrow> int option" where
  "nanoseconds fraction =
     (if fraction = [] then Some 0
      else if \<not> list_all byte_is_digit fraction then None
      else Some (fraction_digits 9 fraction 0))"

definition strip_zulu :: "string \<Rightarrow> string option" where
  "strip_zulu clock =
     (case strip_suffix ''Z'' clock of Some t \<Rightarrow> Some t | None \<Rightarrow> strip_suffix ''z'' clock)"

text \<open>\<open>str::split_at\<close>, which panics inside a character or past the end.\<close>

definition split_at :: "string \<Rightarrow> nat \<Rightarrow> panic + string \<times> string" where
  "split_at s i =
     (if i = length s \<or> (i < length s \<and> \<not> is_cont (s ! i)) then Inr (take i s, drop i s)
      else Inl (Panic ''split_at''))"

definition designator_fields :: "string \<Rightarrow> panic + string \<times> string" where
  "designator_fields digits =
     (case split_once CHR '':'' digits of
        Some (hours, minutes) \<Rightarrow> Inr (hours, minutes)
      | None \<Rightarrow> if length digits = 4 then split_at digits 2 else Inr (digits, ''0''))"

definition offset_minutes :: "int \<Rightarrow> string \<Rightarrow> string \<Rightarrow> int option" where
  "offset_minutes sign hours minutes =
     Option.bind (two_digits (Some hours) 0) (\<lambda>hours.
     Option.bind (two_digits (Some minutes) 0) (\<lambda>minutes.
       if hours > 23 \<or> minutes > 59 then None
       else Some (sign * (int hours * 60 + int minutes))))"

definition split_offset :: "string \<Rightarrow> panic + (string \<times> int) option" where
  "split_offset clock =
     (case strip_zulu clock of
        Some time \<Rightarrow> Inr (Some (time, 0))
      | None \<Rightarrow>
          (case rfind_byte (\<lambda>c. c = CHR ''+'' \<or> c = CHR ''-'') clock of
             None \<Rightarrow> Inr (Some (clock, 0))
           | Some index \<Rightarrow>
               (let time = take index clock;
                    designator = drop index clock;
                    sign = (if prefix ''-'' designator then - 1 else 1)
                in and_then (designator_fields (drop 1 designator)) (\<lambda>(hours, minutes).
                     Inr (map_option (\<lambda>off. (time, off)) (offset_minutes sign hours minutes))))))"

definition clock_fields :: "string \<Rightarrow> int \<Rightarrow> (nat \<times> nat \<times> nat \<times> int \<times> int) option" where
  "clock_fields time off =
     (let parts = split_on CHR '':'' time
      in Option.bind (two_digits (get parts 0) 0) (\<lambda>hour.
         Option.bind (two_digits (get parts 1) 0) (\<lambda>minute.
         Option.bind
           (case get parts 2 of
              None \<Rightarrow> Some (0, 0)
            | Some field \<Rightarrow>
                (let (whole, fraction) =
                       (case split_once CHR ''.'' field of Some p \<Rightarrow> p | None \<Rightarrow> (field, []))
                 in Option.bind (two_digits (Some whole) 0) (\<lambda>s.
                      map_option (\<lambda>n. (s, n)) (nanoseconds fraction))))
           (\<lambda>(second, ns).
              if get parts 3 \<noteq> None \<or> hour > 23 \<or> minute > 59 \<or> second > 59 then None
              else Some (hour, minute, second, ns, off)))))"

definition clock_parts :: "string \<Rightarrow> panic + (nat \<times> nat \<times> nat \<times> int \<times> int) option" where
  "clock_parts clock =
     and_then (split_offset clock) (\<lambda>r.
       Inr (Option.bind r (\<lambda>(time, off). clock_fields time off)))"

definition is_separator :: "char \<Rightarrow> bool" where
  "is_separator c \<longleftrightarrow> c = CHR ''T'' \<or> c = CHR ''t'' \<or> c = CHR '' ''"

definition instant :: "int \<times> nat \<times> nat \<Rightarrow> nat \<times> nat \<times> nat \<times> int \<times> int \<Rightarrow> timestamp" where
  "instant ymd hms =
     (case ymd of (year, month, day) \<Rightarrow>
      case hms of (hour, minute, second, ns, off) \<Rightarrow>
        \<lparr>seconds = days_from_civil year month day * SECONDS_PER_DAY + int hour * 3600
            + int minute * 60 + int second - off * 60,
         nanos = ns\<rparr>)"

definition parse_date :: "string \<Rightarrow> panic + timestamp option" where
  "parse_date raw =
     (let text = trim raw
      in if text = [] then Inr None
         else (let (date, clock) =
                     (case find_byte is_separator text of
                        Some index \<Rightarrow> (take index text, drop (index + 1) text)
                      | None \<Rightarrow> (text, []))
               in (case date_parts date of
                     None \<Rightarrow> Inr None
                   | Some ymd \<Rightarrow>
                       and_then
                         (if clock = [] then Inr (Some (0, 0, 0, 0, 0)) else clock_parts clock)
                         (\<lambda>r. Inr (map_option (instant ymd) r)))))"

section \<open>The calendar\<close>

text \<open>The next day, by the month lengths alone.\<close>

definition next_day :: "int \<times> nat \<times> nat \<Rightarrow> int \<times> nat \<times> nat" where
  "next_day ymd =
     (case ymd of (y, m, d) \<Rightarrow>
        if d < days_in_month y m then (y, m, Suc d)
        else if m < 12 then (y, Suc m, 1)
        else (y + 1, 1, 1))"

definition valid_date :: "int \<times> nat \<times> nat \<Rightarrow> bool" where
  "valid_date ymd =
     (case ymd of (y, m, d) \<Rightarrow> 1 \<le> y \<and> 1 \<le> m \<and> m \<le> 12 \<and> 1 \<le> d \<and> d \<le> days_in_month y m)"

definition civil_days :: "int \<times> nat \<times> nat \<Rightarrow> int" where
  "civil_days ymd = (case ymd of (y, m, d) \<Rightarrow> days_from_civil y m d)"

definition leap :: "int \<Rightarrow> bool" where
  "leap y \<longleftrightarrow> 4 dvd y \<and> (\<not> 100 dvd y \<or> 400 dvd y)"

lemma sdiv_nonneg: "0 \<le> a \<Longrightarrow> 0 < b \<Longrightarrow> a sdiv b = a div b" for a b :: int
  by (simp add: signed_divide_int_def sgn_if)

lemma smod_zero_iff: "0 \<le> a \<Longrightarrow> 0 < b \<Longrightarrow> a smod b = 0 \<longleftrightarrow> b dvd a" for a b :: int
  by (cases "a = 0")
    (simp_all add: signed_modulo_int_def sdiv_nonneg dvd_eq_mod_eq_0 minus_div_mult_eq_mod sgn_if)

text \<open>Days before 1 March of a year, counted from year 0: the closed form of the era arithmetic.\<close>

definition year_days :: "int \<Rightarrow> int" where
  "year_days y = 365 * y + y div 4 - y div 100 + y div 400"

lemma era_arith:
  assumes "0 \<le> y"
  shows "y div 400 * 146097
     + ((y - y div 400 * 400) * 365 + (y - y div 400 * 400) div 4 - (y - y div 400 * 400) div 100)
   = year_days y"
proof -
  define e r where "e = y div 400" and "r = y mod 400"
  have y: "y = 400 * e + r" "0 \<le> r" "r < 400" by (simp_all add: e_def r_def)
  have "y - e * 400 = r" using y by simp
  moreover have "y div 4 = 100 * e + r div 4" "y div 100 = 4 * e + r div 100"
    using y(1) by simp_all
  ultimately show ?thesis using y(1) unfolding e_def [symmetric] year_days_def
    by (simp add: algebra_simps)
qed

lemma div_pred:
  fixes y k :: int
  assumes "0 < k"
  shows "y div k = (y - 1) div k + (if k dvd y then 1 else 0)"
proof (cases "k dvd y")
  case True
  then obtain q where q: "y = k * q" ..
  have "(k * q - 1) div k = q - 1"
    by (rule int_div_pos_eq [where r = "k - 1"]) (use assms in \<open>auto simp: algebra_simps\<close>)
  with q assms True show ?thesis by simp
next
  case False
  then have "y mod k \<noteq> 0" by (simp add: dvd_eq_mod_eq_0)
  then have r: "0 < y mod k" "y mod k < k"
    using assms pos_mod_sign [of k y] pos_mod_bound [of k y] by linarith+
  have "(y - 1) div k = y div k"
    by (rule int_div_pos_eq [where r = "y mod k - 1"]) (use r in \<open>auto simp: algebra_simps\<close>)
  with False show ?thesis by simp
qed

lemma year_days_step: "year_days y = year_days (y - 1) + (if leap y then 366 else 365)"
proof -
  have "(100::int) dvd 400" "(4::int) dvd 100" by simp_all
  then have dvds: "400 dvd y \<Longrightarrow> 100 dvd y" "100 dvd y \<Longrightarrow> 4 dvd y"
    by (blast intro: dvd_trans)+
  obtain a b c where abc: "a = (y - 1) div 4" "b = (y - 1) div 100" "c = (y - 1) div 400"
    by blast
  have divs: "y div 4 = a + (if 4 dvd y then 1 else 0)" "y div 100 = b + (if 100 dvd y then 1 else 0)"
    "y div 400 = c + (if 400 dvd y then 1 else 0)"
    unfolding abc by (rule div_pred, simp)+
  show ?thesis
    unfolding year_days_def leap_def divs abc [symmetric] using dvds
    by (cases "4 dvd y"; cases "100 dvd y"; cases "400 dvd y") simp_all
qed

lemma days_from_civil_early:
  assumes "1 \<le> y" "1 \<le> m" "m \<le> 2"
  shows "days_from_civil y m d =
    year_days (y - 1) + (153 * (int m + 9) + 2) div 5 + int d - 1 - 719468"
  using assms era_arith [of "y - 1"]
  by (simp add: days_from_civil_def Let_def sdiv_nonneg)

lemma days_from_civil_late:
  assumes "1 \<le> y" "3 \<le> m"
  shows "days_from_civil y m d =
    year_days y + (153 * (int m - 3) + 2) div 5 + int d - 1 - 719468"
  using assms era_arith [of y]
  by (simp add: days_from_civil_def Let_def sdiv_nonneg)

lemma days_in_month_leap: "1 \<le> y \<Longrightarrow> days_in_month y 2 = (if leap y then 29 else 28)"
  by (auto simp: days_in_month_def smod_zero_iff leap_def)

lemma month_cases:
  assumes "1 \<le> m" "m \<le> (12::nat)"
  obtains "m = 1" | "m = 2" | "m = 3" | "m = 4" | "m = 5" | "m = 6" | "m = 7" | "m = 8"
    | "m = 9" | "m = 10" | "m = 11" | "m = 12"
proof -
  have "m \<le> 12 \<longleftrightarrow> m \<in> {0, 1, 2, 3, 4, 5, 6, 7, 8, 9, 10, 11, 12}"
    by (simp add: numeral_eq_Suc le_Suc_eq) 
  with assms show thesis using that by fastforce
qed

lemma civil_days_next_day:
  assumes "valid_date (y, m, d)"
  shows "civil_days (next_day (y, m, d)) = civil_days (y, m, d) + 1"
proof -
  have y: "1 \<le> y" and m: "1 \<le> m" "m \<le> 12" and d: "1 \<le> d" "d \<le> days_in_month y m"
    using assms by (auto simp: valid_date_def)
  show ?thesis
  proof (cases "d < days_in_month y m")
    case True
    then show ?thesis by (simp add: next_day_def civil_days_def days_from_civil_def Let_def)
  next
    case False
    with d have d': "d = days_in_month y m" by simp
    note simps = next_day_def civil_days_def days_from_civil_early days_from_civil_late
    from m show ?thesis
    proof (cases rule: month_cases)
      case 2
      then show ?thesis using y d' year_days_step [of y] days_in_month_leap [OF y]
        by (simp add: simps)
    qed (use y d' in \<open>simp_all add: simps days_in_month_def\<close>)
  qed
qed

lemma next_day_valid: "valid_date (y, m, d) \<Longrightarrow> valid_date (next_day (y, m, d))"
  by (auto simp: valid_date_def next_day_def days_in_month_def)

section \<open>Bounds\<close>

lemma year_days_mono: "x \<le> y \<Longrightarrow> 365 * y - 365 * x \<le> year_days y - year_days x"
proof (induction "nat (y - x)" arbitrary: y)
  case 0
  then show ?case by simp
next
  case (Suc n)
  then have "n = nat (y - 1 - x)" "x \<le> y - 1" by linarith+
  then have "365 * (y - 1) - 365 * x \<le> year_days (y - 1) - year_days x" by (rule Suc.hyps(1))
  then show ?case using year_days_step [of y] by (simp split: if_splits)
qed

lemma days_in_month_le: "days_in_month y m \<le> 31"
  by (simp add: days_in_month_def)

lemma days_from_civil_bounds:
  assumes "valid_date (y, m, d)" and "y \<le> 9999"
  shows "- 719162 \<le> days_from_civil y m d" and "days_from_civil y m d \<le> 2932896"
proof -
  have y: "1 \<le> y" and m: "1 \<le> m" "m \<le> 12" and d: "1 \<le> d" "d \<le> days_in_month y m"
    using assms by (auto simp: valid_date_def)
  have d31: "d \<le> 31" using d(2) days_in_month_le [of y m] by linarith
  have lo: "0 \<le> year_days (y - 1)" and up: "year_days (y - 1) \<le> 3651694"
    using y assms(2) year_days_mono [of 0 "y - 1"] year_days_mono [of "y - 1" 9998]
    by (simp_all add: year_days_def [of 0] year_days_def [of 9998])
  have lo': "365 \<le> year_days y" and up': "year_days y \<le> 3652059"
    using y assms(2) year_days_mono [of 0 y] year_days_mono [of y 9999]
    by (simp_all add: year_days_def [of 0] year_days_def [of 9999])
  have "- 719162 \<le> days_from_civil y m d \<and> days_from_civil y m d \<le> 2932896"
    using m
  proof (cases rule: month_cases)
    case 1
    then show ?thesis using y d(1) d31 lo up by (simp add: days_from_civil_early)
  next
    case 2
    then show ?thesis using y d(1) d31 lo up by (simp add: days_from_civil_early)
  qed (use y d(1) d31 lo' up' in \<open>simp_all add: days_from_civil_late\<close>)
  then show "- 719162 \<le> days_from_civil y m d" and "days_from_civil y m d \<le> 2932896" by simp_all
qed

lemma digits_val_bound: "digits_val acc s = Some n \<Longrightarrow> n < (acc + 1) * 10 ^ length s"
proof (induction s arbitrary: acc)
  case Nil
  then show ?case by simp
next
  case (Cons c s)
  from Cons.prems obtain v where v: "digit_val c = Some v" "digits_val (10 * acc + v) s = Some n"
    by (auto split: option.splits)
  have "v < 10" using v(1) by (auto simp: digit_val_def byte_is_digit_def split: if_splits)
  have "n < (10 * acc + v + 1) * 10 ^ length s" using Cons.IH [OF v(2)] .
  also have "\<dots> \<le> (10 * acc + 10) * 10 ^ length s" using \<open>v < 10\<close> by (intro mult_right_mono) auto
  finally show ?case by (simp add: algebra_simps)
qed

lemma date_parts_valid:
  assumes "date_parts date = Some (y, m, d)"
  shows "valid_date (y, m, d) \<and> y \<le> 9999"
proof -
  define year where "year = hd (split_on CHR ''-'' date)"
  from assms obtain n where len: "length year = 4" and digits: "list_all byte_is_digit year"
    and n: "parse_unsigned (2 ^ 63) year = Some n" and y: "y = int n" "n \<noteq> 0"
    and md: "1 \<le> m" "m \<le> 12" "1 \<le> d" "d \<le> days_in_month y m"
    by (auto simp: date_parts_def Let_def bind_eq_Some_conv year_def not_less
        split: if_splits)
  obtain c cs where c: "year = c # cs" using len by (cases year) auto
  have "c \<noteq> CHR ''+''" using digits c by (auto simp: byte_is_digit_def ord_def)
  then have "digits_val 0 year = Some n" using n c
    by (auto simp: parse_unsigned_def Let_def split: option.splits if_splits)
  then have "n < 10000" using digits_val_bound len by force
  with y md show ?thesis by (auto simp: valid_date_def)
qed

lemma fraction_digits_bounds:
  "0 \<le> ns \<Longrightarrow> list_all byte_is_digit f
   \<Longrightarrow> 0 \<le> fraction_digits k f ns \<and> fraction_digits k f ns < (ns + 1) * 10 ^ k"
proof (induction k f ns rule: fraction_digits.induct)
  case (1 f ns)
  then show ?case by simp
next
  case (2 k ns)
  then have "0 \<le> fraction_digits k [] (ns * 10)" "fraction_digits k [] (ns * 10) < (ns * 10 + 1) * 10 ^ k"
    by auto
  moreover have "(ns * 10 + 1) * 10 ^ k \<le> (ns * 10 + 10) * (10 :: int) ^ k"
    by (rule mult_right_mono) simp_all
  moreover have "(ns * 10 + 10) * 10 ^ k = (ns + 1) * 10 ^ Suc k" by (simp add: algebra_simps)
  ultimately show ?case unfolding fraction_digits.simps by linarith
next
  case (3 k b bs ns)
  define v where "v = int (ord b) - 48"
  have v: "0 \<le> v" "v \<le> 9" using 3 by (auto simp: v_def byte_is_digit_def)
  with 3 have "0 \<le> fraction_digits k bs (ns * 10 + v)"
    "fraction_digits k bs (ns * 10 + v) < (ns * 10 + v + 1) * 10 ^ k"
    by (auto simp: v_def)
  moreover have "(ns * 10 + v + 1) * 10 ^ k \<le> (ns * 10 + 10) * 10 ^ k"
    using v by (intro mult_right_mono) auto
  moreover have "(ns * 10 + 10) * 10 ^ k = (ns + 1) * 10 ^ Suc k" by (simp add: algebra_simps)
  ultimately show ?case unfolding fraction_digits.simps v_def [symmetric] by linarith
qed

lemma nanoseconds_bounds: "nanoseconds f = Some n \<Longrightarrow> 0 \<le> n \<and> n < 1000000000"
  using fraction_digits_bounds [of 0 f 9] by (auto simp: nanoseconds_def split: if_splits)

lemma offset_minutes_bounds:
  "offset_minutes sign h m = Some v \<Longrightarrow> sign = 1 \<or> sign = - 1 \<Longrightarrow> \<bar>v\<bar> \<le> 1439"
  by (auto simp: offset_minutes_def bind_eq_Some_conv split: if_splits)

lemma split_offset_bounds: "split_offset clock = Inr (Some (time, v)) \<Longrightarrow> \<bar>v\<bar> \<le> 1439"
  by (auto simp: split_offset_def Let_def and_then_eq_Inr dest!: offset_minutes_bounds
      split: option.splits if_splits)

lemma clock_parts_bounds:
  assumes "clock_parts clock = Inr (Some (h, m, s, n, v))"
  shows "h \<le> 23 \<and> m \<le> 59 \<and> s \<le> 59 \<and> 0 \<le> n \<and> n < 1000000000 \<and> \<bar>v\<bar> \<le> 1439"
  using assms
  by (auto simp: clock_parts_def clock_fields_def Let_def and_then_eq_Inr bind_eq_Some_conv
      not_less dest: split_offset_bounds nanoseconds_bounds split: if_splits option.splits prod.splits)

lemma parse_date_Some:
  assumes "parse_date raw = Inr (Some t)"
  shows "\<exists>date clock ymd hms. date_parts date = Some ymd
    \<and> (hms = (0, 0, 0, 0, 0) \<or> clock_parts clock = Inr (Some hms)) \<and> t = instant ymd hms"
  using assms
  by (auto simp: parse_date_def Let_def and_then_eq_Inr split: if_splits option.splits) blast+

section \<open>Rendering\<close>

text \<open>The profile's own spelling of an instant, which \<open>parse_date\<close> is compared with.\<close>

definition pad2 :: "nat \<Rightarrow> string" where
  "pad2 n = [digit_char (n div 10), digit_char (n mod 10)]"

definition pad4 :: "nat \<Rightarrow> string" where
  "pad4 n = pad2 (n div 100) @ pad2 (n mod 100)"

definition render_date :: "nat \<times> nat \<times> nat \<Rightarrow> string" where
  "render_date ymd =
     (case ymd of (y, m, d) \<Rightarrow> pad4 y @ CHR ''-'' # pad2 m @ CHR ''-'' # pad2 d)"

definition render_clock :: "nat \<times> nat \<times> nat \<Rightarrow> string" where
  "render_clock hms =
     (case hms of (h, m, s) \<Rightarrow> pad2 h @ CHR '':'' # pad2 m @ CHR '':'' # pad2 s)"

definition render_offset :: "bool \<Rightarrow> nat \<times> nat \<Rightarrow> string" where
  "render_offset west hm =
     (case hm of (h, m) \<Rightarrow> (if west then CHR ''-'' else CHR ''+'') # pad2 h @ CHR '':'' # pad2 m)"

definition render_stamp ::
  "nat \<times> nat \<times> nat \<Rightarrow> nat \<times> nat \<times> nat \<Rightarrow> bool \<Rightarrow> nat \<times> nat \<Rightarrow> string" where
  "render_stamp ymd hms west off =
     render_date ymd @ CHR ''T'' # render_clock hms @ render_offset west off"

lemma digit_byte: "n < 10 \<Longrightarrow> byte_is_digit (digit_char n)"
  by (simp add: byte_is_digit_def)

lemma pad2_digits: "n < 100 \<Longrightarrow> list_all byte_is_digit (pad2 n)"
  by (simp add: pad2_def digit_byte)

lemma length_pad [simp]: "length (pad2 n) = 2" "length (pad4 n) = 4"
  by (simp_all add: pad2_def pad4_def)

lemma pad_not_Nil [simp]: "pad2 n \<noteq> []" "pad4 n \<noteq> []"
  by (simp_all add: pad2_def pad4_def)

lemma pad4_digits: "n < 10000 \<Longrightarrow> list_all byte_is_digit (pad4 n)"
  by (simp add: pad4_def pad2_digits)

lemma digits_val_pad2: "n < 100 \<Longrightarrow> digits_val a (pad2 n) = Some (100 * a + n)"
  by (simp add: pad2_def algebra_simps)

lemma digits_val_pad4: "n < 10000 \<Longrightarrow> digits_val a (pad4 n) = Some (10000 * a + n)"
  by (simp add: pad4_def digits_val_append digits_val_pad2)

lemma parse_unsigned_digits:
  assumes "s \<noteq> []" and "list_all byte_is_digit s" and "digits_val 0 s = Some n" and "int n < b"
  shows "parse_unsigned b s = Some n"
proof -
  obtain c cs where c: "s = c # cs" using assms(1) by (cases s) auto
  then have "c \<noteq> CHR ''+''" using assms(2) by (auto simp: byte_is_digit_def ord_def)
  with assms c show ?thesis by (simp add: parse_unsigned_def)
qed

lemma two_digits_pad2 [simp]: "n < 100 \<Longrightarrow> two_digits (Some (pad2 n)) k = Some n"
  by (simp add: two_digits_def pad2_digits digits_val_pad2 parse_unsigned_digits)

lemma parse_pad4 [simp]: "n < 10000 \<Longrightarrow> 10000 \<le> b \<Longrightarrow> parse_unsigned b (pad4 n) = Some n"
  by (rule parse_unsigned_digits) (simp_all add: pad4_digits digits_val_pad4)

lemma digits_avoid: "list_all byte_is_digit s \<Longrightarrow> \<not> byte_is_digit c \<Longrightarrow> c \<notin> set s"
  by (auto simp: list_all_iff)

lemma punctuation [simp]:
  "\<not> byte_is_digit CHR ''-''" "\<not> byte_is_digit CHR ''+''" "\<not> byte_is_digit CHR '':''"
  "\<not> byte_is_digit CHR ''T''" "\<not> byte_is_digit CHR ''t''" "\<not> byte_is_digit CHR '' ''"
  "\<not> byte_is_digit CHR ''Z''" "\<not> byte_is_digit CHR ''z''" "\<not> byte_is_digit CHR ''.''"
  by (simp_all add: byte_is_digit_def ord_def)

lemmas pad2_avoid = digits_avoid [OF pad2_digits]
lemmas pad4_avoid = digits_avoid [OF pad4_digits]

lemma date_parts_render:
  assumes "valid_date (int y, m, d)" and "y \<le> 9999"
  shows "date_parts (render_date (y, m, d)) = Some (int y, m, d)"
proof -
  have b: "y < 10000" "m < 100" "d < 100" "y \<noteq> 0" "d \<le> days_in_month (int y) m" "1 \<le> d" "1 \<le> m" "m \<le> 12"
    using assms days_in_month_le [of "int y" m] by (auto simp: valid_date_def)
  have "split_on CHR ''-'' (render_date (y, m, d)) = [pad4 y, pad2 m, pad2 d]"
    using b(1-3) by (simp add: render_date_def split_on_append_sep split_on_no_sep pad2_avoid pad4_avoid)
  with b show ?thesis by (simp add: date_parts_def Let_def get_def pad4_digits)
qed

lemma clock_fields_render:
  assumes "h \<le> 23" and "m \<le> 59" and "s \<le> 59"
  shows "clock_fields (render_clock (h, m, s)) v = Some (h, m, s, 0, v)"
proof -
  have "split_on CHR '':'' (render_clock (h, m, s)) = [pad2 h, pad2 m, pad2 s]"
    using assms by (simp add: render_clock_def split_on_append_sep split_on_no_sep pad2_avoid)
  moreover have "split_once CHR ''.'' (pad2 s) = None"
    using assms by (simp add: split_once_None pad2_avoid)
  ultimately show ?thesis using assms by (simp add: clock_fields_def get_def nanoseconds_def)
qed

lemma split_offset_render:
  assumes "\<forall>c\<in>set t. c \<noteq> CHR ''+'' \<and> c \<noteq> CHR ''-''" and "h \<le> 23" and "m \<le> 59"
  shows "split_offset (t @ render_offset west (h, m)) =
    Inr (Some (t, (if west then - 1 else 1) * (int h * 60 + int m)))"
proof -
  let ?sign = "if west then CHR ''-'' else CHR ''+''"
  let ?hm = "pad2 h @ CHR '':'' # pad2 m"
  have digits: "byte_is_digit (last (pad2 m))" using assms(3) by (simp add: pad2_def digit_byte)
  have "last (t @ render_offset west (h, m)) = last (pad2 m)" by (simp add: render_offset_def)
  then have "\<not> suffix ''Z'' (t @ render_offset west (h, m))" "\<not> suffix ''z'' (t @ render_offset west (h, m))"
    using digits punctuation by (metis last_snoc suffix_def)+
  then have z: "strip_zulu (t @ render_offset west (h, m)) = None"
    by (simp add: strip_zulu_def strip_suffix_def)
  have "\<forall>c\<in>set ?hm. \<not> (c = CHR ''+'' \<or> c = CHR ''-'')"
    using assms(2,3) by (auto simp: pad2_avoid)
  then have r: "rfind_byte (\<lambda>c. c = CHR ''+'' \<or> c = CHR ''-'') (t @ ?sign # ?hm) = Some (length t)"
    by (rule rfind_byte_append) simp
  have "split_once CHR '':'' ?hm = Some (pad2 h, pad2 m)"
    using assms(2) by (simp add: split_once_Some pad2_avoid)
  with z r assms(2,3) show ?thesis
    by (simp add: split_offset_def render_offset_def designator_fields_def offset_minutes_def)
qed

lemma digit_visible: "byte_is_digit c \<Longrightarrow> visible c"
  by (simp add: byte_is_digit_def visible_def)

lemma digit_not_separator: "byte_is_digit c \<Longrightarrow> \<not> is_separator c"
  by (auto simp: is_separator_def)

lemma render_date_parts:
  assumes "y < 10000" and "m < 100" and "d < 100"
  shows "\<forall>c\<in>set (render_date (y, m, d)). \<not> is_separator c"
proof -
  have "\<forall>c\<in>set (render_date (y, m, d)). byte_is_digit c \<or> c = CHR ''-''"
    using assms pad4_digits [of y] pad2_digits [of m] pad2_digits [of d]
    by (auto simp: render_date_def list_all_iff)
  then show ?thesis by (auto simp: is_separator_def)
qed

lemma render_date_ends:
  assumes "y < 10000" and "d < 100"
  shows "visible (hd (render_date (y, m, d)))" and "visible (last (render_date (y, m, d)))"
  using assms
  by (simp_all add: render_date_def pad4_def pad2_def digit_byte digit_visible)

section \<open>Panics\<close>

lemma ascii_not_cont: "ord c < 128 \<Longrightarrow> \<not> is_cont c"
  by (simp add: is_cont_def)

lemma split_at_ascii:
  assumes "\<forall>c\<in>set s. ord c < 128" and "i \<le> length s"
  shows "split_at s i = Inr (take i s, drop i s)"
  using assms by (auto simp: split_at_def ascii_not_cont)

lemma designator_fields_ascii:
  "\<forall>c\<in>set s. ord c < 128 \<Longrightarrow> \<exists>p. designator_fields s = Inr p"
  by (auto simp: designator_fields_def split_at_ascii split: option.split)

lemma split_offset_ascii:
  assumes "\<forall>c\<in>set s. ord c < 128"
  shows "\<exists>r. split_offset s = Inr r"
proof -
  have "\<exists>p. designator_fields (drop 1 (drop i s)) = Inr p" for i
    by (rule designator_fields_ascii) (use assms in \<open>auto dest!: in_set_dropD\<close>)
  then have fields: "\<exists>h m. designator_fields (drop 1 (drop i s)) = Inr (h, m)" for i by simp
  show ?thesis
  proof (cases "strip_zulu s")
    case (Some t)
    then show ?thesis by (simp add: split_offset_def)
  next
    case None
    show ?thesis
    proof (cases "rfind_byte (\<lambda>c. c = CHR ''+'' \<or> c = CHR ''-'') s")
      case r: None
      with None show ?thesis by (simp add: split_offset_def)
    next
      case (Some i)
      from fields [of i] obtain h m where "designator_fields (drop 1 (drop i s)) = Inr (h, m)" by blast
      with None Some show ?thesis by (simp add: split_offset_def Let_def)
    qed
  qed
qed

section \<open>Properties\<close>

text \<open>
  Property C26.  The calendar conversion is the day count: the epoch is day 0, and the day after
  a valid date, stepped by the Gregorian month lengths alone, is one day later.
\<close>

theorem civil_days_counts:
  assumes "valid_date (y, m, d)"
  shows "civil_days (1970, 1, 1) = 0
    \<and> valid_date (next_day (y, m, d)) \<and> civil_days (next_day (y, m, d)) = civil_days (y, m, d) + 1"
proof (intro conjI)
  show "civil_days (1970, 1, 1) = 0" by code_simp
  show "valid_date (next_day (y, m, d))" by (rule next_day_valid [OF assms])
  show "civil_days (next_day (y, m, d)) = civil_days (y, m, d) + 1"
    by (rule civil_days_next_day [OF assms])
qed

theorem civil_days_counts_witness:
  "civil_days (2024, 2, 28) = 19781 \<and> civil_days (2024, 2, 29) = 19782"
proof -
  have v: "valid_date (2024, 2, 28)" by code_simp
  have "next_day (2024, 2, 28) = (2024, 2, 29)" "civil_days (2024, 2, 28) = 19781" by code_simp+
  with civil_days_counts [OF v] show ?thesis by simp
qed

text \<open>
  Whatever instant \<open>parse\<close> reads, its nanoseconds are a fraction of a second and
  its seconds are within a day of the years 0001 to 9999, so no arithmetic of the code leaves
  \<open>i64\<close> or \<open>i32\<close>; but the offset can carry them outside the range a \<open>Timestamp\<close> allows.
\<close>

theorem parse_date_bounds:
  assumes "parse_date raw = Inr (Some t)"
  shows "0 \<le> nanos t \<and> nanos t < 1000000000
    \<and> - 62135596800 - 86340 \<le> seconds t \<and> seconds t \<le> 253402300799 + 86340"
proof -
  from parse_date_Some [OF assms] obtain date clock y m d h mi s n v
    where date: "date_parts date = Some (y, m, d)"
      and clock: "(h, mi, s, n, v) = (0, 0, 0, 0, 0) \<or> clock_parts clock = Inr (Some (h, mi, s, n, v))"
      and t: "t = instant (y, m, d) (h, mi, s, n, v)"
    by (metis prod_cases5 prod_cases3)
  have "h \<le> 23 \<and> mi \<le> 59 \<and> s \<le> 59 \<and> 0 \<le> n \<and> n < 1000000000 \<and> \<bar>v\<bar> \<le> 1439"
    using clock by (auto dest: clock_parts_bounds)
  moreover have "- 719162 \<le> days_from_civil y m d" "days_from_civil y m d \<le> 2932896"
    using date_parts_valid [OF date] days_from_civil_bounds by blast+
  ultimately show ?thesis by (auto simp: t instant_def SECONDS_PER_DAY_def abs_le_iff)
qed

theorem parse_date_bounds_witness:
  "parse_date ''0001-01-01T00:00+23:59'' = Inr (Some \<lparr>seconds = - 62135683140, nanos = 0\<rparr>)
   \<and> - 62135596800 - 86340 \<le> (- 62135683140 :: int)"
proof -
  have run: "parse_date ''0001-01-01T00:00+23:59'' =
      Inr (Some \<lparr>seconds = - 62135683140, nanos = 0\<rparr>)" by code_simp
  show ?thesis using run parse_date_bounds [OF run] by simp
qed

text \<open>
  Property C27.  Reading back the profile's full spelling of an instant gives that instant: the
  calendar day, the time of day, less the offset east of UTC.
\<close>

theorem parse_render_stamp:
  assumes "valid_date (int y, m, d)" and "y \<le> 9999"
    and "h \<le> 23" and "mi \<le> 59" and "s \<le> 59" and "oh \<le> 23" and "om \<le> 59"
  shows "parse_date (render_stamp (y, m, d) (h, mi, s) west (oh, om)) =
    Inr (Some \<lparr>seconds = civil_days (int y, m, d) * 86400 + int h * 3600 + int mi * 60 + int s
                 - (if west then - 1 else 1) * (int oh * 60 + int om) * 60,
               nanos = 0\<rparr>)"
proof -
  let ?date = "render_date (y, m, d)" and ?clock = "render_clock (h, mi, s)"
  let ?text = "render_stamp (y, m, d) (h, mi, s) west (oh, om)"
  have b: "y < 10000" "m < 100" "d < 100"
    using assms(1,2) days_in_month_le [of "int y" m] by (auto simp: valid_date_def)
  have ne: "?date \<noteq> []" by (simp add: render_date_def)
  have "hd ?text = hd ?date" using ne by (simp add: render_stamp_def)
  moreover have "visible (last ?text)"
    using assms(6,7) by (simp add: render_stamp_def render_offset_def pad2_def digit_byte digit_visible)
  ultimately have trim: "trim ?text = ?text"
    using render_date_ends(1) [OF b(1) b(3)] by (intro trim_visible) (simp_all add: render_stamp_def)
  have sep: "find_byte is_separator ?text = Some (length ?date)"
    unfolding render_stamp_def
    by (rule find_byte_append [OF render_date_parts [OF b]]) (simp add: is_separator_def)
  have plain: "\<forall>c\<in>set ?clock. c \<noteq> CHR ''+'' \<and> c \<noteq> CHR ''-''"
    using assms(3-5) by (auto simp: render_clock_def pad2_avoid)
  have "clock_parts (?clock @ render_offset west (oh, om)) =
    Inr (Some (h, mi, s, 0, (if west then - 1 else 1) * (int oh * 60 + int om)))"
    by (simp add: clock_parts_def split_offset_render [OF plain assms(6,7)]
        clock_fields_render [OF assms(3-5)])
  moreover have "?clock \<noteq> []" by (simp add: render_clock_def)
  moreover have "take (length ?date) ?text = ?date"
    "drop (length ?date + 1) ?text = ?clock @ render_offset west (oh, om)" "?text \<noteq> []"
    by (simp_all add: render_stamp_def)
  ultimately show ?thesis using trim sep
    by (simp add: parse_date_def Let_def date_parts_render [OF assms(1,2)] instant_def
        SECONDS_PER_DAY_def civil_days_def)
qed

theorem parse_render_stamp_witness:
  "parse_date ''2026-08-25T07:00:00-05:00'' = Inr (Some \<lparr>seconds = 1787659200, nanos = 0\<rparr>)"
proof -
  have v: "valid_date (int 2026, 8, 25)" by code_simp
  have r: "render_stamp (2026, 8, 25) (7, 0, 0) True (5, 0) = ''2026-08-25T07:00:00-05:00''"
    by code_simp
  have c: "civil_days (int 2026, 8, 25) = 20690" by code_simp
  show ?thesis using parse_render_stamp [OF v, of 7 0 0 5 0 True] unfolding r c by simp
qed

text \<open>
  Reading an ASCII date never panics.  The bytes have to be ASCII: the four-byte
  offset of the second date holds a two-byte character across the point where the code splits it.
\<close>

theorem parse_date_ascii:
  assumes "list_all (\<lambda>c. ord c < 128) raw"
  shows "\<not> isl (parse_date raw)
    \<and> parse_date (''2026-08-25T12:00+a'' @ [CHR 0xC3, CHR 0xA9] @ ''b'') = Inl (Panic ''split_at'')"
proof
  have "\<forall>c\<in>set (trim raw). ord c < 128"
    using assms set_trim [of raw] by (auto simp: list_all_iff)
  then have "\<exists>r. split_offset (drop i (trim raw)) = Inr r" for i
    by (intro split_offset_ascii) (auto dest!: in_set_dropD)
  then have "\<exists>r. clock_parts (drop i (trim raw)) = Inr r" for i
    by (metis and_then_simps(2) clock_parts_def)
  then obtain f where f: "\<And>i. clock_parts (drop i (trim raw)) = Inr (f i)" by metis
  show "\<not> isl (parse_date raw)"
    by (simp add: parse_date_def Let_def f split: option.split)
  show "parse_date (''2026-08-25T12:00+a'' @ [CHR 0xC3, CHR 0xA9] @ ''b'') = Inl (Panic ''split_at'')"
    by code_simp
qed

theorem parse_date_ascii_witness: "\<not> isl (parse_date ''sometime in 1843'')"
proof -
  have "list_all (\<lambda>c. ord c < 128) ''sometime in 1843''" by code_simp
  then show ?thesis by (rule parse_date_ascii [THEN conjunct1])
qed

end
