(* ===== verification/Metrics.thy ===== *)
theory Metrics imports RustStr begin

text \<open>
  \<open>src/metrics.rs\<close>: the process counters.  Each operation is one \<open>fetch_add\<close>, which wraps; the
  snapshot reads every counter and \<open>snapshot_line\<close> is its \<open>Display\<close>.  The reporter prints one
  line a tick for as long as the counters live.
\<close>

record metrics =
  parses_started :: u64
  parses_succeeded :: u64
  parses_failed :: u64
  chapters_emitted :: u64
  resources_emitted :: u64
  bytes_uploaded :: u64
  bytes_inflated :: u64

definition new_metrics :: metrics where
  "new_metrics = \<lparr>parses_started = 0, parses_succeeded = 0, parses_failed = 0, chapters_emitted = 0,
     resources_emitted = 0, bytes_uploaded = 0, bytes_inflated = 0\<rparr>"

definition parse_started :: "metrics \<Rightarrow> metrics" where
  "parse_started m = m\<lparr>parses_started := parses_started m + 1\<rparr>"

definition parse_succeeded :: "metrics \<Rightarrow> metrics" where
  "parse_succeeded m = m\<lparr>parses_succeeded := parses_succeeded m + 1\<rparr>"

definition parse_failed :: "metrics \<Rightarrow> metrics" where
  "parse_failed m = m\<lparr>parses_failed := parses_failed m + 1\<rparr>"

definition chapter_emitted :: "metrics \<Rightarrow> metrics" where
  "chapter_emitted m = m\<lparr>chapters_emitted := chapters_emitted m + 1\<rparr>"

definition resource_emitted :: "metrics \<Rightarrow> metrics" where
  "resource_emitted m = m\<lparr>resources_emitted := resources_emitted m + 1\<rparr>"

definition uploaded :: "u64 \<Rightarrow> metrics \<Rightarrow> metrics" where
  "uploaded n m = m\<lparr>bytes_uploaded := bytes_uploaded m + n\<rparr>"

definition inflated :: "u64 \<Rightarrow> metrics \<Rightarrow> metrics" where
  "inflated n m = m\<lparr>bytes_inflated := bytes_inflated m + n\<rparr>"

definition snapshot :: "metrics \<Rightarrow> metrics" where
  "snapshot m = \<lparr>parses_started = parses_started m, parses_succeeded = parses_succeeded m,
     parses_failed = parses_failed m, chapters_emitted = chapters_emitted m,
     resources_emitted = resources_emitted m, bytes_uploaded = bytes_uploaded m,
     bytes_inflated = bytes_inflated m\<rparr>"

definition snapshot_line :: "metrics \<Rightarrow> message" where
  "snapshot_line s =
     [Lit ''grpc-epub metrics parses_started='', Num (unat (parses_started s)),
      Lit '' parses_succeeded='', Num (unat (parses_succeeded s)),
      Lit '' parses_failed='', Num (unat (parses_failed s)),
      Lit '' chapters_emitted='', Num (unat (chapters_emitted s)),
      Lit '' resources_emitted='', Num (unat (resources_emitted s)),
      Lit '' bytes_uploaded='', Num (unat (bytes_uploaded s)),
      Lit '' bytes_inflated='', Num (unat (bytes_inflated s))]"

text \<open>
  \<open>spawn_reporter\<close>: what it prints, given what its weak reference to the counters upgrades to at each
  tick.  The first tick fires at once and is skipped before any upgrade.
\<close>

fun report_ticks :: "metrics option list \<Rightarrow> message list" where
  "report_ticks [] = []"
| "report_ticks (None # ticks) = []"
| "report_ticks (Some m # ticks) = snapshot_line (snapshot m) # report_ticks ticks"

definition spawn_reporter :: "nat \<Rightarrow> metrics option list \<Rightarrow> message list" where
  "spawn_reporter interval upgrades = (if interval = 0 then [] else report_ticks upgrades)"

lemma report_ticks_lines:
  "report_ticks upgrades = map (\<lambda>m. snapshot_line (snapshot (the m))) (takeWhile (\<lambda>m. m \<noteq> None) upgrades)"
  by (induction upgrades rule: report_ticks.induct) simp_all

end
