(* ===== verification/WireEnum.thy ===== *)
theory WireEnum imports Prelude begin

text \<open>
  What prost generates for a protobuf enumeration: variants, each with a number on the wire and a
  name, and a function that reads a name.  \<open>wire_enum\<close> is the contract of the generated functions;
  every enumeration of the generated code interprets it.
\<close>

text \<open>What tells two literals apart, character by character from the left.\<close>

lemmas literals_apart = distinct.simps list.set insert_iff empty_iff list.inject list.distinct
  char.inject simp_thms map_of.simps fun_upd_apply fst_conv snd_conv if_True if_False

locale wire_enum =
  fixes variants :: "'a set"
    and wire_number :: "'a \<Rightarrow> int"
    and str_name :: "'a \<Rightarrow> string"
    and from_str_name :: "string \<Rightarrow> 'a option"
  assumes numbers_apart: "inj_on wire_number variants"
    and name_reads: "a \<in> variants \<Longrightarrow> from_str_name (str_name a) = Some a"
    and reads_names: "from_str_name s = Some a \<Longrightarrow> a \<in> variants \<and> s = str_name a"
begin

lemma from_str_name_iff: "from_str_name s = Some a \<longleftrightarrow> a \<in> variants \<and> s = str_name a"
  using name_reads reads_names by blast

lemma names_apart: "inj_on str_name variants"
  by (rule inj_onI) (metis name_reads option.inject)

lemma from_str_name_None: "from_str_name s = None \<longleftrightarrow> s \<notin> str_name ` variants"
  using name_reads reads_names by (cases "from_str_name s") auto

end

lemma wire_enum_arms:
  assumes "\<And>a b. num a = num b \<Longrightarrow> a = b"
    and "\<And>a. rd (nm a) = Some a" and "\<And>s a. rd s = Some a \<Longrightarrow> s = nm a"
  shows "wire_enum UNIV num nm rd"
  by unfold_locales (use assms in \<open>auto intro: injI\<close>)

text \<open>
  Variants numbered from zero without a gap are given by their number; \<open>tags\<close> are what follows the
  prefix all names share.
\<close>

definition numbered_str_name :: "string \<Rightarrow> string list \<Rightarrow> int \<Rightarrow> string" where
  "numbered_str_name pre tags n = pre @ tags ! nat n"

definition numbered_from_str_name :: "string \<Rightarrow> string list \<Rightarrow> string \<Rightarrow> int option" where
  "numbered_from_str_name pre tags =
     map_of (map (\<lambda>(n, tag). (pre @ tag, int n)) (enumerate 0 tags))"

lemma wire_enum_numbered:
  assumes "distinct tags"
  shows "wire_enum {0..<int (length tags)} id (numbered_str_name pre tags) (numbered_from_str_name pre tags)"
proof
  let ?arms = "map (\<lambda>(n, tag). (pre @ tag, int n)) (enumerate 0 tags)"
  have keys: "map fst ?arms = map ((@) pre) tags"
    by (rule nth_equalityI) (simp_all add: nth_enumerate_eq)
  have apart: "distinct (map fst ?arms)"
    unfolding keys using assms by (simp add: distinct_map inj_on_def)
  show "numbered_from_str_name pre tags (numbered_str_name pre tags a) = Some a"
    if "a \<in> {0..<int (length tags)}" for a
  proof -
    have "(pre @ tags ! nat a, a) \<in> set ?arms"
      unfolding set_map by (rule image_eqI [of _ _ "(nat a, tags ! nat a)"])
        (use that in \<open>simp_all add: in_set_enumerate_eq nat_less_iff\<close>)
    then show ?thesis
      using apart by (simp add: numbered_from_str_name_def numbered_str_name_def map_of_is_SomeI)
  qed
  show "a \<in> {0..<int (length tags)} \<and> s = numbered_str_name pre tags a"
    if "numbered_from_str_name pre tags s = Some a" for s a
    using map_of_SomeD [OF that [unfolded numbered_from_str_name_def]]
    by (auto simp: numbered_str_name_def in_set_enumerate_eq)
qed simp

end
