(* ===== verification/Messages.thy ===== *)
theory Messages imports F64 ServerLimits WireEnum begin

text \<open>
  The wire messages of \<open>ai.pipestream.epub.v1\<close> (\<open>src/gen/ai/pipestream/epub/v1/\<close>): the events of a
  response stream, the frames of a request stream and what they carry.  Each record is one message
  and its fields are the message's in order, with a prefix of its own.  An enumeration field is the
  number \<open>kind_number\<close> or \<open>warning_number\<close> gives, an \<open>i32\<close> on the wire.

  The projected document of \<open>ParseEpubResponse\<close> is a type parameter here.
\<close>

section \<open>Enumerations\<close>

datatype resource_kind =
  KindUnspecified | KindDocument | KindImage | KindStylesheet | KindFont | KindAudio | KindVideo
  | KindOther

fun kind_number :: "resource_kind \<Rightarrow> int" where
  "kind_number KindUnspecified = 0"
| "kind_number KindDocument = 1"
| "kind_number KindImage = 2"
| "kind_number KindStylesheet = 3"
| "kind_number KindFont = 4"
| "kind_number KindAudio = 5"
| "kind_number KindVideo = 6"
| "kind_number KindOther = 7"

fun kind_str_name :: "resource_kind \<Rightarrow> string" where
  "kind_str_name KindUnspecified = ''RESOURCE_KIND_UNSPECIFIED''"
| "kind_str_name KindDocument = ''RESOURCE_KIND_DOCUMENT''"
| "kind_str_name KindImage = ''RESOURCE_KIND_IMAGE''"
| "kind_str_name KindStylesheet = ''RESOURCE_KIND_STYLESHEET''"
| "kind_str_name KindFont = ''RESOURCE_KIND_FONT''"
| "kind_str_name KindAudio = ''RESOURCE_KIND_AUDIO''"
| "kind_str_name KindVideo = ''RESOURCE_KIND_VIDEO''"
| "kind_str_name KindOther = ''RESOURCE_KIND_OTHER''"

definition all_kinds :: "resource_kind list" where
  "all_kinds = [KindUnspecified, KindDocument, KindImage, KindStylesheet, KindFont, KindAudio,
     KindVideo, KindOther]"

definition kind_from_str_name :: "string \<Rightarrow> resource_kind option" where
  "kind_from_str_name s =
     (if s = ''RESOURCE_KIND_UNSPECIFIED'' then Some KindUnspecified
      else if s = ''RESOURCE_KIND_DOCUMENT'' then Some KindDocument
      else if s = ''RESOURCE_KIND_IMAGE'' then Some KindImage
      else if s = ''RESOURCE_KIND_STYLESHEET'' then Some KindStylesheet
      else if s = ''RESOURCE_KIND_FONT'' then Some KindFont
      else if s = ''RESOURCE_KIND_AUDIO'' then Some KindAudio
      else if s = ''RESOURCE_KIND_VIDEO'' then Some KindVideo
      else if s = ''RESOURCE_KIND_OTHER'' then Some KindOther
      else None)"

text \<open>The derived \<open>Ord\<close> is the order of the variants.\<close>

lemma kind_number_inj [simp]: "kind_number a = kind_number b \<longleftrightarrow> a = b"
  by (cases a; cases b) simp_all

instantiation resource_kind :: linorder
begin

definition less_eq_resource_kind :: "resource_kind \<Rightarrow> resource_kind \<Rightarrow> bool" where
  "less_eq_resource_kind a b \<longleftrightarrow> kind_number a \<le> kind_number b"

definition less_resource_kind :: "resource_kind \<Rightarrow> resource_kind \<Rightarrow> bool" where
  "less_resource_kind a b \<longleftrightarrow> kind_number a < kind_number b"

instance
  by standard
    (auto simp: less_eq_resource_kind_def less_resource_kind_def dual_order.antisym)

end

lemma kind_str_name_round_trip: "kind_from_str_name (kind_str_name k) = Some k"
  by (cases k) (simp_all add: kind_from_str_name_def)

interpretation kind_names: wire_enum UNIV kind_number kind_str_name kind_from_str_name
proof (rule wire_enum_arms)
  show "s = kind_str_name a" if "kind_from_str_name s = Some a" for s a
    using that by (auto simp: kind_from_str_name_def split: if_splits)
qed (simp_all add: kind_str_name_round_trip)

datatype warning_code =
  WarnUnspecified | ResourceKindExcluded | MissingManifestEntry | NestedArchive | WarnMetadata
  | ObfuscatedResource | UnusableEntryName

fun warning_number :: "warning_code \<Rightarrow> int" where
  "warning_number WarnUnspecified = 0"
| "warning_number ResourceKindExcluded = 1"
| "warning_number MissingManifestEntry = 2"
| "warning_number NestedArchive = 3"
| "warning_number WarnMetadata = 4"
| "warning_number ObfuscatedResource = 5"
| "warning_number UnusableEntryName = 6"

fun warning_str_name :: "warning_code \<Rightarrow> string" where
  "warning_str_name WarnUnspecified = ''PARSE_WARNING_CODE_UNSPECIFIED''"
| "warning_str_name ResourceKindExcluded = ''PARSE_WARNING_CODE_RESOURCE_KIND_EXCLUDED''"
| "warning_str_name MissingManifestEntry = ''PARSE_WARNING_CODE_MISSING_MANIFEST_ENTRY''"
| "warning_str_name NestedArchive = ''PARSE_WARNING_CODE_NESTED_ARCHIVE''"
| "warning_str_name WarnMetadata = ''PARSE_WARNING_CODE_METADATA''"
| "warning_str_name ObfuscatedResource = ''PARSE_WARNING_CODE_OBFUSCATED_RESOURCE''"
| "warning_str_name UnusableEntryName = ''PARSE_WARNING_CODE_UNUSABLE_ENTRY_NAME''"

definition warning_from_str_name :: "string \<Rightarrow> warning_code option" where
  "warning_from_str_name s =
     (if s = ''PARSE_WARNING_CODE_UNSPECIFIED'' then Some WarnUnspecified
      else if s = ''PARSE_WARNING_CODE_RESOURCE_KIND_EXCLUDED'' then Some ResourceKindExcluded
      else if s = ''PARSE_WARNING_CODE_MISSING_MANIFEST_ENTRY'' then Some MissingManifestEntry
      else if s = ''PARSE_WARNING_CODE_NESTED_ARCHIVE'' then Some NestedArchive
      else if s = ''PARSE_WARNING_CODE_METADATA'' then Some WarnMetadata
      else if s = ''PARSE_WARNING_CODE_OBFUSCATED_RESOURCE'' then Some ObfuscatedResource
      else if s = ''PARSE_WARNING_CODE_UNUSABLE_ENTRY_NAME'' then Some UnusableEntryName
      else None)"

lemma warning_str_name_round_trip: "warning_from_str_name (warning_str_name c) = Some c"
  by (cases c) (simp_all add: warning_from_str_name_def)

interpretation warning_names: wire_enum UNIV warning_number warning_str_name warning_from_str_name
proof (rule wire_enum_arms)
  show "a = b" if "warning_number a = warning_number b" for a b
    using that by (cases a; cases b) simp_all
  show "s = warning_str_name a" if "warning_from_str_name s = Some a" for s a
    using that by (auto simp: warning_from_str_name_def split: if_splits)
qed (simp add: warning_str_name_round_trip)

section \<open>Messages\<close>

record pb_identifier =
  pbi_value :: string
  pbi_id :: string
  pbi_scheme :: string

record pb_metadata_refinement =
  pbr_property :: string
  pbr_value :: string
  pbr_scheme :: string

record pb_metadata_entry =
  pbm_element :: string
  pbm_value :: string
  pbm_id :: string
  pbm_scheme :: string
  pbm_refinements :: "pb_metadata_refinement list"

record epub_info =
  inf_title :: string
  inf_creators :: "string list"
  inf_contributors :: "string list"
  inf_language :: string
  inf_identifiers :: "pb_identifier list"
  inf_unique_identifier :: string
  inf_publisher :: string
  inf_description :: string
  inf_date :: string
  inf_subjects :: "string list"
  inf_spine_item_count :: u32
  inf_opf_href :: string
  inf_epub_version :: string
  inf_cover_href :: string
  inf_metadata :: "pb_metadata_entry list"
  inf_modified :: string
  inf_nav_href :: string
  inf_ncx_href :: string

record chapter_msg =
  ch_spine_index :: u32
  ch_idref :: string
  ch_href :: string
  ch_media_type :: string
  ch_content :: string
  ch_linear :: bool
  ch_properties :: "string list"
  ch_media_overlay_href :: string
  ch_primary_href :: string

record resource_msg =
  rs_href :: string
  rs_media_type :: string
  rs_kind :: int
  rs_content :: string
  rs_manifest_id :: string
  rs_properties :: "string list"
  rs_media_overlay_href :: string

datatype pb_nav_point =
  PbNavPoint (pbn_label: string) (pbn_href: string) (pbn_depth: u32) (pbn_children: "pb_nav_point list")

record pb_navigation =
  pbv_source_href :: string
  pbv_toc :: "pb_nav_point list"
  pbv_from_ncx :: bool

record pb_cue =
  pbc_text_href :: string
  pbc_audio_href :: string
  pbc_start_time :: f64
  pbc_end_time :: f64
  pbc_identifier :: string

record pb_media_overlay =
  pbo_source_href :: string
  pbo_chapter_href :: string
  pbo_cues :: "pb_cue list"

record parse_warning =
  wn_code :: int
  wn_message :: message
  wn_href :: string

record parse_status =
  ps_chapters_emitted :: u32
  ps_resources_emitted :: u32
  ps_resources_skipped :: u32
  ps_uncompressed_bytes :: u64
  ps_entries_read :: u32
  ps_warnings :: "parse_warning list"

datatype frame = Options parse_options | Chunk string

record parse_request =
  rq_frame :: "frame option"

datatype 'doc event =
    EventInfo epub_info
  | EventChapter chapter_msg
  | EventResource resource_msg
  | EventStatus parse_status
  | EventDocument 'doc
  | EventNavigation pb_navigation
  | EventMediaOverlay pb_media_overlay

record ui_info =
  ui_title :: string
  ui_path :: string
  ui_description :: string

record service_info =
  si_name :: string
  si_version :: string
  si_limits :: "server_limits option"
  si_features :: "string list"
  si_ui :: "ui_info option"

end
