(* ===== verification/Projection.thy ===== *)
theory Projection imports Messages begin

text \<open>
  \<open>src/document_fold.rs\<close>, what the parse driver sees of it: the integrity key of an archive, FNV-1a
  over its bytes, and the interface through which the driver feeds the fold.  \<open>projection\<close> is that
  interface: \<open>consume\<close>, which can panic, \<open>take\<close> and \<open>set_source_hash\<close> of \<open>DocumentFold\<close>, over any state and
  document type.
\<close>

definition FNV_OFFSET :: u64 where
  "FNV_OFFSET = 0xcbf29ce484222325"

definition FNV_PRIME :: u64 where
  "FNV_PRIME = 0x00000100000001b3"

definition source_hash :: "string \<Rightarrow> u64" where
  "source_hash bytes = fold (\<lambda>b hash. xor hash (of_nat (ord b)) * FNV_PRIME) bytes FNV_OFFSET"

text \<open>The media type of an EPUB, from \<open>src/extract.rs\<close>.\<close>

definition EPUB_MIMETYPE :: string where
  "EPUB_MIMETYPE = ''application/epub+zip''"

record ('f, 'doc) projection =
  pj_consume :: "'doc event \<Rightarrow> 'f \<Rightarrow> panic + 'f"
  pj_take :: "'f \<Rightarrow> 'doc \<times> 'f"
  pj_set_source_hash :: "u64 \<Rightarrow> 'f \<Rightarrow> 'f"

text \<open>What the fold becomes over a run of events.\<close>

fun feed :: "('f, 'doc) projection \<Rightarrow> 'doc event list \<Rightarrow> 'f \<Rightarrow> panic + 'f" where
  "feed pj [] f = Inr f"
| "feed pj (ev # evs) f = and_then (pj_consume pj ev f) (feed pj evs)"

text \<open>The chapters and the resources among a run of events.\<close>

definition chapters_of :: "'doc event list \<Rightarrow> chapter_msg list" where
  "chapters_of evs = List.map_filter (\<lambda>ev. case ev of EventChapter c \<Rightarrow> Some c | _ \<Rightarrow> None) evs"

lemma chapters_of_simps [simp]:
  "chapters_of [] = []" "chapters_of (evs @ evs') = chapters_of evs @ chapters_of evs'"
  "chapters_of (EventChapter c # evs) = c # chapters_of evs"
  "(\<And>c. ev \<noteq> EventChapter c) \<Longrightarrow> chapters_of (ev # evs) = chapters_of evs"
  by (auto simp: chapters_of_def map_filter_def split: event.splits)

definition resources_of :: "'doc event list \<Rightarrow> resource_msg list" where
  "resources_of evs = List.map_filter (\<lambda>ev. case ev of EventResource r \<Rightarrow> Some r | _ \<Rightarrow> None) evs"

lemma resources_of_simps [simp]:
  "resources_of [] = []" "resources_of (evs @ evs') = resources_of evs @ resources_of evs'"
  "resources_of (EventResource r # evs) = r # resources_of evs"
  "(\<And>r. ev \<noteq> EventResource r) \<Longrightarrow> resources_of (ev # evs) = resources_of evs"
  by (auto simp: resources_of_def map_filter_def split: event.splits)

text \<open>
  What the driver relies on for a panic to reach the client as a call that never began: the fold
  raises one only at the opening \<open>info\<close> event, and only for what \<open>bad\<close> tells of the book.
\<close>

locale raising_at_info =
  fixes pj :: "('f, 'doc) projection"
    and bad :: "epub_info \<Rightarrow> bool"
  assumes raised: "pj_consume pj ev f = Inl p \<Longrightarrow> \<exists>info. ev = EventInfo info \<and> bad info"
begin

lemma fed_at_info: "feed pj [ev] f = Inl p \<Longrightarrow> \<exists>info. ev = EventInfo info \<and> bad info"
  by (auto simp: and_then_def split: sum.splits dest: raised)

end

end
