(* ===== verification/Extract.thy ===== *)
theory Extract
  imports Archive Opf Nav Smil Datetime Metrics Projection "HOL-Library.Product_Lexorder"
begin

text \<open>
  \<open>src/extract.rs\<close>: the parse driver.  One archive in, the events of a response stream out.

  The pure parts of the driver (classification, the manifest and the spine resolved against the
  archive, the plan of the walk) are functions; the parts that inflate entries or send events are
  computations on a \<open>call_state\<close>: the budget, the warnings, the counters, the entries read ahead
  and the sink.  A computation gives an \<open>abort\<close> or a value, and the state it leaves: what was sent
  before an abort stays sent.

  The response channel is the oracle \<open>sk_channel\<close>: what happens to the n-th message handed to it.
\<close>

section \<open>Constants and warnings\<close>

definition CONTAINER_PATH :: string where
  "CONTAINER_PATH = ''META-INF/container.xml''"

definition ENCRYPTION_PATH :: string where
  "ENCRYPTION_PATH = ''META-INF/encryption.xml''"

definition MIMETYPE_PATH :: string where
  "MIMETYPE_PATH = ''mimetype''"

definition MAX_MIMETYPE_BYTES :: nat where
  "MAX_MIMETYPE_BYTES = 256"

definition MAX_WARNINGS :: usize where
  "MAX_WARNINGS = 64"

definition MAX_QUOTED_CHARS :: usize where
  "MAX_QUOTED_CHARS = 120"

definition MAX_FALLBACK_CHAIN :: usize where
  "MAX_FALLBACK_CHAIN = 16"

record warnings =
  wa_entries :: "parse_warning list"
  wa_reported_kinds :: "int list"

definition no_warnings :: warnings where
  "no_warnings = \<lparr>wa_entries = [], wa_reported_kinds = []\<rparr>"

definition push_warning :: "warning_code \<Rightarrow> string \<Rightarrow> message \<Rightarrow> warnings \<Rightarrow> warnings" where
  "push_warning code href msg w =
     (if length (wa_entries w) \<ge> MAX_WARNINGS then w
      else w\<lparr>wa_entries := wa_entries w
              @ [\<lparr>wn_code = warning_number code, wn_message = msg, wn_href = href\<rparr>]\<rparr>)"

definition exclude_kind :: "resource_kind \<Rightarrow> warnings \<Rightarrow> warnings" where
  "exclude_kind kind w =
     (if kind_number kind \<in> set (wa_reported_kinds w) then w
      else push_warning ResourceKindExcluded []
             [Str (kind_str_name kind), Lit '' resources were not emitted; see ParseOptions'']
             (w\<lparr>wa_reported_kinds := kind_number kind # wa_reported_kinds w\<rparr>))"

section \<open>Classification\<close>

definition media_base :: "string \<Rightarrow> string" where
  "media_base media_type = trim (before CHR '';'' (to_ascii_lowercase (trim media_type)))"

definition classify :: "string \<Rightarrow> resource_kind" where
  "classify media_type =
     (let base = media_base media_type
      in if base = [] then KindUnspecified
         else if base = ''text/css'' then KindStylesheet
         else if base \<in> {''application/xhtml+xml'', ''text/html'', ''application/x-dtbncx+xml'',
                          ''text/x-oeb1-document''} then KindDocument
         else if base \<in> {''application/vnd.ms-opentype'', ''application/font-woff'',
                          ''application/font-sfnt''} then KindFont
         else if prefix ''image/'' base then KindImage
         else if prefix ''font/'' base then KindFont
         else if prefix ''audio/'' base then KindAudio
         else if prefix ''video/'' base then KindVideo
         else if prefix ''application/x-font'' base then KindFont
         else KindOther)"

definition selected :: "resource_kind \<Rightarrow> effective \<Rightarrow> bool" where
  "selected kind limits =
     (if eff_include_all_resources limits then True
      else case kind of
        KindDocument \<Rightarrow> True
      | KindImage \<Rightarrow> eff_include_images limits
      | KindStylesheet \<Rightarrow> eff_include_stylesheets limits
      | _ \<Rightarrow> False)"

text \<open>\<open>Path::file_name\<close> and \<open>Path::extension\<close>.\<close>

definition path_file_name :: "string \<Rightarrow> string option" where
  "path_file_name p =
     (let comps = filter (\<lambda>c. c \<noteq> [] \<and> c \<noteq> ''.'') (split_on CHR ''/'' p)
      in if comps = [] \<or> last comps = ''..'' then None else Some (last comps))"

definition path_extension :: "string \<Rightarrow> string option" where
  "path_extension p =
     Option.bind (path_file_name p) (\<lambda>name.
       case rfind_byte (\<lambda>c. c = CHR ''.'') name of
         None \<Rightarrow> None
       | Some i \<Rightarrow> if i = 0 then None else Some (drop (i + 1) name))"

definition is_nested_archive :: "string \<Rightarrow> string \<Rightarrow> bool" where
  "is_nested_archive media_type path \<longleftrightarrow>
     to_ascii_lowercase (trim media_type)
       \<in> {''application/zip'', ''application/epub+zip'', ''application/x-zip-compressed''}
     \<or> (case path_extension (to_ascii_lowercase path) of
          None \<Rightarrow> False
        | Some e \<Rightarrow> eq_ignore_ascii_case e ''zip'' \<or> eq_ignore_ascii_case e ''epub'')"

definition is_markup :: "string \<Rightarrow> bool" where
  "is_markup media_type \<longleftrightarrow>
     media_base media_type \<in> {''application/xhtml+xml'', ''text/html'', ''text/x-oeb1-document''}"

text \<open>\<open>char_indices().nth(n)\<close>: the byte position of the n-th character.\<close>

definition nth_char :: "nat \<Rightarrow> string \<Rightarrow> nat option" where
  "nth_char n s = get (filter (\<lambda>i. \<not> is_cont (s ! i)) [0..<length s]) n"

definition quoted :: "string \<Rightarrow> message" where
  "quoted v =
     (case nth_char MAX_QUOTED_CHARS v of
        Some stop \<Rightarrow> [Dbg (take stop v), Lit ''...'']
      | None \<Rightarrow> [Dbg v])"

section \<open>The manifest against the archive\<close>

type_synonym entry_index = "string \<Rightarrow> nat option"

definition index_of :: "entry_info list \<Rightarrow> entry_index" where
  "index_of entries = map_of (rev (zip (map ei_name entries) [0..<length entries]))"

definition lookup_entry :: "entry_index \<Rightarrow> string \<Rightarrow> string \<Rightarrow> string \<Rightarrow> nat option" where
  "lookup_entry index decoded raw_base raw_href =
     (case index decoded of
        Some found \<Rightarrow> Some found
      | None \<Rightarrow>
          (case normalize raw_base (before CHR ''#'' raw_href) of
             Inl _ \<Rightarrow> None
           | Inr raw \<Rightarrow> index raw))"

definition obfuscated_entry :: "entry_index \<Rightarrow> string \<Rightarrow> nat option" where
  "obfuscated_entry index uri =
     (case (case resolve [] uri of Inr (Entry path) \<Rightarrow> lookup_entry index path [] uri | _ \<Rightarrow> None) of
        Some e \<Rightarrow> Some e
      | None \<Rightarrow>
          (case resolve ''META-INF'' uri of
             Inr (Entry path) \<Rightarrow> lookup_entry index path ''META-INF'' uri
           | _ \<Rightarrow> None))"

definition obfuscated_entries :: "xml_reader \<Rightarrow> string \<Rightarrow> entry_index \<Rightarrow> status + nat list" where
  "obfuscated_entries reader descriptor index =
     and_then
       (map_err (\<lambda>e. Status InvalidArgument ([Str ENCRYPTION_PATH, Lit '': ''] @ xml_error_message e))
          (parse_encryption reader descriptor)) (\<lambda>records.
       case find (\<lambda>r. \<not> is_obfuscation r) records of
         Some drm \<Rightarrow>
           Inl (Status Unimplemented
             [Str ENCRYPTION_PATH, Lit '' declares encryption with '',
              if en_algorithm drm = [] then Lit ''an unnamed algorithm'' else Dbg (en_algorithm drm),
              Lit '', which is not font obfuscation; DRM is not supported''])
       | None \<Rightarrow> Inr (List.map_filter (\<lambda>r. obfuscated_entry index (en_uri r)) records))"

record resolved =
  rv_item :: manifest_item
  rv_path :: string
  rv_entry :: "nat option"
  rv_remote :: bool
  rv_unusable :: "path_error option"

definition resolve_item :: "entry_index \<Rightarrow> string \<Rightarrow> manifest_item \<Rightarrow> resolved" where
  "resolve_item index opf_dir item =
     (case resolve opf_dir (mi_href item) of
        Inr (Entry path) \<Rightarrow>
          \<lparr>rv_item = item, rv_path = path,
           rv_entry = lookup_entry index path opf_dir (mi_href item),
           rv_remote = False, rv_unusable = None\<rparr>
      | Inr (Remote uri) \<Rightarrow>
          \<lparr>rv_item = item, rv_path = uri, rv_entry = None, rv_remote = True, rv_unusable = None\<rparr>
      | Inl error \<Rightarrow>
          \<lparr>rv_item = item, rv_path = mi_href item, rv_entry = None, rv_remote = False,
           rv_unusable = Some error\<rparr>)"

text \<open>\<open>by_id\<close> keeps the first manifest item of each id.\<close>

definition by_id :: "resolved list \<Rightarrow> string \<Rightarrow> nat option" where
  "by_id rs ident = position (\<lambda>r. mi_id (rv_item r) = ident) rs"

text \<open>The loop of \<open>chapter_source\<close> that follows fallbacks; its first argument is how many more.\<close>

fun extend_chain :: "nat \<Rightarrow> resolved list \<Rightarrow> nat list \<Rightarrow> nat list" where
  "extend_chain 0 rs chain = chain"
| "extend_chain (Suc n) rs chain =
     (let fallback = mi_fallback (rv_item (rs ! last chain))
      in if fallback = [] then chain
         else case by_id rs fallback of
           Some nxt \<Rightarrow> if nxt \<notin> set chain then extend_chain n rs (chain @ [nxt]) else chain
         | None \<Rightarrow> chain)"

definition chapter_source :: "nat \<Rightarrow> resolved list \<Rightarrow> nat option" where
  "chapter_source primary rs =
     (let chain = extend_chain (MAX_FALLBACK_CHAIN - 1) rs [primary];
          held = filter (\<lambda>i. rv_entry (rs ! i) \<noteq> None) chain
      in case find (\<lambda>i. is_markup (mi_media_type (rv_item (rs ! i)))) held of
           Some i \<Rightarrow> Some i
         | None \<Rightarrow> (case held of [] \<Rightarrow> None | i # _ \<Rightarrow> Some i))"

type_synonym spine_entry = "nat \<times> nat \<times> spine_item"

definition spine_failure :: "resolved \<Rightarrow> spine_item \<Rightarrow> status" where
  "spine_failure target itemref =
     (case rv_unusable target of
        Some error \<Rightarrow>
          Status InvalidArgument
            ([Lit ''manifest item '', Dbg (mi_id (rv_item target)), Lit '' has an unusable href '',
              Dbg (mi_href (rv_item target)), Lit '': ''] @ path_error_message error)
      | None \<Rightarrow>
          if rv_remote target then
            Status InvalidArgument
              [Lit ''spine item '', Dbg (si_idref itemref), Lit '' points outside the archive at '',
               Dbg (rv_path target), Lit ''; remote chapters are not supported'']
          else
            Status InvalidArgument
              [Lit ''spine item '', Dbg (si_idref itemref), Lit '' names '', Dbg (rv_path target),
               Lit '', which the archive does not contain''])"

definition resolve_itemref ::
  "nat list \<Rightarrow> resolved list \<Rightarrow> spine_item \<Rightarrow> status + spine_entry" where
  "resolve_itemref obfuscated rs itemref =
     (case by_id rs (si_idref itemref) of
        None \<Rightarrow>
          Inl (Status InvalidArgument
            [Lit ''spine itemref '', Dbg (si_idref itemref), Lit '' names no manifest item''])
      | Some pos \<Rightarrow>
          (case chapter_source pos rs of
             Some source \<Rightarrow>
               if the (rv_entry (rs ! source)) \<in> set obfuscated then
                 Inl (Status Unimplemented
                   [Lit ''spine item '', Dbg (si_idref itemref), Lit '' ('',
                    Dbg (rv_path (rs ! source)), Lit '') is listed in '', Str ENCRYPTION_PATH,
                    Lit ''; encrypted chapters are not supported''])
               else Inr (pos, source, itemref)
           | None \<Rightarrow> Inl (spine_failure (rs ! pos) itemref)))"

definition has_property :: "string \<Rightarrow> resolved \<Rightarrow> bool" where
  "has_property property r \<longleftrightarrow> property \<in> set (mi_properties (rv_item r))"

definition cover_path :: "resolved \<Rightarrow> string" where
  "cover_path r = (if rv_unusable r \<noteq> None then [] else rv_path r)"

definition cover :: "resolved list \<Rightarrow> package \<Rightarrow> string" where
  "cover rs k =
     (case find (has_property ''cover-image'') rs of
        Some target \<Rightarrow> cover_path target
      | None \<Rightarrow>
          if md_cover_id (pk_metadata k) = [] then []
          else case find (\<lambda>r. mi_id (rv_item r) = md_cover_id (pk_metadata k)) rs of
            Some target \<Rightarrow> cover_path target
          | None \<Rightarrow> [])"

record nav_source =
  ng_position :: nat
  ng_entry :: nat
  ng_from_ncx :: bool

definition navigation_source :: "resolved list \<Rightarrow> package \<Rightarrow> nav_source option" where
  "navigation_source rs k =
     (case Option.bind (position (has_property ''nav'') rs)
             (\<lambda>pos. map_option (\<lambda>e. (pos, e)) (rv_entry (rs ! pos))) of
        Some (pos, e) \<Rightarrow> Some \<lparr>ng_position = pos, ng_entry = e, ng_from_ncx = False\<rparr>
      | None \<Rightarrow>
          Option.bind (by_id rs (pk_toc_idref k)) (\<lambda>pos.
            map_option (\<lambda>e. \<lparr>ng_position = pos, ng_entry = e, ng_from_ncx = True\<rparr>)
              (rv_entry (rs ! pos))))"

definition overlay_links :: "resolved list \<Rightarrow> (nat \<times> nat) list" where
  "overlay_links rs =
     List.map_filter
       (\<lambda>pos. case by_id rs (mi_media_overlay (rv_item (rs ! pos))) of
          None \<Rightarrow> None
        | Some ov \<Rightarrow> if rv_unusable (rs ! ov) = None then Some (pos, ov) else None)
       [0..<length rs]"

section \<open>The opening event\<close>

definition names :: "contributor list \<Rightarrow> string list" where
  "names cs = map co_name cs"

fun pb_nav_point_of :: "nav_point \<Rightarrow> pb_nav_point" where
  "pb_nav_point_of (NavPoint l h d cs) = PbNavPoint l h (u32_or_max d) (map pb_nav_point_of cs)"

definition pb_metadata :: "meta_entry \<Rightarrow> pb_metadata_entry" where
  "pb_metadata e =
     \<lparr>pbm_element = me_element e, pbm_value = me_value e, pbm_id = me_id e, pbm_scheme = me_scheme e,
      pbm_refinements =
        map (\<lambda>r. \<lparr>pbr_property = rf_property r, pbr_value = rf_value r, pbr_scheme = rf_scheme r\<rparr>)
          (me_refinements e)\<rparr>"

definition unique_identifier :: "package \<Rightarrow> string" where
  "unique_identifier k =
     (case find (\<lambda>i. pk_unique_identifier_id k \<noteq> [] \<and> idn_id i = pk_unique_identifier_id k)
             (md_identifiers (pk_metadata k)) of
        Some i \<Rightarrow> idn_value i | None \<Rightarrow> [])"

definition nav_path :: "resolved list \<Rightarrow> nav_source option \<Rightarrow> bool \<Rightarrow> string" where
  "nav_path rs source from_ncx =
     (case source of
        Some n \<Rightarrow> if ng_from_ncx n = from_ncx then rv_path (rs ! ng_position n) else []
      | None \<Rightarrow> [])"

definition epub_info_of :: "package \<Rightarrow> string \<Rightarrow> resolved list \<Rightarrow> spine_entry list \<Rightarrow> epub_info" where
  "epub_info_of k opf_path rs spine =
     (let m = pk_metadata k; source = navigation_source rs k
      in \<lparr>inf_title = md_title m, inf_creators = names (md_creators m),
          inf_contributors = names (md_contributors m), inf_language = md_language m,
          inf_identifiers =
            map (\<lambda>i. \<lparr>pbi_value = idn_value i, pbi_id = idn_id i, pbi_scheme = idn_scheme i\<rparr>)
              (md_identifiers m),
          inf_unique_identifier = unique_identifier k, inf_publisher = md_publisher m,
          inf_description = md_description m, inf_date = md_date m, inf_subjects = md_subjects m,
          inf_spine_item_count = u32_or_max (length spine), inf_opf_href = opf_path,
          inf_epub_version = pk_version k, inf_cover_href = cover rs k,
          inf_metadata = map pb_metadata (md_entries m), inf_modified = md_modified m,
          inf_nav_href = nav_path rs source False, inf_ncx_href = nav_path rs source True\<rparr>)"


section \<open>The plan of the walk\<close>

text \<open>
  What the loop over the manifest leaves: the items to send, as (entry, manifest position), how many
  were passed over, and the warnings.
\<close>

record plan =
  pl_pending :: "(nat \<times> nat) list"
  pl_skipped :: u32
  pl_warnings :: warnings

definition skip_item :: "warning_code \<Rightarrow> string \<Rightarrow> message \<Rightarrow> plan \<Rightarrow> plan" where
  "skip_item code href msg p =
     p\<lparr>pl_skipped := pl_skipped p + 1, pl_warnings := push_warning code href msg (pl_warnings p)\<rparr>"

definition exclude_item :: "resource_kind \<Rightarrow> plan \<Rightarrow> plan" where
  "exclude_item kind p =
     p\<lparr>pl_skipped := pl_skipped p + 1, pl_warnings := exclude_kind kind (pl_warnings p)\<rparr>"

definition plan_item ::
  "effective \<Rightarrow> nat list \<Rightarrow> nat set \<Rightarrow> nat set \<Rightarrow> nat \<times> resolved \<Rightarrow> plan \<Rightarrow> plan" where
  "plan_item limits obfuscated spine_ids chapter_entries = (\<lambda>(pos, target) p.
     if pos \<in> spine_ids then p
     else let kind = classify (mi_media_type (rv_item target))
     in case rv_unusable target of
       Some error \<Rightarrow>
         skip_item MissingManifestEntry []
           ([Lit ''manifest item ''] @ quoted (mi_id (rv_item target))
            @ [Lit '' has an unusable href ''] @ quoted (mi_href (rv_item target)) @ [Lit '' ('']
            @ path_error_message error @ [Lit ''); nothing is read for it'']) p
     | None \<Rightarrow>
       if rv_remote target then
         skip_item MissingManifestEntry (rv_path target)
           [Lit ''the manifest points at a remote resource; nothing is fetched over the network''] p
       else case rv_entry target of
         None \<Rightarrow>
           skip_item MissingManifestEntry (rv_path target)
             [Lit ''the manifest names a file the archive does not contain''] p
       | Some entry \<Rightarrow>
           if entry \<in> chapter_entries then p
           else if is_nested_archive (mi_media_type (rv_item target)) (rv_path target) then
             skip_item NestedArchive (rv_path target) [Lit ''nested archives are not opened''] p
           else if \<not> selected kind limits then exclude_item kind p
           else if entry \<in> set obfuscated then
             skip_item ObfuscatedResource (rv_path target)
               [Str ENCRYPTION_PATH, Lit '' lists this resource as font-obfuscated, so its stored bytes are not its content; it was not emitted''] p
           else p\<lparr>pl_pending := pl_pending p @ [(entry, pos)]\<rparr>)"

text \<open>\<open>dedup_by_key\<close> on the entry: of neighbours with one entry the first is kept.\<close>

fun dedup_entries :: "(nat \<times> nat) list \<Rightarrow> (nat \<times> nat) list" where
  "dedup_entries [] = []"
| "dedup_entries [x] = [x]"
| "dedup_entries (x # y # ys) =
     (if fst x = fst y then dedup_entries (x # ys) else x # dedup_entries (y # ys))"

definition spine_sources :: "spine_entry list \<Rightarrow> nat set" where
  "spine_sources spine = set (map (fst \<circ> snd) spine)"

definition chapter_entry :: "resolved list \<Rightarrow> spine_entry \<Rightarrow> nat" where
  "chapter_entry rs e = the (rv_entry (rs ! fst (snd e)))"

definition plan_walk ::
  "effective \<Rightarrow> nat list \<Rightarrow> resolved list \<Rightarrow> spine_entry list \<Rightarrow> warnings \<Rightarrow> plan" where
  "plan_walk limits obfuscated rs spine w =
     (let p = fold (plan_item limits obfuscated (spine_sources spine)
                      (set (map (chapter_entry rs) spine)))
                (enumerate 0 rs) \<lparr>pl_pending = [], pl_skipped = 0, pl_warnings = w\<rparr>
      in p\<lparr>pl_pending := dedup_entries (sort (pl_pending p))\<rparr>)"

definition will_emit :: "resolved list \<Rightarrow> spine_entry list \<Rightarrow> (nat \<times> nat) list \<Rightarrow> nat set" where
  "will_emit rs spine pending = set (map (chapter_entry rs) spine) \<union> set (map fst pending)"

text \<open>The last pair each overlay entry serves, by the entry.\<close>

definition last_use :: "resolved list \<Rightarrow> (nat \<times> nat) list \<Rightarrow> nat \<Rightarrow> nat option" where
  "last_use rs overlays =
     map_of (rev (List.map_filter
       (\<lambda>(i, _, ov). map_option (\<lambda>entry. (entry, i)) (rv_entry (rs ! ov)))
       (enumerate 0 overlays)))"

definition overlay_href :: "resolved list \<Rightarrow> (nat \<times> nat) list \<Rightarrow> nat \<Rightarrow> string" where
  "overlay_href rs overlays pos =
     (case find (\<lambda>(owner, _). owner = pos) overlays of
        Some (_, ov) \<Rightarrow> rv_path (rs ! ov)
      | None \<Rightarrow> [])"

definition pb_navigation_of :: "navigation \<Rightarrow> pb_navigation" where
  "pb_navigation_of n =
     \<lparr>pbv_source_href = nv_source_href n, pbv_toc = map pb_nav_point_of (nv_toc n),
      pbv_from_ncx = nv_from_ncx n\<rparr>"

definition pb_cue_of :: "cue \<Rightarrow> pb_cue" where
  "pb_cue_of c =
     \<lparr>pbc_text_href = cue_text_href c, pbc_audio_href = cue_audio_href c,
      pbc_start_time = cue_start_time c, pbc_end_time = cue_end_time c,
      pbc_identifier = cue_identifier c\<rparr>"

definition pb_overlay_of :: "string \<Rightarrow> overlay \<Rightarrow> pb_media_overlay" where
  "pb_overlay_of chapter_href ov =
     \<lparr>pbo_source_href = ov_source_href ov, pbo_chapter_href = chapter_href,
      pbo_cues = map pb_cue_of (ov_cues ov)\<rparr>"


section \<open>Warnings and skipped items\<close>

definition warnings_fit :: "warnings \<Rightarrow> bool" where
  "warnings_fit w \<longleftrightarrow> length (wa_entries w) \<le> MAX_WARNINGS"

lemma warnings_fit_no_warnings [simp]: "warnings_fit no_warnings"
  by (simp add: warnings_fit_def no_warnings_def)

lemma warnings_fit_push [simp]: "warnings_fit w \<Longrightarrow> warnings_fit (push_warning c h m w)"
  by (auto simp: warnings_fit_def push_warning_def)

lemma warnings_fit_kinds [simp]:
  "warnings_fit (w\<lparr>wa_reported_kinds := ks\<rparr>) \<longleftrightarrow> warnings_fit w"
  by (simp add: warnings_fit_def)

lemma warnings_fit_exclude [simp]: "warnings_fit w \<Longrightarrow> warnings_fit (exclude_kind k w)"
  by (simp add: exclude_kind_def)

section \<open>The index and the manifest\<close>

lemma index_of_Some:
  assumes "index_of entries name = Some i"
  shows "i < length entries \<and> ei_name (entries ! i) = name"
proof -
  have "(name, i) \<in> set (zip (map ei_name entries) [0..<length entries])"
    using assms map_of_SomeD by (fastforce simp: index_of_def)
  then show ?thesis by (auto simp: set_zip)
qed

definition entries_within :: "nat \<Rightarrow> resolved list \<Rightarrow> bool" where
  "entries_within n rs \<longleftrightarrow> (\<forall>r\<in>set rs. \<forall>e. rv_entry r = Some e \<longrightarrow> e < n)"

lemma lookup_entry_within:
  "lookup_entry (index_of entries) d b h = Some e \<Longrightarrow> e < length entries"
  by (auto simp: lookup_entry_def dest: index_of_Some split: option.splits sum.splits)

lemma resolve_item_within:
  "entries_within (length entries) (map (resolve_item (index_of entries) dir) items)"
  by (auto simp: entries_within_def resolve_item_def dest: lookup_entry_within
      split: sum.splits target.splits)

lemma entries_within_nth:
  "entries_within n rs \<Longrightarrow> i < length rs \<Longrightarrow> rv_entry (rs ! i) = Some e \<Longrightarrow> e < n"
  by (auto simp: entries_within_def)

text \<open>What resolving an item leaves: an entry only for a path of the archive.\<close>

lemma resolve_item_entry:
  "rv_entry (resolve_item index dir item) = Some e \<Longrightarrow>
     \<not> rv_remote (resolve_item index dir item) \<and> rv_unusable (resolve_item index dir item) = None"
  by (auto simp: resolve_item_def split: sum.splits target.splits)

section \<open>Fallback chains\<close>

lemma by_id_Some: "by_id rs ident = Some i \<Longrightarrow> i < length rs \<and> mi_id (rv_item (rs ! i)) = ident"
  by (auto simp: by_id_def dest: position_Some)

definition links :: "resolved list \<Rightarrow> nat \<Rightarrow> nat \<Rightarrow> bool" where
  "links rs i j \<longleftrightarrow> by_id rs (mi_fallback (rv_item (rs ! i))) = Some j"

definition chain_ok :: "resolved list \<Rightarrow> nat list \<Rightarrow> bool" where
  "chain_ok rs chain \<longleftrightarrow>
     chain \<noteq> [] \<and> distinct chain \<and> (\<forall>i\<in>set chain. i < length rs) \<and> successively (links rs) chain"

lemma extend_chain_ok:
  "chain_ok rs chain \<Longrightarrow>
     chain_ok rs (extend_chain n rs chain)
     \<and> length (extend_chain n rs chain) \<le> length chain + n
     \<and> prefix chain (extend_chain n rs chain)"
proof (induction n arbitrary: chain)
  case 0
  then show ?case by simp
next
  case (Suc n)
  show ?case
  proof (cases "mi_fallback (rv_item (rs ! last chain)) = []
      \<or> (\<forall>j. by_id rs (mi_fallback (rv_item (rs ! last chain))) = Some j \<longrightarrow> j \<in> set chain)")
    case True
    with Suc.prems show ?thesis by (auto simp: Let_def split: option.splits)
  next
    case False
    then obtain j where j: "by_id rs (mi_fallback (rv_item (rs ! last chain))) = Some j"
      "j \<notin> set chain" "mi_fallback (rv_item (rs ! last chain)) \<noteq> []" by blast
    have "chain_ok rs (chain @ [j])"
      using Suc.prems j by (auto simp: chain_ok_def successively_append_iff links_def dest: by_id_Some)
    from Suc.IH [OF this] j show ?thesis by (auto simp: prefix_def)
  qed
qed

lemma chain_ok_single [simp]: "chain_ok rs [i] \<longleftrightarrow> i < length rs"
  by (simp add: chain_ok_def)


lemma extend_chain_stops:
  assumes "length (extend_chain n rs chain) < length chain + n"
    and "mi_fallback (rv_item (rs ! last (extend_chain n rs chain))) \<noteq> []"
    and "links rs (last (extend_chain n rs chain)) j"
  shows "j \<in> set (extend_chain n rs chain)"
  using assms
proof (induction n arbitrary: chain)
  case 0
  then show ?case by simp
next
  case (Suc n)
  show ?case
  proof (cases "\<exists>k. mi_fallback (rv_item (rs ! last chain)) \<noteq> []
      \<and> by_id rs (mi_fallback (rv_item (rs ! last chain))) = Some k \<and> k \<notin> set chain")
    case True
    then obtain k where k: "extend_chain (Suc n) rs chain = extend_chain n rs (chain @ [k])"
      by (auto simp: Let_def)
    show ?thesis using Suc.IH [of "chain @ [k]"] Suc.prems unfolding k by simp
  next
    case False
    then have "extend_chain (Suc n) rs chain = chain"
      by (auto simp: Let_def split: option.splits)
    with False Suc.prems show ?thesis by (auto simp: links_def)
  qed
qed

definition fallback_chain :: "resolved list \<Rightarrow> nat \<Rightarrow> nat list" where
  "fallback_chain rs primary = extend_chain (MAX_FALLBACK_CHAIN - 1) rs [primary]"

definition preferred :: "('a \<Rightarrow> bool) \<Rightarrow> 'a list \<Rightarrow> 'a option" where
  "preferred p xs =
     (case find p xs of Some i \<Rightarrow> Some i | None \<Rightarrow> (case xs of [] \<Rightarrow> None | i # _ \<Rightarrow> Some i))"

lemma preferred_Some:
  assumes "preferred p xs = Some i"
  shows "i \<in> set xs \<and> (p i \<or> (\<forall>x\<in>set xs. \<not> p x))"
proof (cases "find p xs")
  case None
  with assms show ?thesis by (auto simp: preferred_def find_None_iff split: list.splits)
next
  case (Some j)
  with assms show ?thesis by (auto simp: preferred_def find_Some_iff)
qed

lemma preferred_None [simp]: "preferred p xs = None \<longleftrightarrow> xs = []"
  by (auto simp: preferred_def split: option.splits list.splits)

definition held :: "resolved list \<Rightarrow> nat list \<Rightarrow> nat list" where
  "held rs chain = filter (\<lambda>i. rv_entry (rs ! i) \<noteq> None) chain"

lemma chapter_source_preferred:
  "chapter_source primary rs =
     preferred (\<lambda>i. is_markup (mi_media_type (rv_item (rs ! i))))
       (held rs (fallback_chain rs primary))"
  by (simp add: chapter_source_def fallback_chain_def preferred_def held_def Let_def)

lemma chapter_source_Some:
  assumes "chapter_source primary rs = Some i"
  shows "i \<in> set (fallback_chain rs primary) \<and> rv_entry (rs ! i) \<noteq> None"
  using preferred_Some [OF assms [unfolded chapter_source_preferred]] by (auto simp: held_def)

lemma fallback_chain_ok:
  assumes "primary < length rs"
  shows "chain_ok rs (fallback_chain rs primary)"
    and "hd (fallback_chain rs primary) = primary"
    and "length (fallback_chain rs primary) \<le> MAX_FALLBACK_CHAIN"
  using extend_chain_ok [of rs "[primary]" "MAX_FALLBACK_CHAIN - 1"] assms
  by (auto simp: fallback_chain_def MAX_FALLBACK_CHAIN_def prefix_def)

lemma chapter_source_held:
  assumes "primary < length rs" and "chapter_source primary rs = Some i"
  shows "i < length rs \<and> (\<exists>e. rv_entry (rs ! i) = Some e)"
  using chapter_source_Some [OF assms(2)] fallback_chain_ok(1) [OF assms(1)]
  by (auto simp: chain_ok_def)

section \<open>The resolved spine\<close>

definition settled_entry :: "nat list \<Rightarrow> resolved list \<Rightarrow> spine_entry \<Rightarrow> bool" where
  "settled_entry obfuscated rs = (\<lambda>(primary, source, itemref).
     by_id rs (si_idref itemref) = Some primary \<and> chapter_source primary rs = Some source
     \<and> primary < length rs \<and> source < length rs
     \<and> (\<exists>e. rv_entry (rs ! source) = Some e \<and> e \<notin> set obfuscated))"

lemma resolve_itemref_Inr:
  "resolve_itemref obfuscated rs itemref = Inr e \<Longrightarrow>
     settled_entry obfuscated rs e \<and> snd (snd e) = itemref"
  by (auto simp: resolve_itemref_def settled_entry_def dest: by_id_Some chapter_source_held
      split: option.splits if_splits)
    (metis by_id_Some chapter_source_held option.sel)+

lemma map_result_all:
  "map_result f xs = Inr ys \<Longrightarrow> (\<And>x y. f x = Inr y \<Longrightarrow> P y \<and> g y = x) \<Longrightarrow>
     list_all P ys \<and> map g ys = xs"
  by (induction xs arbitrary: ys) (auto simp: and_then_eq_Inr)

lemma settled_spine:
  "map_result (resolve_itemref obfuscated rs) items = Inr spine \<Longrightarrow>
     list_all (settled_entry obfuscated rs) spine \<and> map (snd \<circ> snd) spine = items"
  by (erule map_result_all) (auto dest: resolve_itemref_Inr)

lemma settled_entry_held:
  "settled_entry obfuscated rs e \<Longrightarrow>
     rv_entry (rs ! fst (snd e)) = Some (chapter_entry rs e) \<and> fst (snd e) < length rs
     \<and> chapter_entry rs e \<notin> set obfuscated"
  by (auto simp: settled_entry_def chapter_entry_def)


section \<open>The plan\<close>

text \<open>The items the walk sends as resources, and those it counts as skipped.\<close>

definition planned :: "effective \<Rightarrow> nat list \<Rightarrow> nat set \<Rightarrow> nat set \<Rightarrow> nat \<times> resolved \<Rightarrow> bool" where
  "planned limits obfuscated ids ces = (\<lambda>(pos, r).
     pos \<notin> ids \<and> rv_unusable r = None \<and> \<not> rv_remote r
     \<and> (\<exists>e. rv_entry r = Some e \<and> e \<notin> ces \<and> e \<notin> set obfuscated)
     \<and> \<not> is_nested_archive (mi_media_type (rv_item r)) (rv_path r)
     \<and> selected (classify (mi_media_type (rv_item r))) limits)"

definition passed_over :: "effective \<Rightarrow> nat list \<Rightarrow> nat set \<Rightarrow> nat set \<Rightarrow> nat \<times> resolved \<Rightarrow> bool" where
  "passed_over limits obfuscated ids ces = (\<lambda>(pos, r).
     pos \<notin> ids \<and> \<not> planned limits obfuscated ids ces (pos, r)
     \<and> (rv_unusable r = None \<and> \<not> rv_remote r \<longrightarrow> (\<forall>e. rv_entry r = Some e \<longrightarrow> e \<notin> ces)))"

lemma plan_item_cases:
  fixes limits obfuscated ids ces p pos r
  defines "p' \<equiv> plan_item limits obfuscated ids ces (pos, r) p"
  shows "pl_pending p' = pl_pending p
      @ (if planned limits obfuscated ids ces (pos, r) then [(the (rv_entry r), pos)] else [])"
    and "pl_skipped p' = pl_skipped p
      + (if passed_over limits obfuscated ids ces (pos, r) then 1 else 0)"
    and "warnings_fit (pl_warnings p) \<Longrightarrow> warnings_fit (pl_warnings p')"
  unfolding p'_def plan_item_def planned_def passed_over_def
  by (simp_all add: Let_def skip_item_def exclude_item_def split: option.splits)

lemma fold_plan_item:
  fixes limits obfuscated ids ces xs p
  defines "p' \<equiv> fold (plan_item limits obfuscated ids ces) xs p"
  shows "pl_pending p' = pl_pending p
      @ map (\<lambda>(pos, r). (the (rv_entry r), pos)) (filter (planned limits obfuscated ids ces) xs)"
    and "pl_skipped p' = pl_skipped p
      + of_nat (length (filter (passed_over limits obfuscated ids ces) xs))"
    and "warnings_fit (pl_warnings p) \<Longrightarrow> warnings_fit (pl_warnings p')"
  unfolding p'_def
proof (induction xs arbitrary: p)
  case Nil
  { case 1 show ?case by simp next case 2 show ?case by simp next case 3 then show ?case by simp }
next
  case (Cons x xs)
  obtain pos r where x: "x = (pos, r)" by (cases x)
  { case 1 show ?case by (simp add: x Cons.IH plan_item_cases)
  next case 2 show ?case by (simp add: x Cons.IH plan_item_cases)
  next case 3 then show ?case by (simp add: x Cons.IH plan_item_cases) }
qed

lemma dedup_entries_subset: "set (dedup_entries xs) \<subseteq> set xs"
  by (induction xs rule: dedup_entries.induct) auto

lemma dedup_entries_hd: "xs \<noteq> [] \<Longrightarrow> dedup_entries xs \<noteq> [] \<and> hd (dedup_entries xs) = hd xs"
  by (induction xs rule: dedup_entries.induct) auto

lemma dedup_entries_fst: "fst ` set (dedup_entries xs) = fst ` set xs"
  by (induction xs rule: dedup_entries.induct) auto

lemma dedup_entries_strict:
  "sorted xs \<Longrightarrow> sorted_wrt (<) (map fst (dedup_entries xs))"
proof (induction xs rule: dedup_entries.induct)
  case (3 x y ys)
  show ?case
  proof (cases "fst x = fst y")
    case True
    have "sorted (x # ys)" using 3(3) by (auto intro: order_trans)
    with 3(1) True show ?thesis by simp
  next
    case False
    have "sorted (y # ys)" using 3(3) by simp
    moreover have "fst x < fst z" if "z \<in> set (dedup_entries (y # ys))" for z
    proof -
      have "z \<in> set (y # ys)" using that dedup_entries_subset by blast
      then have "y \<le> z" using 3(3) by auto
      moreover have "x \<le> y" using 3(3) by simp
      ultimately show ?thesis using False by (auto simp: less_eq_prod_def)
    qed
    ultimately show ?thesis using 3(2) [OF False] False by simp
  qed
qed simp_all

text \<open>Of the pairs with one entry the first in the order is kept, so the least position.\<close>

lemma dedup_entries_least:
  "sorted xs \<Longrightarrow> (e, p) \<in> set (dedup_entries xs) \<Longrightarrow> (e, q) \<in> set xs \<Longrightarrow> p \<le> q"
proof (induction xs arbitrary: q rule: dedup_entries.induct)
  case (3 x y ys)
  have le: "x \<le> z" if "z \<in> set (x # y # ys)" for z using 3(3) that by auto
  show ?case
  proof (cases "fst x = fst y")
    case True
    then have s: "sorted (x # ys)" "(e, p) \<in> set (dedup_entries (x # ys))"
      using 3(3,4) by (auto intro: order_trans)
    show ?thesis
    proof (cases "(e, q) = y")
      case False
      with 3(1) [OF True s] 3(5) show ?thesis by auto
    next
      case True2: True
      with True have "(e, snd x) = x" by (cases x) auto
      then have "p \<le> snd x" using 3(1) [OF True s, of "snd x"] by auto
      moreover have "snd x \<le> q" using le [of "(e, q)"] True2 \<open>(e, snd x) = x\<close>
        by (cases x) (auto simp: less_eq_prod_def)
      ultimately show ?thesis by simp
    qed
  next
    case False
    have strict: "fst x < fst z" if "z \<in> set (y # ys)" for z
    proof -
      have "y \<le> z" using 3(3) that by auto
      with le [of y] False show ?thesis by (auto simp: less_eq_prod_def)
    qed
    show ?thesis
    proof (cases "(e, p) = x")
      case True
      then show ?thesis using le [OF 3(5)] by (auto simp: less_eq_prod_def)
    next
      case notx: False
      then have ep: "(e, p) \<in> set (dedup_entries (y # ys))" using 3(4) False by simp
      then have "(e, p) \<in> set (y # ys)" using dedup_entries_subset by blast
      then have "(e, q) \<noteq> x" using strict by fastforce
      with 3(2) [OF False _ ep] 3(3,5) show ?thesis by simp
    qed
  qed
qed auto


text \<open>The manifest positions whose bytes the walk could send as a resource, by archive entry.\<close>

definition sendable ::
  "effective \<Rightarrow> nat list \<Rightarrow> resolved list \<Rightarrow> spine_entry list \<Rightarrow> nat \<Rightarrow> nat \<Rightarrow> bool" where
  "sendable limits obfuscated rs spine e pos \<longleftrightarrow>
     pos < length rs \<and> rv_entry (rs ! pos) = Some e
     \<and> planned limits obfuscated (spine_sources spine) (set (map (chapter_entry rs) spine))
         (pos, rs ! pos)"

lemma planned_pairs:
  "set (map (\<lambda>(pos, r). (the (rv_entry r), pos))
     (filter (planned limits obfuscated (spine_sources spine) (set (map (chapter_entry rs) spine)))
       (enumerate 0 rs)))
   = {(e, pos). sendable limits obfuscated rs spine e pos}"
  by (auto simp: sendable_def in_set_enumerate_eq image_iff planned_def)

lemma pending_members:
  fixes limits obfuscated rs spine w
  defines "ps \<equiv> pl_pending (plan_walk limits obfuscated rs spine w)"
  shows "sorted_wrt (<) (map fst ps)"
    and "set (map fst ps) = {e. \<exists>pos. sendable limits obfuscated rs spine e pos}"
    and "(e, pos) \<in> set ps \<Longrightarrow> sendable limits obfuscated rs spine e pos"
    and "(e, pos) \<in> set ps \<Longrightarrow> sendable limits obfuscated rs spine e q \<Longrightarrow> pos \<le> q"
proof -
  let ?xs = "map (\<lambda>(pos, r). (the (rv_entry r), pos))
     (filter (planned limits obfuscated (spine_sources spine) (set (map (chapter_entry rs) spine)))
       (enumerate 0 rs))"
  have ps: "ps = dedup_entries (sort ?xs)"
    by (simp add: ps_def plan_walk_def Let_def fold_plan_item)
  have set_xs: "set (sort ?xs) = {(e, pos). sendable limits obfuscated rs spine e pos}"
    by (simp only: set_sort planned_pairs)
  show "sorted_wrt (<) (map fst ps)" unfolding ps by (rule dedup_entries_strict) simp
  have "set (map fst ps) = fst ` set (sort ?xs)"
    unfolding ps by (simp only: set_map dedup_entries_fst)
  then show "set (map fst ps) = {e. \<exists>pos. sendable limits obfuscated rs spine e pos}"
    unfolding set_xs by (auto simp: image_iff)
  show "(e, pos) \<in> set ps \<Longrightarrow> sendable limits obfuscated rs spine e pos"
    unfolding ps using dedup_entries_subset [of "sort ?xs"] set_xs by auto
  show "(e, pos) \<in> set ps \<Longrightarrow> sendable limits obfuscated rs spine e q \<Longrightarrow> pos \<le> q"
    unfolding ps by (rule dedup_entries_least [of "sort ?xs" e pos]) (simp_all only: sorted_sort set_xs, simp)
qed

lemma pending_entries:
  "map fst (pl_pending (plan_walk limits obfuscated rs spine w)) =
     sorted_list_of_set {e. \<exists>pos. sendable limits obfuscated rs spine e pos}"
proof -
  let ?ps = "pl_pending (plan_walk limits obfuscated rs spine w)"
  note members = pending_members [where limits = limits and obfuscated = obfuscated and rs = rs
      and spine = spine and w = w]
  have "map fst ?ps = sorted_list_of_set (set (map fst ?ps))"
    using members(1) by (simp only: strict_sorted_iff sorted_list_of_set.idem_if_sorted_distinct)
  then show ?thesis unfolding members(2) .
qed

lemma map_of_keys:
  assumes "map fst ps = ks" and "\<And>k v. (k, v) \<in> set ps \<Longrightarrow> v = f k"
  shows "ps = map (\<lambda>k. (k, f k)) ks"
  using assms by (induction ps arbitrary: ks) auto

text \<open>The overlay an item names, without the list of pairs.\<close>

definition overlay_of :: "resolved list \<Rightarrow> nat \<Rightarrow> string" where
  "overlay_of rs pos =
     (case by_id rs (mi_media_overlay (rv_item (rs ! pos))) of
        Some ov \<Rightarrow> if rv_unusable (rs ! ov) = None then rv_path (rs ! ov) else []
      | None \<Rightarrow> [])"

lemma overlay_href_links:
  assumes "pos < length rs"
  shows "overlay_href rs (overlay_links rs) pos = overlay_of rs pos"
proof -
  let ?link = "\<lambda>pos. case by_id rs (mi_media_overlay (rv_item (rs ! pos))) of
      None \<Rightarrow> None | Some ov \<Rightarrow> if rv_unusable (rs ! ov) = None then Some (pos, ov) else None"
  have "find (\<lambda>(owner, _). owner = pos) (List.map_filter ?link is) = (if pos \<in> set is then ?link pos else None)"
    for "is"
    by (induction "is") (auto simp: map_filter_simps split: option.splits if_splits)
  then have "find (\<lambda>(owner, _). owner = pos) (overlay_links rs) = ?link pos"
    using assms by (simp add: overlay_links_def)
  then show ?thesis
    by (simp add: overlay_href_def overlay_of_def split: option.splits)
qed

section \<open>Properties\<close>

text \<open>
  Property C9.  The plan of the walk, in full: the resources go out in archive order, one for each
  archive entry that some manifest item may send (in the archive, not a chapter, not a nested
  archive, of a kind the options ask for, not obfuscated), under the first such item; the skip
  count is the number of items passed over.
\<close>

theorem plan_walk_resources:
  "pl_pending (plan_walk limits obfuscated rs spine w) =
     map (\<lambda>e. (e, LEAST pos. sendable limits obfuscated rs spine e pos))
       (sorted_list_of_set {e. \<exists>pos. sendable limits obfuscated rs spine e pos})
   \<and> pl_skipped (plan_walk limits obfuscated rs spine w) =
       of_nat (card {pos. pos < length rs
         \<and> passed_over limits obfuscated (spine_sources spine) (set (map (chapter_entry rs) spine))
             (pos, rs ! pos)})"
proof
  let ?ps = "pl_pending (plan_walk limits obfuscated rs spine w)"
    and ?ok = "sendable limits obfuscated rs spine"
  note members = pending_members [where limits = limits and obfuscated = obfuscated and rs = rs
      and spine = spine and w = w]
  have "map fst ?ps = sorted_list_of_set {e. \<exists>pos. ?ok e pos}" by (rule pending_entries)
  then show "?ps = map (\<lambda>e. (e, LEAST pos. ?ok e pos)) (sorted_list_of_set {e. \<exists>pos. ?ok e pos})"
    by (rule map_of_keys) (metis Least_equality members(3,4))
next
  let ?over = "passed_over limits obfuscated (spine_sources spine)
    (set (map (chapter_entry rs) spine))"
  have "length (filter ?over (enumerate 0 rs)) = card (set (filter ?over (enumerate 0 rs)))"
    by (rule distinct_card [symmetric]) simp
  also have "\<dots> = card (fst ` set (filter ?over (enumerate 0 rs)))"
    by (rule card_image [symmetric]) (auto simp: inj_on_def in_set_enumerate_eq)
  also have "fst ` set (filter ?over (enumerate 0 rs)) =
      {pos. pos < length rs \<and> ?over (pos, rs ! pos)}"
    by (force simp: in_set_enumerate_eq)
  finally show "pl_skipped (plan_walk limits obfuscated rs spine w) =
      of_nat (card {pos. pos < length rs \<and> ?over (pos, rs ! pos)})"
    by (simp add: plan_walk_def Let_def fold_plan_item)
qed


text \<open>
  Property C10.  The item a chapter is read from.  The fallbacks followed form a chain of distinct
  items, at most sixteen, that starts at the spine item and ends early only where there is no
  further item to go to, whatever loop the manifest writes; the source is an item of the chain the
  archive holds, markup whenever the chain has held markup, and there is none exactly when the
  archive holds nothing of the chain.
\<close>

theorem chapter_source_choice:
  assumes "primary < length rs"
  defines "chain \<equiv> fallback_chain rs primary"
  shows "hd chain = primary \<and> distinct chain \<and> length chain \<le> 16 \<and> successively (links rs) chain
    \<and> (length chain < 16 \<and> mi_fallback (rv_item (rs ! last chain)) \<noteq> []
         \<longrightarrow> (\<forall>j. links rs (last chain) j \<longrightarrow> j \<in> set chain))
    \<and> (chapter_source primary rs = None \<longleftrightarrow> held rs chain = [])
    \<and> (\<forall>i. chapter_source primary rs = Some i \<longrightarrow>
         i \<in> set (held rs chain)
         \<and> (is_markup (mi_media_type (rv_item (rs ! i)))
            \<or> (\<forall>k\<in>set (held rs chain). \<not> is_markup (mi_media_type (rv_item (rs ! k))))))"
proof (intro conjI)
  note ok = fallback_chain_ok [OF assms(1), folded chain_def]
  show "hd chain = primary" by (fact ok(2))
  show "length chain \<le> 16" using ok(3) by (simp add: MAX_FALLBACK_CHAIN_def)
  show "distinct chain" "successively (links rs) chain" using ok(1) by (simp_all add: chain_ok_def)
  show "length chain < 16 \<and> mi_fallback (rv_item (rs ! last chain)) \<noteq> []
         \<longrightarrow> (\<forall>j. links rs (last chain) j \<longrightarrow> j \<in> set chain)"
    using extend_chain_stops [of 15 rs "[primary]"]
    by (auto simp: chain_def fallback_chain_def MAX_FALLBACK_CHAIN_def)
  show "chapter_source primary rs = None \<longleftrightarrow> held rs chain = []"
    by (simp add: chapter_source_preferred chain_def)
  show "\<forall>i. chapter_source primary rs = Some i \<longrightarrow>
         i \<in> set (held rs chain)
         \<and> (is_markup (mi_media_type (rv_item (rs ! i)))
            \<or> (\<forall>k\<in>set (held rs chain). \<not> is_markup (mi_media_type (rv_item (rs ! k)))))"
    by (auto simp: chapter_source_preferred chain_def dest: preferred_Some)
qed

text \<open>A manifest item with an id, a media type and a fallback, and whether the archive holds it.\<close>

definition listed :: "string \<Rightarrow> string \<Rightarrow> string \<Rightarrow> nat option \<Rightarrow> resolved" where
  "listed ident media fallback entry =
     \<lparr>rv_item = \<lparr>mi_id = ident, mi_href = ident, mi_media_type = media, mi_properties = [],
        mi_media_overlay = [], mi_fallback = fallback\<rparr>,
      rv_path = ident, rv_entry = entry, rv_remote = False, rv_unusable = None\<rparr>"

text \<open>An image page that falls back to the page showing it, which falls back to the image.\<close>

theorem chapter_source_choice_witness:
  "hd (fallback_chain [listed ''i'' ''image/png'' ''p'' (Some 4), listed ''p'' ''text/html'' ''i'' (Some 2)] 0) = 0
   \<and> length (fallback_chain
        [listed ''i'' ''image/png'' ''p'' (Some 4), listed ''p'' ''text/html'' ''i'' (Some 2)] 0) \<le> 16
   \<and> chapter_source 0
        [listed ''i'' ''image/png'' ''p'' (Some 4), listed ''p'' ''text/html'' ''i'' (Some 2)] = Some 1"
proof (intro conjI)
  let ?rs = "[listed ''i'' ''image/png'' ''p'' (Some 4), listed ''p'' ''text/html'' ''i'' (Some 2)]"
  have "0 < length ?rs" by simp
  note facts = chapter_source_choice [OF this]
  show "hd (fallback_chain ?rs 0) = 0" "length (fallback_chain ?rs 0) \<le> 16"
    using facts by blast+
  show "chapter_source 0 ?rs = Some 1"
    by (simp add: chapter_source_def listed_def by_id_def is_markup_def media_base_def Let_def
        numeral_eq_Suc MAX_FALLBACK_CHAIN_def plain_text before_def)
qed

text \<open>
  The \<open>media-overlay\<close> attribute is looked up even when it is absent: an item without one is paired
  with the first item that has no id, if there is one.
\<close>

lemma absent_overlay_is_linked:
  assumes "pos < length rs" and "mi_media_overlay (rv_item (rs ! pos)) = []"
    and "by_id rs [] = Some ov" and "rv_unusable (rs ! ov) = None"
  shows "(pos, ov) \<in> set (overlay_links rs)"
  using assms by (force simp: overlay_links_def map_filter_def)

lemma absent_toc_is_looked_up:
  assumes "pk_toc_idref k = []" and "by_id rs [] = Some pos" and "rv_entry (rs ! pos) = Some e"
    and "\<forall>r\<in>set rs. \<not> has_property ''nav'' r"
  shows "navigation_source rs k = Some \<lparr>ng_position = pos, ng_entry = e, ng_from_ncx = True\<rparr>"
  using assms by (simp add: navigation_source_def position_None [THEN iffD2])

end
