(* ===== verification/Driver.thy ===== *)
theory Driver imports Extract begin

text \<open>
  \<open>src/extract.rs\<close>, the part that reads and sends: \<open>Sink\<close>, \<open>Preread\<close>, \<open>parse\<close> and \<open>run\<close>.

  A computation takes the \<open>call_state\<close>, the mutable locals of \<open>parse\<close> with the sink, and gives an
  \<open>abort\<close> or a value together with the state it leaves: what was sent before an abort stays sent.
  \<open>seq\<close> is the \<open>?\<close> operator over computations.  A panic of the fold is an \<open>abort\<close> too, which \<open>run\<close>
  gives as the panic the parse unwinds with.  The response channel is the oracle \<open>sk_channel\<close>,
  which answers the n-th message handed to it: accepted at once, closed, or full; when it is full,
  whether a runtime is there to wait on and whether the wait ends in time.

  The second half states what a call sends: \<open>script\<close> is the list of events up to the trailer as a
  function of the settled book and of what the entries inflate to, and \<open>emits\<close> relates a
  computation to the events it sends, to the fold it feeds with them and to how it ends.  \<open>script\<close> and
  what it is made of are specification: they stand for no lines of the source.
\<close>

section \<open>The state of a call\<close>

text \<open>Why a computation ends early: \<open>Abort\<close>, or a panic that unwinds the parse.\<close>

datatype abort = Gone | Failed status | Raised panic

datatype delivery = TrySent | TryClosed | TryFull bool bool

record ('f, 'doc) sink =
  sk_wire :: "'doc event list"
  sk_channel :: "nat \<Rightarrow> delivery"
  sk_fold :: "'f option"

record ('f, 'doc) call_state =
  cs_budget :: budget
  cs_warnings :: warnings
  cs_preread :: "nat \<Rightarrow> string option"
  cs_chapters :: u32
  cs_emitted :: u32
  cs_metrics :: metrics
  cs_sink :: "('f, 'doc) sink"

type_synonym ('f, 'doc, 'a) call =
  "('f, 'doc) call_state \<Rightarrow> (abort + 'a) \<times> ('f, 'doc) call_state"

text \<open>What a call reads from throughout: the parameters and the opened archive.\<close>

record ('f, 'doc) setting =
  se_reader :: xml_reader
  se_projection :: "('f, 'doc) projection"
  se_limits :: effective
  se_archive :: memory_archive
  se_entries :: "entry_info list"

definition ret :: "'a \<Rightarrow> ('f, 'doc, 'a) call" where
  "ret x s = (Inr x, s)"

definition seq :: "('f, 'doc, 'a) call \<Rightarrow> ('a \<Rightarrow> ('f, 'doc, 'b) call) \<Rightarrow> ('f, 'doc, 'b) call" where
  "seq m f s = (case m s of (Inl a, s') \<Rightarrow> (Inl a, s') | (Inr x, s') \<Rightarrow> f x s')"

definition checked :: "status + 'a \<Rightarrow> ('f, 'doc, 'a) call" where
  "checked r s = (case r of Inl e \<Rightarrow> (Inl (Failed e), s) | Inr x \<Rightarrow> (Inr x, s))"

definition modify ::
  "(('f, 'doc) call_state \<Rightarrow> ('f, 'doc) call_state) \<Rightarrow> ('f, 'doc, unit) call" where
  "modify f s = (Inr (), f s)"

fun each :: "('a \<Rightarrow> ('f, 'doc, unit) call) \<Rightarrow> 'a list \<Rightarrow> ('f, 'doc, unit) call" where
  "each f [] = ret ()"
| "each f (x # xs) = seq (f x) (\<lambda>_. each f xs)"

section \<open>The sink\<close>

definition deliver :: "'doc event \<Rightarrow> ('f, 'doc) call_state \<Rightarrow> ('f, 'doc) call_state" where
  "deliver ev s = s\<lparr>cs_sink := (cs_sink s)\<lparr>sk_wire := sk_wire (cs_sink s) @ [ev]\<rparr>\<rparr>"

definition send :: "'doc event \<Rightarrow> ('f, 'doc, unit) call" where
  "send ev s =
     (case sk_channel (cs_sink s) (length (sk_wire (cs_sink s))) of
        TrySent \<Rightarrow> (Inr (), deliver ev s)
      | TryClosed \<Rightarrow> (Inl Gone, s)
      | TryFull has_runtime in_time \<Rightarrow>
          if \<not> has_runtime then (Inl Gone, s)
          else if in_time then (Inr (), deliver ev s)
          else (Inl Gone, s))"

definition set_fold :: "'f \<Rightarrow> ('f, 'doc) call_state \<Rightarrow> ('f, 'doc) call_state" where
  "set_fold f s = s\<lparr>cs_sink := (cs_sink s)\<lparr>sk_fold := Some f\<rparr>\<rparr>"

definition emit :: "('f, 'doc) setting \<Rightarrow> 'doc event \<Rightarrow> ('f, 'doc, unit) call" where
  "emit st ev s =
     (case sk_fold (cs_sink s) of
        None \<Rightarrow> send ev s
      | Some f \<Rightarrow>
          (case pj_consume (se_projection st) ev f of
             Inl p \<Rightarrow> (Inl (Raised p), s)
           | Inr f1 \<Rightarrow>
               (case ev of
                  EventStatus _ \<Rightarrow>
                    (case pj_take (se_projection st) f1 of
                       (doc, f2) \<Rightarrow> seq (send (EventDocument doc)) (\<lambda>_. send ev) (set_fold f2 s))
                | _ \<Rightarrow> send ev (set_fold f1 s))))"

definition set_source_hash ::
  "('f, 'doc) projection \<Rightarrow> u64 \<Rightarrow> ('f, 'doc) call_state \<Rightarrow> ('f, 'doc) call_state" where
  "set_source_hash pj hash s =
     (case sk_fold (cs_sink s) of
        None \<Rightarrow> s
      | Some f \<Rightarrow> set_fold (pj_set_source_hash pj hash f) s)"

section \<open>Reading entries\<close>

definition warn ::
  "warning_code \<Rightarrow> string \<Rightarrow> message \<Rightarrow> ('f, 'doc, unit) call" where
  "warn code href msg = modify (\<lambda>s. s\<lparr>cs_warnings := push_warning code href msg (cs_warnings s)\<rparr>)"

definition read_archive :: "('f, 'doc) setting \<Rightarrow> entry_info \<Rightarrow> ('f, 'doc, string) call" where
  "read_archive st entry s =
     (case read_entry (se_archive st) entry (se_limits st) (cs_budget s) of
        Inl e \<Rightarrow> (Inl (Failed e), s)
      | Inr (out, b) \<Rightarrow> (Inr out, s\<lparr>cs_budget := b\<rparr>))"

definition count :: "(metrics \<Rightarrow> metrics) \<Rightarrow> ('f, 'doc, unit) call" where
  "count f = modify (\<lambda>s. s\<lparr>cs_metrics := f (cs_metrics s)\<rparr>)"

definition read_at :: "('f, 'doc) setting \<Rightarrow> nat \<Rightarrow> ('f, 'doc, string) call" where
  "read_at st e =
     seq (read_archive st (se_entries st ! e)) (\<lambda>bytes.
     seq (count (inflated (of_nat (length bytes)))) (\<lambda>_. ret bytes))"

definition read_named ::
  "('f, 'doc) setting \<Rightarrow> entry_index \<Rightarrow> string \<Rightarrow> ('f, 'doc, string option) call" where
  "read_named st index name =
     (case index name of
        None \<Rightarrow> ret None
      | Some pos \<Rightarrow> seq (read_archive st (se_entries st ! pos)) (\<lambda>bytes. ret (Some bytes)))"

definition preread_take :: "nat \<Rightarrow> ('f, 'doc, string option) call" where
  "preread_take e s = (Inr (cs_preread s e), s\<lparr>cs_preread := (cs_preread s)(e := None)\<rparr>)"

definition preread_read :: "('f, 'doc) setting \<Rightarrow> nat \<Rightarrow> ('f, 'doc, string) call" where
  "preread_read st e =
     seq (preread_take e) (\<lambda>kept. case kept of Some bytes \<Rightarrow> ret bytes | None \<Rightarrow> read_at st e)"

definition preread_keep :: "nat \<Rightarrow> string \<Rightarrow> ('f, 'doc, unit) call" where
  "preread_keep e bytes = modify (\<lambda>s. s\<lparr>cs_preread := (cs_preread s)(e \<mapsto> bytes)\<rparr>)"

section \<open>Is this an EPUB, and what is in it\<close>

definition warn_unusable :: "(string \<times> path_error) list \<Rightarrow> ('f, 'doc, unit) call" where
  "warn_unusable unusable =
     each (\<lambda>(name, error). warn UnusableEntryName []
       ([Lit ''archive entry ''] @ quoted name @ [Lit '' was left out: ''] @ path_error_message error))
     unusable"

definition read_encryption ::
  "('f, 'doc) setting \<Rightarrow> entry_index \<Rightarrow> ('f, 'doc, nat list) call" where
  "read_encryption st index =
     (case index ENCRYPTION_PATH of
        None \<Rightarrow> ret []
      | Some pos \<Rightarrow>
          seq (read_at st pos) (\<lambda>descriptor.
            checked (obfuscated_entries (se_reader st) descriptor index)))"

definition declared_mimetype :: "string option \<Rightarrow> string option" where
  "declared_mimetype bytes =
     (case bytes of
        None \<Rightarrow> None
      | Some b \<Rightarrow> if length b \<le> MAX_MIMETYPE_BYTES then Some (trim (from_utf8_lossy b)) else None)"

definition claims_epub :: "string option \<Rightarrow> bool" where
  "claims_epub declared \<longleftrightarrow> declared = Some EPUB_MIMETYPE"

definition no_container :: "string option \<Rightarrow> status" where
  "no_container declared =
     (if claims_epub declared then
        Status InvalidArgument
          [Lit ''the archive declares itself an EPUB but has no META-INF/container.xml'']
      else
        Status Unimplemented
          [Lit ''this is a ZIP archive but not an EPUB: no META-INF/container.xml, and `mimetype` is '',
           case declared of None \<Rightarrow> Lit ''absent'' | Some m \<Rightarrow> Dbg m])"

definition warn_mimetype :: "string option \<Rightarrow> ('f, 'doc, unit) call" where
  "warn_mimetype declared =
     (if claims_epub declared then ret ()
      else warn WarnMetadata MIMETYPE_PATH
        (case declared of
           Some found \<Rightarrow> [Lit ''`mimetype` is '', Dbg found, Lit '', expected '', Dbg EPUB_MIMETYPE]
         | None \<Rightarrow> [Lit ''the archive has no `mimetype` entry'']))"

text \<open>The entry \<open>META-INF/container.xml\<close> is in, or the refusal of an archive without one.\<close>

definition find_container ::
  "('f, 'doc) setting \<Rightarrow> entry_index \<Rightarrow> ('f, 'doc, nat) call" where
  "find_container st index =
     seq (read_named st index MIMETYPE_PATH) (\<lambda>bytes.
       let declared = declared_mimetype bytes
       in case index CONTAINER_PATH of
            None \<Rightarrow> checked (Inl (no_container declared))
          | Some pos \<Rightarrow> seq (warn_mimetype declared) (\<lambda>_. ret pos))"

definition xml_status :: "string \<Rightarrow> xml_error \<Rightarrow> status" where
  "xml_status path e = Status InvalidArgument ([Str path, Lit '': ''] @ xml_error_message e)"

definition rootfile :: "entry_index \<Rightarrow> string \<Rightarrow> status + string \<times> nat" where
  "rootfile index opf_href =
     (case resolve [] opf_href of
        Inr (Entry opf_path) \<Rightarrow>
          (case lookup_entry index opf_path [] opf_href of
             Some pos \<Rightarrow> Inr (opf_path, pos)
           | None \<Rightarrow>
               Inl (Status InvalidArgument
                 [Str CONTAINER_PATH, Lit '' names the rootfile '', Dbg opf_path,
                  Lit '', which the archive does not contain'']))
      | _ \<Rightarrow>
          Inl (Status InvalidArgument
            [Str CONTAINER_PATH, Lit '' names an unusable rootfile '', Dbg opf_href]))"

definition read_package ::
  "('f, 'doc) setting \<Rightarrow> entry_index \<Rightarrow> nat \<Rightarrow> ('f, 'doc, string \<times> package) call" where
  "read_package st index container_pos =
     seq (read_at st container_pos) (\<lambda>container.
     seq (checked (map_err (xml_status CONTAINER_PATH) (parse_container (se_reader st) container)))
       (\<lambda>opf_href.
     seq (checked (rootfile index opf_href)) (\<lambda>(opf_path, opf_pos).
     seq (read_at st opf_pos) (\<lambda>opf_bytes.
     seq (checked (map_err (xml_status opf_path) (parse_package (se_reader st) opf_bytes)))
       (\<lambda>k. ret (opf_path, k))))))"

text \<open>The book once the spine is resolved, before any event.\<close>

record book =
  bk_obfuscated :: "nat list"
  bk_opf_path :: string
  bk_package :: package
  bk_resolved :: "resolved list"
  bk_spine :: "spine_entry list"

definition settle ::
  "entry_index \<Rightarrow> nat list \<Rightarrow> string \<Rightarrow> package \<Rightarrow> status + book" where
  "settle index obfuscated opf_path k =
     (let rs = map (resolve_item index (parent_dir opf_path)) (pk_manifest k)
      in and_then (map_result (resolve_itemref obfuscated rs) (pk_spine k)) (\<lambda>spine.
           Inr \<lparr>bk_obfuscated = obfuscated, bk_opf_path = opf_path, bk_package = k,
             bk_resolved = rs, bk_spine = spine\<rparr>))"

definition read_book :: "('f, 'doc) setting \<Rightarrow> entry_index \<Rightarrow> ('f, 'doc, book) call" where
  "read_book st index =
     seq (read_encryption st index) (\<lambda>obfuscated.
     seq (find_container st index) (\<lambda>container_pos.
     seq (read_package st index container_pos) (\<lambda>(opf_path, k).
       checked (settle index obfuscated opf_path k))))"


section \<open>Sending the book\<close>

definition parse_navigation_document ::
  "xml_reader \<Rightarrow> nav_source \<Rightarrow> string \<Rightarrow> string \<Rightarrow> navigation" where
  "parse_navigation_document reader source bytes path =
     (if ng_from_ncx source then parse_ncx reader bytes path else parse_nav reader bytes path)"

definition send_navigation ::
  "('f, 'doc) setting \<Rightarrow> book \<Rightarrow> nat set \<Rightarrow> ('f, 'doc, unit) call" where
  "send_navigation st b wanted =
     (case (if eff_parse_navigation (se_limits st)
            then navigation_source (bk_resolved b) (bk_package b) else None) of
        None \<Rightarrow> ret ()
      | Some source \<Rightarrow>
          let path = rv_path (bk_resolved b ! ng_position source)
          in seq (preread_read st (ng_entry source)) (\<lambda>bytes.
               let parsed = parse_navigation_document (se_reader st) source bytes path
               in seq (if ng_entry source \<in> wanted then preread_keep (ng_entry source) bytes else ret ())
                    (\<lambda>_. if nav_is_empty parsed
                        then warn WarnMetadata path
                          [Lit ''the navigation document named no entries this server could read'']
                        else emit st (EventNavigation (pb_navigation_of parsed)))))"

text \<open>One turn of the overlay loop: the pair at \<open>i\<close>; \<open>last\<close> is \<open>last_use\<close>.\<close>

definition send_overlay ::
  "('f, 'doc) setting \<Rightarrow> resolved list \<Rightarrow> nat set \<Rightarrow> (nat \<Rightarrow> nat option) \<Rightarrow> nat \<times> nat \<times> nat
     \<Rightarrow> ('f, 'doc, unit) call" where
  "send_overlay st rs wanted last_at = (\<lambda>(i, pos, ov).
     case rv_entry (rs ! ov) of
       None \<Rightarrow> ret ()
     | Some entry \<Rightarrow>
         let path = rv_path (rs ! ov)
         in seq (preread_read st entry) (\<lambda>bytes.
              let parsed = parse_overlay (se_reader st) bytes path
              in seq (if entry \<in> wanted \<or> the (last_at entry) > i
                      then preread_keep entry bytes else ret ())
                   (\<lambda>_. if overlay_is_empty parsed
                       then warn WarnMetadata path
                         [Lit ''the media overlay declared no cues this server could read'']
                       else emit st (EventMediaOverlay (pb_overlay_of (rv_path (rs ! pos)) parsed)))))"

definition send_overlays ::
  "('f, 'doc) setting \<Rightarrow> book \<Rightarrow> nat set \<Rightarrow> ('f, 'doc, unit) call" where
  "send_overlays st b wanted =
     (if eff_parse_media_overlays (se_limits st) then
        let overlays = overlay_links (bk_resolved b)
        in each (send_overlay st (bk_resolved b) wanted (last_use (bk_resolved b) overlays))
             (enumerate 0 overlays)
      else ret ())"

definition entry_content :: "('f, 'doc) setting \<Rightarrow> nat \<Rightarrow> ('f, 'doc, string) call" where
  "entry_content st e =
     seq (preread_take e) (\<lambda>kept. case kept of Some bytes \<Rightarrow> ret bytes | None \<Rightarrow> read_at st e)"

definition resource_of :: "resolved \<Rightarrow> string \<Rightarrow> string \<Rightarrow> resource_msg" where
  "resource_of target media_overlay_href content =
     \<lparr>rs_href = rv_path target, rs_media_type = mi_media_type (rv_item target),
      rs_kind = kind_number (classify (mi_media_type (rv_item target))), rs_content = content,
      rs_manifest_id = mi_id (rv_item target), rs_properties = mi_properties (rv_item target),
      rs_media_overlay_href = media_overlay_href\<rparr>"

definition emit_resource ::
  "('f, 'doc) setting \<Rightarrow> book \<Rightarrow> nat \<times> nat \<Rightarrow> ('f, 'doc, unit) call" where
  "emit_resource st b = (\<lambda>(entry, pos).
     seq (entry_content st entry) (\<lambda>content.
     seq (emit st (EventResource
            (resource_of (bk_resolved b ! pos)
              (overlay_href (bk_resolved b) (overlay_links (bk_resolved b)) pos) content))) (\<lambda>_.
     seq (count resource_emitted) (\<lambda>_.
       modify (\<lambda>s. s\<lparr>cs_emitted := cs_emitted s + 1\<rparr>)))))"

text \<open>\<open>while pending.peek() is below chapter_entry\<close>: what is left of \<open>pending\<close> is the value.\<close>

fun drain ::
  "('f, 'doc) setting \<Rightarrow> book \<Rightarrow> nat \<Rightarrow> (nat \<times> nat) list \<Rightarrow> ('f, 'doc, (nat \<times> nat) list) call" where
  "drain st b limit [] = ret []"
| "drain st b limit (r # rest) =
     (if fst r < limit then seq (emit_resource st b r) (\<lambda>_. drain st b limit rest)
      else ret (r # rest))"

definition primary_href :: "resolved list \<Rightarrow> nat \<Rightarrow> nat \<Rightarrow> string" where
  "primary_href rs primary source =
     (if primary = source \<or> rv_remote (rs ! primary) \<or> rv_unusable (rs ! primary) \<noteq> None then []
      else rv_path (rs ! primary))"

definition chapter_overlay_href :: "resolved list \<Rightarrow> nat \<Rightarrow> nat \<Rightarrow> string" where
  "chapter_overlay_href rs primary source =
     (let own = overlay_href rs (overlay_links rs) source
      in if own = [] then overlay_href rs (overlay_links rs) primary else own)"

definition chapter_of :: "resolved list \<Rightarrow> nat \<times> spine_entry \<Rightarrow> string \<Rightarrow> chapter_msg" where
  "chapter_of rs = (\<lambda>(spine_index, primary, source, itemref) content.
     \<lparr>ch_spine_index = u32_or_max spine_index, ch_idref = si_idref itemref,
      ch_href = rv_path (rs ! source), ch_media_type = mi_media_type (rv_item (rs ! source)),
      ch_content = content, ch_linear = si_linear itemref,
      ch_properties = mi_properties (rv_item (rs ! source)),
      ch_media_overlay_href = chapter_overlay_href rs primary source,
      ch_primary_href = primary_href rs primary source\<rparr>)"

definition emit_chapter ::
  "('f, 'doc) setting \<Rightarrow> book \<Rightarrow> nat \<times> spine_entry \<Rightarrow> ('f, 'doc, unit) call" where
  "emit_chapter st b entry =
     seq (entry_content st (chapter_entry (bk_resolved b) (snd entry))) (\<lambda>content.
     seq (emit st (EventChapter (chapter_of (bk_resolved b) entry content))) (\<lambda>_.
     seq (count chapter_emitted) (\<lambda>_.
       modify (\<lambda>s. s\<lparr>cs_chapters := cs_chapters s + 1\<rparr>))))"

fun walk_spine ::
  "('f, 'doc) setting \<Rightarrow> book \<Rightarrow> (nat \<times> spine_entry) list \<Rightarrow> (nat \<times> nat) list
     \<Rightarrow> ('f, 'doc, (nat \<times> nat) list) call" where
  "walk_spine st b [] pending = ret pending"
| "walk_spine st b (entry # rest) pending =
     seq (drain st b (chapter_entry (bk_resolved b) (snd entry)) pending) (\<lambda>left.
     seq (emit_chapter st b entry) (\<lambda>_. walk_spine st b rest left))"

definition trailer_of :: "u32 \<Rightarrow> ('f, 'doc) call_state \<Rightarrow> parse_status" where
  "trailer_of skipped s =
     \<lparr>ps_chapters_emitted = cs_chapters s, ps_resources_emitted = cs_emitted s,
      ps_resources_skipped = skipped, ps_uncompressed_bytes = consumed (cs_budget s),
      ps_entries_read = entries_read (cs_budget s), ps_warnings = wa_entries (cs_warnings s)\<rparr>"

definition emit_status :: "('f, 'doc) setting \<Rightarrow> u32 \<Rightarrow> ('f, 'doc, unit) call" where
  "emit_status st skipped s = emit st (EventStatus (trailer_of skipped s)) s"

definition make_plan :: "('f, 'doc) setting \<Rightarrow> book \<Rightarrow> ('f, 'doc, plan) call" where
  "make_plan st b s =
     (let p = plan_walk (se_limits st) (bk_obfuscated b) (bk_resolved b) (bk_spine b) (cs_warnings s)
      in (Inr p, s\<lparr>cs_warnings := pl_warnings p\<rparr>))"

definition info_of :: "book \<Rightarrow> epub_info" where
  "info_of b = epub_info_of (bk_package b) (bk_opf_path b) (bk_resolved b) (bk_spine b)"

definition send_book :: "('f, 'doc) setting \<Rightarrow> book \<Rightarrow> ('f, 'doc, unit) call" where
  "send_book st b =
     seq (emit st (EventInfo (info_of b))) (\<lambda>_.
     seq (make_plan st b) (\<lambda>p.
     let wanted = will_emit (bk_resolved b) (bk_spine b) (pl_pending p)
     in seq (send_navigation st b wanted) (\<lambda>_.
        seq (send_overlays st b wanted) (\<lambda>_.
        seq (walk_spine st b (enumerate 0 (bk_spine b)) (pl_pending p)) (\<lambda>left.
        seq (each (emit_resource st b) left) (\<lambda>_.
          emit_status st (pl_skipped p)))))))"

section \<open>The whole parse\<close>

definition open_book ::
  "xml_reader \<Rightarrow> (string \<Rightarrow> zip_error + memory_archive) \<Rightarrow> ('f, 'doc) projection \<Rightarrow> effective
     \<Rightarrow> string \<Rightarrow> ('f, 'doc, ('f, 'doc) setting \<times> book) call" where
  "open_book reader zip_new pj limits bytes =
     seq (modify (set_source_hash pj (source_hash bytes))) (\<lambda>_.
     seq (checked (open_archive zip_new bytes limits)) (\<lambda>archive.
     seq (checked (scan archive)) (\<lambda>sc.
     let st = \<lparr>se_reader = reader, se_projection = pj, se_limits = limits, se_archive = archive,
                se_entries = scan_entries sc\<rparr>
     in seq (warn_unusable (scan_unusable sc)) (\<lambda>_.
        seq (read_book st (index_of (scan_entries sc))) (\<lambda>b. ret (st, b))))))"

definition parse ::
  "xml_reader \<Rightarrow> (string \<Rightarrow> zip_error + memory_archive) \<Rightarrow> ('f, 'doc) projection \<Rightarrow> effective
     \<Rightarrow> string \<Rightarrow> ('f, 'doc, unit) call" where
  "parse reader zip_new pj limits bytes =
     seq (open_book reader zip_new pj limits bytes) (\<lambda>(st, b). send_book st b)"

definition start_call :: "effective \<Rightarrow> metrics \<Rightarrow> ('f, 'doc) sink \<Rightarrow> ('f, 'doc) call_state" where
  "start_call limits m snk =
     \<lparr>cs_budget = new_budget (eff_max_uncompressed_bytes limits), cs_warnings = no_warnings,
      cs_preread = Map.empty, cs_chapters = 0, cs_emitted = 0, cs_metrics = m, cs_sink = snk\<rparr>"

definition new_sink :: "(nat \<Rightarrow> delivery) \<Rightarrow> 'f option \<Rightarrow> ('f, 'doc) sink" where
  "new_sink channel projection = \<lparr>sk_wire = [], sk_channel = channel, sk_fold = projection\<rparr>"

datatype outcome = Complete | Abandoned | CallFailed status

definition outcome_of :: "abort + unit \<Rightarrow> panic + outcome" where
  "outcome_of r =
     (case r of
        Inr _ \<Rightarrow> Inr Complete
      | Inl Gone \<Rightarrow> Inr Abandoned
      | Inl (Failed e) \<Rightarrow> Inr (CallFailed e)
      | Inl (Raised p) \<Rightarrow> Inl p)"

definition run ::
  "xml_reader \<Rightarrow> (string \<Rightarrow> zip_error + memory_archive) \<Rightarrow> ('f, 'doc) projection \<Rightarrow> effective
     \<Rightarrow> string \<Rightarrow> metrics \<Rightarrow> ('f, 'doc) sink \<Rightarrow> (panic + outcome) \<times> ('f, 'doc) call_state" where
  "run reader zip_new pj limits bytes m snk =
     (case parse reader zip_new pj limits bytes (start_call limits m snk) of
        (r, s) \<Rightarrow> (outcome_of r, s))"


section \<open>What a call sends\<close>

definition content :: "('f, 'doc) setting \<Rightarrow> nat \<Rightarrow> string" where
  "content st e =
     (case za_reads (se_archive st) (ei_index (se_entries st ! e)) of
        Inl _ \<Rightarrow> [] | Inr answers \<Rightarrow> inflated_bytes answers)"

definition navigation_events :: "('f, 'doc) setting \<Rightarrow> book \<Rightarrow> 'doc event list" where
  "navigation_events st b =
     (case (if eff_parse_navigation (se_limits st)
            then navigation_source (bk_resolved b) (bk_package b) else None) of
        None \<Rightarrow> []
      | Some source \<Rightarrow>
          let parsed = parse_navigation_document (se_reader st) source (content st (ng_entry source))
                         (rv_path (bk_resolved b ! ng_position source))
          in if nav_is_empty parsed then [] else [EventNavigation (pb_navigation_of parsed)])"

definition overlay_events :: "('f, 'doc) setting \<Rightarrow> resolved list \<Rightarrow> nat \<times> nat \<Rightarrow> 'doc event list" where
  "overlay_events st rs = (\<lambda>(pos, ov).
     case rv_entry (rs ! ov) of
       None \<Rightarrow> []
     | Some entry \<Rightarrow>
         let parsed = parse_overlay (se_reader st) (content st entry) (rv_path (rs ! ov))
         in if overlay_is_empty parsed then []
            else [EventMediaOverlay (pb_overlay_of (rv_path (rs ! pos)) parsed)])"

definition all_overlay_events :: "('f, 'doc) setting \<Rightarrow> book \<Rightarrow> 'doc event list" where
  "all_overlay_events st b =
     (if eff_parse_media_overlays (se_limits st)
      then concat (map (overlay_events st (bk_resolved b)) (overlay_links (bk_resolved b)))
      else [])"

definition resource_event :: "('f, 'doc) setting \<Rightarrow> book \<Rightarrow> nat \<times> nat \<Rightarrow> 'doc event" where
  "resource_event st b = (\<lambda>(entry, pos).
     EventResource (resource_of (bk_resolved b ! pos)
       (overlay_href (bk_resolved b) (overlay_links (bk_resolved b)) pos) (content st entry)))"

definition chapter_event :: "('f, 'doc) setting \<Rightarrow> book \<Rightarrow> nat \<times> spine_entry \<Rightarrow> 'doc event" where
  "chapter_event st b entry =
     EventChapter (chapter_of (bk_resolved b) entry
       (content st (chapter_entry (bk_resolved b) (snd entry))))"

text \<open>The order of the walk: what is sent, a resource or a chapter, and what the walk leaves.\<close>

fun walk_order ::
  "resolved list \<Rightarrow> (nat \<times> spine_entry) list \<Rightarrow> (nat \<times> nat) list
     \<Rightarrow> ((nat \<times> nat) + (nat \<times> spine_entry)) list" where
  "walk_order rs [] pending = map Inl pending"
| "walk_order rs (x # xs) pending =
     map Inl (takeWhile (\<lambda>r. fst r < chapter_entry rs (snd x)) pending) @ Inr x
     # walk_order rs xs (dropWhile (\<lambda>r. fst r < chapter_entry rs (snd x)) pending)"

definition walk_event ::
  "('f, 'doc) setting \<Rightarrow> book \<Rightarrow> (nat \<times> nat) + (nat \<times> spine_entry) \<Rightarrow> 'doc event" where
  "walk_event st b item =
     (case item of Inl r \<Rightarrow> resource_event st b r | Inr x \<Rightarrow> chapter_event st b x)"

definition resource_plan :: "('f, 'doc) setting \<Rightarrow> book \<Rightarrow> plan" where
  "resource_plan st b =
     plan_walk (se_limits st) (bk_obfuscated b) (bk_resolved b) (bk_spine b) no_warnings"

definition script :: "('f, 'doc) setting \<Rightarrow> book \<Rightarrow> 'doc event list" where
  "script st b =
     EventInfo (info_of b) # navigation_events st b @ all_overlay_events st b
     @ map (walk_event st b)
         (walk_order (bk_resolved b) (enumerate 0 (bk_spine b)) (pl_pending (resource_plan st b)))"

lemma plan_walk_warnings:
  "pl_pending (plan_walk limits obfuscated rs spine w) =
     pl_pending (plan_walk limits obfuscated rs spine no_warnings)"
  "pl_skipped (plan_walk limits obfuscated rs spine w) =
     pl_skipped (plan_walk limits obfuscated rs spine no_warnings)"
  by (simp_all add: plan_walk_def Let_def fold_plan_item)

lemma plan_walk_fits: "warnings_fit w \<Longrightarrow> warnings_fit (pl_warnings (plan_walk limits obf rs spine w))"
  by (simp add: plan_walk_def Let_def fold_plan_item)

section \<open>The invariant of a call\<close>

fun payload_size :: "'doc event \<Rightarrow> nat" where
  "payload_size (EventChapter c) = length (ch_content c)"
| "payload_size (EventResource r) = length (rs_content r)"
| "payload_size _ = 0"

definition carried :: "'doc event list \<Rightarrow> nat" where
  "carried evs = sum_list (map payload_size evs)"

abbreviation wire :: "('f, 'doc) call_state \<Rightarrow> 'doc event list" where
  "wire s \<equiv> sk_wire (cs_sink s)"

abbreviation channel :: "('f, 'doc) call_state \<Rightarrow> nat \<Rightarrow> delivery" where
  "channel s \<equiv> sk_channel (cs_sink s)"

definition accepted :: "delivery \<Rightarrow> bool" where
  "accepted d \<longleftrightarrow> d = TrySent \<or> d = TryFull True True"

text \<open>
  What holds of every state of a call, aborted ones too: the budget adds up to the limit, the
  warnings are capped and the bytes sent were charged.
\<close>

definition call_inv :: "u64 \<Rightarrow> ('f, 'doc) call_state \<Rightarrow> bool" where
  "call_inv limit s \<longleftrightarrow>
     budget_inv (unat limit) (cs_budget s) \<and> warnings_fit (cs_warnings s)
     \<and> carried (wire s) \<le> unat (consumed (cs_budget s))"

text \<open>
  Between the steps: the entries read ahead are among \<open>K\<close> and hold what the archive inflates to;
  \<open>h\<close> bytes are charged and in hand; \<open>n\<close> chapters and \<open>m\<close> resources are counted.
\<close>

definition holding ::
  "('f, 'doc) setting \<Rightarrow> nat set \<Rightarrow> nat \<Rightarrow> nat \<Rightarrow> nat \<Rightarrow> ('f, 'doc) call_state \<Rightarrow> bool" where
  "holding st K h n m s \<longleftrightarrow>
     finite (dom (cs_preread s)) \<and> dom (cs_preread s) \<subseteq> K
     \<and> (\<forall>e bytes. cs_preread s e = Some bytes \<longrightarrow> bytes = content st e)
     \<and> carried (wire s) + (\<Sum>e\<in>dom (cs_preread s). length (content st e)) + h
         \<le> unat (consumed (cs_budget s))
     \<and> cs_chapters s = of_nat n \<and> cs_emitted s = of_nat m"

text \<open>A call without a fold feeds nothing.\<close>

definition feeds ::
  "('f, 'doc) projection \<Rightarrow> 'doc event list \<Rightarrow> 'f option \<Rightarrow> panic + 'f option" where
  "feeds pj evs projection =
     (case projection of
        None \<Rightarrow> Inr None
      | Some f \<Rightarrow> and_then (feed pj evs f) (\<lambda>f'. Inr (Some f')))"

abbreviation fold_of :: "('f, 'doc) call_state \<Rightarrow> 'f option" where
  "fold_of s \<equiv> sk_fold (cs_sink s)"

text \<open>The fold takes the events and raises the panic at the next.\<close>

definition raises ::
  "('f, 'doc) projection \<Rightarrow> 'doc event list \<Rightarrow> 'doc event \<Rightarrow> 'f option \<Rightarrow> panic \<Rightarrow> bool" where
  "raises pj evs ev x p \<longleftrightarrow> (\<exists>y. feeds pj evs x = Inr y \<and> feeds pj [ev] y = Inl p)"

text \<open>
  How a computation that is to send \<open>evs\<close> ends: with all of them sent and the fold fed with them, or
  part of the way, gone only where the channel refuses and with a panic only where the fold raises
  it at the next event.
\<close>

definition ends ::
  "('f, 'doc) projection \<Rightarrow> u64 \<Rightarrow> ('a \<Rightarrow> bool) \<Rightarrow> 'doc event list
     \<Rightarrow> (('f, 'doc) call_state \<Rightarrow> bool) \<Rightarrow> ('f, 'doc) call_state \<Rightarrow> abort + 'a
     \<Rightarrow> ('f, 'doc) call_state \<Rightarrow> bool" where
  "ends pj limit R evs Q s r s' \<longleftrightarrow>
     call_inv limit s' \<and> channel s' = channel s
     \<and> (case r of
          Inr x \<Rightarrow> R x \<and> Q s' \<and> wire s' = wire s @ evs \<and> feeds pj evs (fold_of s) = Inr (fold_of s')
        | Inl a \<Rightarrow>
            (\<exists>sent. prefix sent evs \<and> wire s' = wire s @ sent
               \<and> (\<forall>p. a = Raised p \<longrightarrow>
                    (\<exists>ev. prefix (sent @ [ev]) evs \<and> raises pj sent ev (fold_of s) p)))
            \<and> (a = Gone \<longrightarrow> \<not> accepted (channel s' (length (wire s')))))"

definition emits ::
  "('f, 'doc) projection \<Rightarrow> u64 \<Rightarrow> (('f, 'doc) call_state \<Rightarrow> bool) \<Rightarrow> ('f, 'doc, 'a) call
     \<Rightarrow> ('a \<Rightarrow> bool) \<Rightarrow> 'doc event list \<Rightarrow> (('f, 'doc) call_state \<Rightarrow> bool) \<Rightarrow> bool" where
  "emits pj limit P c R evs Q \<longleftrightarrow>
     (\<forall>s. call_inv limit s \<and> P s \<longrightarrow> (case c s of (r, s') \<Rightarrow> ends pj limit R evs Q s r s'))"


section \<open>Rules\<close>

lemma feed_append: "feed pj (evs @ evs') f = and_then (feed pj evs f) (feed pj evs')"
  by (induction evs arbitrary: f) (simp_all add: and_then_def split: sum.splits)

lemma feeds_append: "feeds pj (evs @ evs') x = and_then (feeds pj evs x) (feeds pj evs')"
  by (auto simp: feeds_def feed_append and_then_def split: option.splits sum.splits)

lemma feeds_simps [simp]: "feeds pj [] x = Inr x" "feeds pj evs None = Inr None"
  by (simp_all add: feeds_def split: option.splits)

lemma feeds_Some [simp]: "feeds pj evs (Some f) = and_then (feed pj evs f) (\<lambda>f'. Inr (Some f'))"
  by (simp add: feeds_def)

lemma emits_ret: "R x \<Longrightarrow> emits pj limit P (ret x) R [] P"
  by (simp add: emits_def ends_def ret_def)

lemma feeds_Inl: "feeds pj evs x = Inl p \<Longrightarrow> \<exists>f. feed pj evs f = Inl p"
  by (cases x) (auto simp: and_then_def split: sum.splits)

lemma ends_earlier:
  assumes "ends pj limit R evs Q s (Inl a) s'"
  shows "ends pj limit R' (evs @ evs') Q' s (Inl a) s'"
proof -
  from assms obtain sent where sent: "prefix sent evs" "wire s' = wire s @ sent"
    and raised: "\<And>p. a = Raised p \<Longrightarrow>
      \<exists>ev. prefix (sent @ [ev]) evs \<and> raises pj sent ev (fold_of s) p"
    and rest: "call_inv limit s'" "channel s' = channel s"
      "a = Gone \<longrightarrow> \<not> accepted (channel s' (length (wire s')))"
    by (auto simp: ends_def)
  have "\<exists>ev. prefix (sent @ [ev]) (evs @ evs') \<and> raises pj sent ev (fold_of s) p"
    if "a = Raised p" for p
    using raised [OF that] prefix_prefix by blast
  then show ?thesis
    using rest sent unfolding ends_def by (simp only: sum.case) (intro conjI exI [of _ sent]; simp)
qed

lemma ends_later:
  assumes "ends pj limit R evs Q s (Inr x) s'" and "ends pj limit R' evs' Q' s' r s''"
  shows "ends pj limit R' (evs @ evs') Q' s r s''"
proof (cases r)
  case (Inr y)
  with assms show ?thesis by (simp add: ends_def feeds_append)
next
  case (Inl a)
  from assms(2) [unfolded Inl ends_def] obtain sent
    where sent: "prefix sent evs'" "wire s'' = wire s' @ sent"
      and raised: "\<forall>p. a = Raised p \<longrightarrow>
        (\<exists>ev. prefix (sent @ [ev]) evs' \<and> raises pj sent ev (fold_of s') p)"
      and rest: "call_inv limit s''" "channel s'' = channel s'"
        "a = Gone \<longrightarrow> \<not> accepted (channel s'' (length (wire s'')))"
    by auto
  have "\<exists>ev. prefix ((evs @ sent) @ [ev]) (evs @ evs')
      \<and> raises pj (evs @ sent) ev (fold_of s) p" if p: "a = Raised p" for p
  proof -
    obtain ev where "prefix (sent @ [ev]) evs'" "raises pj sent ev (fold_of s') p"
      using raised p by blast
    then show ?thesis
      using assms(1) by (intro exI [of _ ev]) (simp add: ends_def raises_def feeds_append [of pj evs])
  qed
  moreover have "prefix (evs @ sent) (evs @ evs')" "wire s'' = wire s @ evs @ sent"
    using sent assms(1) by (simp_all add: ends_def)
  ultimately show ?thesis
    using rest assms(1) unfolding Inl ends_def
    by (simp only: sum.case) (intro conjI exI [of _ "evs @ sent"]; simp)
qed

lemma emits_seq:
  assumes "emits pj limit P c R evs M" and "\<And>x. R x \<Longrightarrow> emits pj limit M (f x) R' evs' Q"
  shows "emits pj limit P (seq c f) R' (evs @ evs') Q"
  unfolding emits_def
proof (intro allI impI)
  fix s assume s: "call_inv limit s \<and> P s"
  obtain r s1 where c: "c s = (r, s1)" by (cases "c s")
  have first: "ends pj limit R evs M s r s1"
    using assms(1) [unfolded emits_def, rule_format, OF s] by (simp add: c)
  show "case seq c f s of (r, s') \<Rightarrow> ends pj limit R' (evs @ evs') Q s r s'"
  proof (cases r)
    case (Inl a)
    with first show ?thesis by (simp add: seq_def c ends_earlier)
  next
    case (Inr x)
    with first have "R x" "call_inv limit s1 \<and> M s1" by (auto simp: ends_def)
    note second = assms(2) [OF this(1), unfolded emits_def, rule_format, OF this(2)]
    with first show ?thesis
      by (auto simp: seq_def c Inr split: prod.splits intro: ends_later)
  qed
qed

lemma emits_conseq:
  assumes "emits pj limit P c R evs Q"
    and "\<And>s. P' s \<Longrightarrow> P s" and "\<And>x. R x \<Longrightarrow> R' x" and "\<And>s. Q s \<Longrightarrow> Q' s"
  shows "emits pj limit P' c R' evs Q'"
  unfolding emits_def
proof (intro allI impI)
  fix s assume s: "call_inv limit s \<and> P' s"
  then have "call_inv limit s \<and> P s" using assms(2) by blast
  note run = assms(1) [unfolded emits_def, rule_format, OF this]
  obtain r s' where c: "c s = (r, s')" by (cases "c s")
  show "case c s of (r, s') \<Rightarrow> ends pj limit R' evs Q' s r s'"
    using run assms(3,4) unfolding c ends_def by (cases r) auto
qed

lemma emits_seq_silent:
  "emits pj limit P c R [] M \<Longrightarrow> (\<And>x. R x \<Longrightarrow> emits pj limit M (f x) R' evs Q)
     \<Longrightarrow> emits pj limit P (seq c f) R' evs Q"
  using emits_seq [of pj limit P c R "[]" M f R' evs Q] by simp

lemma emits_checked: "(\<And>x. r = Inr x \<Longrightarrow> R x) \<Longrightarrow> emits pj limit P (checked r) R [] P"
  by (auto simp: emits_def ends_def checked_def split: sum.splits)

text \<open>A change of the state that the invariant and the wire do not see.\<close>

lemma emits_modify:
  assumes "\<And>s. call_inv limit s \<Longrightarrow> P s \<Longrightarrow> call_inv limit (f s) \<and> Q (f s)"
    and "\<And>s. wire (f s) = wire s" and "\<And>s. channel (f s) = channel s"
    and "\<And>s. fold_of (f s) = fold_of s"
  shows "emits pj limit P (modify f) (\<lambda>_. True) [] Q"
  using assms by (auto simp: emits_def ends_def modify_def)

lemma emits_each:
  assumes "\<And>i. i < length xs \<Longrightarrow> emits pj limit (P i) (f (xs ! i)) (\<lambda>_. True) (evs (xs ! i)) (P (Suc i))"
  shows "emits pj limit (P 0) (each f xs) (\<lambda>_. True) (concat (map evs xs)) (P (length xs))"
  using assms
proof (induction xs arbitrary: P)
  case Nil
  show ?case by (simp add: emits_ret)
next
  case (Cons x xs)
  have "emits pj limit (P 0) (f x) (\<lambda>_. True) (evs x) (P (Suc 0))" using Cons.prems [of 0] by simp
  moreover have "emits pj limit (P (Suc 0)) (each f xs) (\<lambda>_. True) (concat (map evs xs)) (P (Suc (length xs)))"
    using Cons.IH [of "\<lambda>i. P (Suc i)"] Cons.prems [of "Suc i" for i] by simp
  ultimately show ?case using emits_seq by fastforce
qed

lemma concat_nils: "concat (map (\<lambda>_. []) xs) = []"
  by (induction xs) simp_all

lemma emits_each_silent:
  assumes "\<And>x. emits pj limit P (f x) (\<lambda>_. True) [] P"
  shows "emits pj limit P (each f xs) (\<lambda>_. True) [] P"
  using emits_each [of xs pj limit "\<lambda>_. P" f "\<lambda>_. []"] assms by (simp add: concat_nils)


section \<open>What each operation sends\<close>

lemma carried_simps [simp]:
  "carried [] = 0" "carried (evs @ evs') = carried evs + carried evs'"
  "carried (ev # evs) = payload_size ev + carried evs"
  by (simp_all add: carried_def)

lemma holding_mono: "holding st K h n m s \<Longrightarrow> K \<subseteq> K' \<Longrightarrow> h' \<le> h \<Longrightarrow> holding st K' h' n m s"
  by (auto simp: holding_def)

lemma wire_updates [simp]:
  "wire (deliver ev s) = wire s @ [ev]" "channel (deliver ev s) = channel s"
  "sk_fold (cs_sink (deliver ev s)) = sk_fold (cs_sink s)"
  "wire (set_fold f s) = wire s" "channel (set_fold f s) = channel s"
  "sk_fold (cs_sink (set_fold f s)) = Some f"
  by (simp_all add: deliver_def set_fold_def)

lemma other_fields [simp]:
  "cs_budget (deliver ev s) = cs_budget s" "cs_warnings (deliver ev s) = cs_warnings s"
  "cs_preread (deliver ev s) = cs_preread s" "cs_chapters (deliver ev s) = cs_chapters s"
  "cs_emitted (deliver ev s) = cs_emitted s"
  "cs_budget (set_fold f s) = cs_budget s" "cs_warnings (set_fold f s) = cs_warnings s"
  "cs_preread (set_fold f s) = cs_preread s" "cs_chapters (set_fold f s) = cs_chapters s"
  "cs_emitted (set_fold f s) = cs_emitted s"
  by (simp_all add: deliver_def set_fold_def)

lemma send_eq:
  "send ev s = (if accepted (channel s (length (wire s))) then (Inr (), deliver ev s) else (Inl Gone, s))"
  by (simp add: send_def accepted_def split: delivery.splits)

text \<open>The fold is fed and the event sent; only the trailer is preceded by the document.\<close>

definition is_trailer :: "'doc event \<Rightarrow> bool" where
  "is_trailer ev = (case ev of EventStatus _ \<Rightarrow> True | _ \<Rightarrow> False)"

lemma emit_plain:
  assumes "\<not> is_trailer ev"
  shows "emit st ev s =
    (case fold_of s of
       None \<Rightarrow> send ev s
     | Some f \<Rightarrow>
         (case pj_consume (se_projection st) ev f of
            Inl p \<Rightarrow> (Inl (Raised p), s)
          | Inr f' \<Rightarrow> send ev (set_fold f' s)))"
  using assms by (auto simp: emit_def is_trailer_def split: option.splits event.splits sum.splits)

lemma emits_emit:
  assumes "\<not> is_trailer ev"
  shows "emits (se_projection st') limit (holding st K (h + payload_size ev) n m) (emit st' ev)
    (\<lambda>_. True) [ev] (holding st K h n m)"
  unfolding emits_def
proof (intro allI impI)
  fix s assume "call_inv limit s \<and> holding st K (h + payload_size ev) n m s"
  then show "case emit st' ev s of (r, s') \<Rightarrow>
      ends (se_projection st') limit (\<lambda>_. True) [ev] (holding st K h n m) s r s'"
    by (cases "fold_of s")
      (auto simp: ends_def emit_plain [OF assms] send_eq call_inv_def holding_def raises_def
        split: if_splits sum.splits)
qed

lemma emits_read_archive:
  "emits pj limit (holding st K h n m) (read_archive st (se_entries st ! e))
     (\<lambda>bytes. bytes = content st e) [] (holding st K (h + length (content st e)) n m)"
  unfolding emits_def
proof (intro allI impI)
  fix s assume s: "call_inv limit s \<and> holding st K h n m s"
  let ?read = "read_entry (se_archive st) (se_entries st ! e) (se_limits st) (cs_budget s)"
  show "case read_archive st (se_entries st ! e) s of (r, s') \<Rightarrow>
      ends pj limit (\<lambda>bytes. bytes = content st e) [] (holding st K (h + length (content st e)) n m) s r s'"
  proof (cases ?read)
    case (Inl x)
    with s show ?thesis by (simp add: read_archive_def ends_def)
  next
    case (Inr out)
    obtain bytes b where out: "out = (bytes, b)" by (cases out)
    note facts = Inr [unfolded out read_entry_Inr]
    have bytes: "bytes = content st e" and b: "b = spend bytes (cs_budget s)"
      and len: "length bytes \<le> unat (remaining (cs_budget s))"
      using facts by (auto simp: content_def)
    have inv: "budget_inv (unat limit) (cs_budget s)" using s by (simp add: call_inv_def)
    have "unat limit < 2 ^ 64" using unat_bound64 [of limit] by simp
    note fields = spend_fields [OF inv this len]
    have "budget_inv (unat limit) b" using inv fields len by (simp add: b budget_inv_def)
    moreover have "unat (consumed b) = unat (consumed (cs_budget s)) + length (content st e)"
      using fields by (simp add: b bytes)
    ultimately show ?thesis
      using s by (simp add: read_archive_def Inr out call_inv_def holding_def bytes ends_def)
  qed
qed

lemma emits_count: "emits pj limit (holding st K h n m) (count f) (\<lambda>_. True) [] (holding st K h n m)"
  unfolding count_def by (rule emits_modify) (simp_all add: call_inv_def holding_def)

lemma emits_read_at:
  "emits pj limit (holding st K h n m) (read_at st e) (\<lambda>bytes. bytes = content st e) []
     (holding st K (h + length (content st e)) n m)"
  unfolding read_at_def
  by (rule emits_seq_silent [OF emits_read_archive])
    (rule emits_seq_silent [OF emits_count], simp add: emits_ret)

lemma emits_warn:
  "emits pj limit (holding st K h n m) (warn code href msg) (\<lambda>_. True) [] (holding st K h n m)"
  unfolding warn_def by (rule emits_modify) (simp_all add: call_inv_def holding_def)


section \<open>Entries read ahead\<close>

lemma sum_remove:
  assumes "finite D" and "e \<in> D"
  shows "(\<Sum>x\<in>D. f x) = f e + (\<Sum>x\<in>D - {e}. f x :: nat)"
  by (rule sum.remove [OF assms])

lemma holding_take_Some:
  assumes "holding st K h n m s" and "cs_preread s e = Some bytes"
  shows "bytes = content st e
    \<and> holding st (K - {e}) (h + length (content st e)) n m (s\<lparr>cs_preread := (cs_preread s)(e := None)\<rparr>)"
proof -
  have "e \<in> dom (cs_preread s)" "finite (dom (cs_preread s))"
    using assms by (auto simp: holding_def)
  note split = sum_remove [OF this(2) this(1), of "\<lambda>e. length (content st e)"]
  show ?thesis using assms by (auto simp: holding_def split)
qed

lemma holding_take_None:
  assumes "holding st K h n m s" and "cs_preread s e = None"
  shows "holding st (K - {e}) h n m (s\<lparr>cs_preread := (cs_preread s)(e := None)\<rparr>)"
proof -
  have "(cs_preread s)(e := None) = cs_preread s" using assms(2) by (simp add: fun_upd_idem)
  with assms show ?thesis by (auto simp: holding_def)
qed

lemma holding_keep:
  assumes "holding st K (h + length (content st e)) n m s"
  shows "holding st (insert e K) h n m (s\<lparr>cs_preread := (cs_preread s)(e \<mapsto> content st e)\<rparr>)"
proof -
  let ?len = "\<lambda>e. length (content st e)"
  have fin: "finite (dom (cs_preread s))" using assms by (simp add: holding_def)
  have "(\<Sum>x\<in>insert e (dom (cs_preread s)). ?len x) \<le> ?len e + (\<Sum>x\<in>dom (cs_preread s). ?len x)"
    using fin by (simp add: sum.insert_if)
  with assms show ?thesis by (auto simp: holding_def)
qed

lemma emits_preread_read:
  "emits pj limit (holding st K h n m) (preread_read st e) (\<lambda>bytes. bytes = content st e) []
     (holding st (K - {e}) (h + length (content st e)) n m)"
  unfolding emits_def
proof (intro allI impI)
  fix s assume s: "call_inv limit s \<and> holding st K h n m s"
  let ?s = "s\<lparr>cs_preread := (cs_preread s)(e := None)\<rparr>"
  show "case preread_read st e s of (r, s') \<Rightarrow>
      ends pj limit (\<lambda>bytes. bytes = content st e) []
        (holding st (K - {e}) (h + length (content st e)) n m) s r s'"
  proof (cases "cs_preread s e")
    case None
    have "call_inv limit ?s \<and> holding st (K - {e}) h n m ?s"
      using s holding_take_None [OF _ None] by (auto simp: call_inv_def)
    from emits_read_at [unfolded emits_def, rule_format, OF this, of pj e] show ?thesis
      by (auto simp: ends_def preread_read_def seq_def preread_take_def None split: prod.splits sum.splits)
  next
    case (Some bytes)
    from holding_take_Some [OF conjunct2 [OF s] Some] s show ?thesis
      by (simp add: ends_def preread_read_def seq_def preread_take_def Some ret_def call_inv_def)
  qed
qed

lemma entry_content_eq: "entry_content st e = preread_read st e"
  by (simp add: entry_content_def preread_read_def)

lemma emits_keep:
  "emits pj limit (holding st K (h + length (content st e)) n m) (preread_keep e (content st e))
     (\<lambda>_. True) [] (holding st (insert e K) h n m)"
  unfolding preread_keep_def
  by (rule emits_modify) (use holding_keep in \<open>simp_all add: call_inv_def\<close>)

section \<open>The stages\<close>

text \<open>
  Reading a document ahead: \<open>keep\<close> says whether it is held for the walk, \<open>act\<close> is what is made of it.
\<close>

lemma emits_read_ahead:
  assumes "emits pj limit (holding st K' h n m) (act (content st e)) (\<lambda>_. True) evs (holding st K' h n m)"
    and "K - {e} \<subseteq> K'" and "keep \<Longrightarrow> e \<in> K'"
  shows "emits pj limit (holding st K h n m)
    (seq (preread_read st e) (\<lambda>bytes.
     seq (if keep then preread_keep e bytes else ret ()) (\<lambda>_. act bytes))) (\<lambda>_. True) evs
    (holding st K' h n m)"
proof (rule emits_seq_silent [OF emits_preread_read])
  fix bytes assume bytes: "bytes = content st e"
  let ?here = "holding st (K - {e}) (h + length (content st e)) n m"
  have "emits pj limit ?here (if keep then preread_keep e bytes else ret ()) (\<lambda>_. True) []
      (holding st K' h n m)"
  proof (cases keep)
    case True
    then have "insert e (K - {e}) \<subseteq> K'" using assms(2,3) by auto
    then have "emits pj limit ?here (preread_keep e bytes) (\<lambda>_. True) [] (holding st K' h n m)"
      unfolding bytes by (rule_tac emits_conseq [OF emits_keep]) (auto elim: holding_mono)
    with True show ?thesis by simp
  next
    case False
    have "emits pj limit ?here (ret ()) (\<lambda>_. True) [] (holding st K' h n m)"
      by (rule emits_conseq [OF emits_ret [of "\<lambda>_. True"]])
        (use assms(2) in \<open>auto elim!: holding_mono\<close>)
    with False show ?thesis by simp
  qed
  then show "emits pj limit ?here
      (seq (if keep then preread_keep e bytes else ret ()) (\<lambda>_. act bytes)) (\<lambda>_. True) evs
      (holding st K' h n m)"
    by (rule emits_seq_silent) (simp add: bytes assms(1))
qed

lemma emits_emit_light:
  assumes "\<not> is_trailer ev" and "payload_size ev = 0"
  shows "emits (se_projection st') limit (holding st K h n m) (emit st' ev) (\<lambda>_. True) [ev] (holding st K h n m)"
  using emits_emit [OF assms(1), of st' limit st K h n m] assms(2) by simp

lemma emits_navigation:
  "emits (se_projection st) limit (holding st wanted h n m) (send_navigation st b wanted) (\<lambda>_. True)
     (navigation_events st b) (holding st wanted h n m)"
proof (cases "if eff_parse_navigation (se_limits st)
    then navigation_source (bk_resolved b) (bk_package b) else None")
  case None
  then show ?thesis by (simp only: send_navigation_def navigation_events_def) (simp add: emits_ret)
next
  case (Some source)
  let ?parsed = "\<lambda>bytes. parse_navigation_document (se_reader st) source bytes
    (rv_path (bk_resolved b ! ng_position source))"
  show ?thesis
    unfolding send_navigation_def navigation_events_def Some Let_def option.case
    by (rule emits_read_ahead)
      (auto simp: is_trailer_def intro: emits_warn emits_emit_light)
qed


text \<open>The entries the overlay loop may hold before its pair \<open>i\<close>: wanted ones and ones used again.\<close>

definition still_used ::
  "resolved list \<Rightarrow> (nat \<times> nat) list \<Rightarrow> nat set \<Rightarrow> nat \<Rightarrow> nat set" where
  "still_used rs overlays wanted i = wanted \<union> {e. \<exists>l\<ge>i. last_use rs overlays e = Some l}"

lemma last_use_Some:
  assumes "i < length overlays" and "rv_entry (rs ! snd (overlays ! i)) = Some e"
  shows "\<exists>l\<ge>i. last_use rs overlays e = Some l"
  using assms
proof (induction overlays rule: rev_induct)
  case Nil
  then show ?case by simp
next
  case (snoc x xs)
  obtain p ov where x: "x = (p, ov)" by (cases x)
  have step: "last_use rs (xs @ [x]) e =
      (if rv_entry (rs ! ov) = Some e then Some (length xs) else last_use rs xs e)"
    by (auto simp: last_use_def enumerate_append_eq map_filter_def x
        split: option.splits)
  show ?case
  proof (cases "i < length xs")
    case True
    then have "rv_entry (rs ! snd (xs ! i)) = Some e" using snoc.prems by (simp add: nth_append)
    with snoc.IH True step show ?thesis by auto
  next
    case False
    then have "i = length xs" using snoc.prems by simp
    with snoc.prems step x show ?thesis by simp
  qed
qed

lemma last_use_bound: "last_use rs overlays e = Some l \<Longrightarrow>
  l < length overlays \<and> rv_entry (rs ! snd (overlays ! l)) = Some e"
proof -
  assume "last_use rs overlays e = Some l"
  then have "(e, l) \<in> set (List.map_filter
       (\<lambda>(i, _, ov). map_option (\<lambda>entry. (entry, i)) (rv_entry (rs ! ov))) (enumerate 0 overlays))"
    unfolding last_use_def by (metis map_of_SomeD set_rev)
  then show ?thesis by (auto simp: map_filter_def in_set_enumerate_eq split: prod.splits)
qed

lemma emits_overlay:
  fixes rs :: "resolved list" and overlays :: "(nat \<times> nat) list" and wanted :: "nat set" and i :: nat
  assumes "i < length overlays"
  defines "K \<equiv> still_used rs overlays wanted"
  shows "emits (se_projection st) limit (holding st (K i) h n m)
    (send_overlay st rs wanted (last_use rs overlays) (i, overlays ! i)) (\<lambda>_. True)
    (overlay_events st rs (overlays ! i)) (holding st (K (Suc i)) h n m)"
proof -
  obtain pos ov where pair: "overlays ! i = (pos, ov)" by (cases "overlays ! i")
  show ?thesis
  proof (cases "rv_entry (rs ! ov)")
    case None
    have "e \<in> K (Suc i)" if "e \<in> K i" for e
      using that last_use_bound [of rs overlays e i] None pair
      by (auto simp: K_def still_used_def)
    then have "emits (se_projection st) limit (holding st (K i) h n m) (ret ()) (\<lambda>_. True) [] (holding st (K (Suc i)) h n m)"
      by (intro emits_conseq [OF emits_ret [of "\<lambda>_. True"]]) (auto elim: holding_mono)
    with None pair show ?thesis by (simp add: send_overlay_def overlay_events_def)
  next
    case (Some e)
    obtain l where l: "l \<ge> i" "last_use rs overlays e = Some l"
      using last_use_Some [of i overlays rs e] assms(1) Some pair by auto
    have "K i - {e} \<subseteq> K (Suc i)"
    proof
      fix x assume x: "x \<in> K i - {e}"
      then consider "x \<in> wanted" | l' where "l' \<ge> i" "last_use rs overlays x = Some l'"
        by (auto simp: K_def still_used_def)
      then show "x \<in> K (Suc i)"
      proof cases
        case 2
        have "l' \<noteq> i" using last_use_bound [OF 2(2)] Some pair x by auto
        with 2 show ?thesis by (auto simp: K_def still_used_def intro: Suc_leI)
      qed (simp add: K_def still_used_def)
    qed
    moreover have "e \<in> K (Suc i)" if "e \<in> wanted \<or> the (last_use rs overlays e) > i"
      using that l by (auto simp: K_def still_used_def intro: Suc_leI)
    ultimately show ?thesis
      unfolding send_overlay_def overlay_events_def pair Some prod.case option.case Let_def
      by (intro emits_read_ahead) (auto simp: is_trailer_def intro: emits_warn emits_emit_light)
  qed
qed

lemma emits_overlays:
  "emits (se_projection st) limit (holding st wanted h n m) (send_overlays st b wanted) (\<lambda>_. True)
     (all_overlay_events st b) (holding st wanted h n m)"
proof (cases "eff_parse_media_overlays (se_limits st)")
  case False
  then show ?thesis by (simp add: send_overlays_def all_overlay_events_def emits_ret)
next
  case True
  let ?rs = "bk_resolved b" and ?os = "overlay_links (bk_resolved b)"
  let ?K = "still_used ?rs ?os wanted" and ?xs = "enumerate 0 (overlay_links (bk_resolved b))"
  have "emits (se_projection st) limit (holding st (?K 0) h n m)
      (each (send_overlay st ?rs wanted (last_use ?rs ?os)) ?xs) (\<lambda>_. True)
      (concat (map (\<lambda>x. overlay_events st ?rs (snd x)) ?xs)) (holding st (?K (length ?xs)) h n m)"
    by (rule emits_each [where P = "\<lambda>i. holding st (?K i) h n m"])
      (simp add: nth_enumerate_eq emits_overlay)
  moreover have "?K (length ?xs) = wanted"
    by (auto simp: still_used_def dest: last_use_bound)
  moreover have "map (\<lambda>x. overlay_events st ?rs (snd x)) ?xs = map (overlay_events st ?rs) ?os"
    by (simp flip: map_map [unfolded comp_def] add: map_snd_enumerate)
  moreover have "holding st wanted h n m s \<Longrightarrow> holding st (?K 0) h n m s" for s
    by (erule holding_mono) (auto simp: still_used_def)
  ultimately show ?thesis
    using True by (auto simp: send_overlays_def all_overlay_events_def Let_def elim!: emits_conseq)
qed


section \<open>The walk\<close>

lemma emits_resource:
  assumes "K - {fst r} \<subseteq> K'"
  shows "emits (se_projection st) limit (holding st K h n m) (emit_resource st b r) (\<lambda>_. True) [resource_event st b r]
    (holding st K' h n (Suc m))"
proof -
  obtain e pos where r: "r = (e, pos)" by (cases r)
  let ?target = "bk_resolved b ! pos"
    and ?overlay = "overlay_href (bk_resolved b) (overlay_links (bk_resolved b)) pos"
  have tail: "emits (se_projection st) limit (holding st (K - {e}) h n m)
      (seq (count resource_emitted) (\<lambda>_. modify (\<lambda>s. s\<lparr>cs_emitted := cs_emitted s + 1\<rparr>))) (\<lambda>_. True) []
      (holding st K' h n (Suc m))"
    by (rule emits_seq_silent [OF emits_count], rule emits_modify)
      (use assms r in \<open>auto simp: call_inv_def holding_def\<close>)
  show ?thesis
    unfolding emit_resource_def r prod.case entry_content_eq
  proof (rule emits_seq_silent [OF emits_preread_read])
    fix bytes assume "bytes = content st e"
    let ?ev = "EventResource (resource_of ?target ?overlay bytes) :: 'b event"
    have "emits (se_projection st) limit (holding st (K - {e}) (h + length (content st e)) n m) (emit st ?ev)
        (\<lambda>_. True) [resource_event st b (e, pos)] (holding st (K - {e}) h n m)"
      using emits_emit [of ?ev st limit st "K - {e}" h n m]
      by (simp add: is_trailer_def resource_event_def resource_of_def \<open>bytes = content st e\<close>)
    from emits_seq [OF this tail] show "emits (se_projection st) limit
        (holding st (K - {e}) (h + length (content st e)) n m)
        (seq (emit st ?ev) (\<lambda>_. seq (count resource_emitted)
           (\<lambda>_. modify (\<lambda>s. s\<lparr>cs_emitted := cs_emitted s + 1\<rparr>)))) (\<lambda>_. True)
        [resource_event st b (e, pos)] (holding st K' h n (Suc m))" by simp
  qed
qed

lemma emits_chapter:
  assumes "K - {chapter_entry (bk_resolved b) (snd x)} \<subseteq> K'"
  shows "emits (se_projection st) limit (holding st K h n m) (emit_chapter st b x) (\<lambda>_. True) [chapter_event st b x]
    (holding st K' h (Suc n) m)"
proof -
  let ?e = "chapter_entry (bk_resolved b) (snd x)"
  have tail: "emits (se_projection st) limit (holding st (K - {?e}) h n m)
      (seq (count chapter_emitted) (\<lambda>_. modify (\<lambda>s. s\<lparr>cs_chapters := cs_chapters s + 1\<rparr>))) (\<lambda>_. True) []
      (holding st K' h (Suc n) m)"
    by (rule emits_seq_silent [OF emits_count], rule emits_modify)
      (use assms in \<open>auto simp: call_inv_def holding_def\<close>)
  show ?thesis
    unfolding emit_chapter_def entry_content_eq
  proof (rule emits_seq_silent [OF emits_preread_read])
    fix bytes assume "bytes = content st ?e"
    let ?ev = "EventChapter (chapter_of (bk_resolved b) x bytes) :: 'b event"
    have "emits (se_projection st) limit (holding st (K - {?e}) (h + length (content st ?e)) n m) (emit st ?ev)
        (\<lambda>_. True) [chapter_event st b x] (holding st (K - {?e}) h n m)"
      using emits_emit [of ?ev st limit st "K - {?e}" h n m]
      by (simp add: is_trailer_def chapter_event_def chapter_of_def \<open>bytes = content st ?e\<close>
          split: prod.splits)
    from emits_seq [OF this tail] show "emits (se_projection st) limit
        (holding st (K - {?e}) (h + length (content st ?e)) n m)
        (seq (emit st ?ev) (\<lambda>_. seq (count chapter_emitted)
           (\<lambda>_. modify (\<lambda>s. s\<lparr>cs_chapters := cs_chapters s + 1\<rparr>)))) (\<lambda>_. True)
        [chapter_event st b x] (holding st K' h (Suc n) m)" by simp
  qed
qed

lemma emits_resources:
  "emits (se_projection st) limit (holding st (K \<union> fst ` set rs) h n m) (each (emit_resource st b) rs) (\<lambda>_. True)
     (map (resource_event st b) rs) (holding st K h n (m + length rs))"
proof (induction rs arbitrary: m)
  case Nil
  show ?case by (simp add: emits_ret)
next
  case (Cons r rs)
  have "emits (se_projection st) limit (holding st (K \<union> fst ` set (r # rs)) h n m) (emit_resource st b r) (\<lambda>_. True)
      [resource_event st b r] (holding st (K \<union> fst ` set rs) h n (Suc m))"
    by (rule emits_resource) auto
  from emits_seq [OF this Cons.IH [of "Suc m"]] show ?case by simp
qed

lemma emits_drain:
  "emits (se_projection st) limit (holding st (K \<union> fst ` set rs) h n m) (drain st b stop rs)
     (\<lambda>left. left = dropWhile (\<lambda>r. fst r < stop) rs)
     (map (resource_event st b) (takeWhile (\<lambda>r. fst r < stop) rs))
     (holding st (K \<union> fst ` set (dropWhile (\<lambda>r. fst r < stop) rs)) h n
        (m + length (takeWhile (\<lambda>r. fst r < stop) rs)))"
proof (induction rs arbitrary: m)
  case Nil
  show ?case by (simp add: emits_ret)
next
  case (Cons r rs)
  show ?case
  proof (cases "fst r < stop")
    case True
    have "emits (se_projection st) limit (holding st (K \<union> fst ` set (r # rs)) h n m) (emit_resource st b r) (\<lambda>_. True)
        [resource_event st b r] (holding st (K \<union> fst ` set rs) h n (Suc m))"
      by (rule emits_resource) auto
    from emits_seq [OF this Cons.IH [of "Suc m"]] True show ?thesis by simp
  next
    case False
    then show ?thesis by (simp add: emits_ret)
  qed
qed


lemma emits_walk_spine:
  fixes b :: book and xs :: "(nat \<times> spine_entry) list"
  defines "ces \<equiv> \<lambda>xs. (\<lambda>x. chapter_entry (bk_resolved b) (snd x)) ` set xs"
  shows "\<exists>evs left. length left \<le> length ps
    \<and> evs @ map (resource_event st b) left = map (walk_event st b) (walk_order (bk_resolved b) xs ps)
    \<and> emits (se_projection st) limit (holding st (ces xs \<union> fst ` set ps) h n m) (walk_spine st b xs ps)
        (\<lambda>l. l = left) evs
        (holding st (fst ` set left) h (n + length xs) (m + (length ps - length left)))"
proof (induction xs arbitrary: ps n m)
  case Nil
  have "emits (se_projection st) limit (holding st (fst ` set ps) h n m) (ret ps) (\<lambda>l. l = ps) []
      (holding st (fst ` set ps) h n m)"
    by (rule emits_ret) simp
  then show ?case by (intro exI [of _ "[]"] exI [of _ ps]) (simp add: ces_def walk_event_def comp_def)
next
  case (Cons x xs)
  let ?e = "chapter_entry (bk_resolved b) (snd x)"
  let ?below = "takeWhile (\<lambda>r. fst r < ?e) ps" and ?rest = "dropWhile (\<lambda>r. fst r < ?e) ps"
  let ?m = "m + length ?below"
  from Cons.IH [of ?rest "Suc n" ?m] obtain evs left
    where left: "length left \<le> length ?rest"
      and evs: "evs @ map (resource_event st b) left =
        map (walk_event st b) (walk_order (bk_resolved b) xs ?rest)"
      and run: "emits (se_projection st) limit (holding st (ces xs \<union> fst ` set ?rest) h (Suc n) ?m)
        (walk_spine st b xs ?rest) (\<lambda>l. l = left) evs
        (holding st (fst ` set left) h (Suc n + length xs) (?m + (length ?rest - length left)))"
    by blast
  have len: "length ps = length ?below + length ?rest"
    by (metis length_append takeWhile_dropWhile_id)
  have sum: "?m + (length ?rest - length left) = m + (length ps - length left)"
    using left len by simp
  have one: "emits (se_projection st) limit (holding st (ces (x # xs) \<union> fst ` set ?rest) h n ?m)
      (emit_chapter st b x) (\<lambda>_. True) [chapter_event st b x]
      (holding st (ces xs \<union> fst ` set ?rest) h (Suc n) ?m)"
    by (rule emits_chapter) (auto simp: ces_def)
  have "emits (se_projection st) limit (holding st (ces (x # xs) \<union> fst ` set ps) h n m) (walk_spine st b (x # xs) ps)
      (\<lambda>l. l = left) (map (resource_event st b) ?below @ [chapter_event st b x] @ evs)
      (holding st (fst ` set left) h (n + length (x # xs)) (m + (length ps - length left)))"
    unfolding walk_spine.simps
  proof (rule emits_seq [OF emits_drain])
    fix l assume l: "l = ?rest"
    have "emits (se_projection st) limit (holding st (ces xs \<union> fst ` set ?rest) h (Suc n) ?m)
        (walk_spine st b xs l) (\<lambda>l. l = left) evs
        (holding st (fst ` set left) h (n + length (x # xs)) (m + (length ps - length left)))"
      using run unfolding l sum by simp
    from emits_seq [OF one this] show "emits (se_projection st) limit (holding st (ces (x # xs) \<union> fst ` set ?rest) h n ?m)
        (seq (emit_chapter st b x) (\<lambda>_. walk_spine st b xs l)) (\<lambda>l. l = left)
        ([chapter_event st b x] @ evs)
        (holding st (fst ` set left) h (n + length (x # xs)) (m + (length ps - length left)))" .
  qed
  moreover have "(map (resource_event st b) ?below @ [chapter_event st b x] @ evs)
        @ map (resource_event st b) left
      = map (walk_event st b) (walk_order (bk_resolved b) (x # xs) ps)"
    using evs by (simp add: walk_event_def comp_def)
  moreover have "length left \<le> length ps" using left len by simp
  ultimately show ?case by blast
qed

lemma emits_walk:
  "emits (se_projection st) limit
     (holding st ((\<lambda>x. chapter_entry (bk_resolved b) (snd x)) ` set xs \<union> fst ` set ps) 0 0 0)
     (seq (walk_spine st b xs ps) (\<lambda>left. each (emit_resource st b) left)) (\<lambda>_. True)
     (map (walk_event st b) (walk_order (bk_resolved b) xs ps))
     (holding st {} 0 (length xs) (length ps))"
proof -
  from emits_walk_spine [of ps st b xs limit 0 0 0] obtain evs left
    where left: "length left \<le> length ps"
      and evs: "evs @ map (resource_event st b) left =
        map (walk_event st b) (walk_order (bk_resolved b) xs ps)"
      and run: "emits (se_projection st) limit
        (holding st ((\<lambda>x. chapter_entry (bk_resolved b) (snd x)) ` set xs \<union> fst ` set ps) 0 0 0)
        (walk_spine st b xs ps) (\<lambda>l. l = left) evs
        (holding st (fst ` set left) 0 (length xs) (length ps - length left))"
    by auto
  have "emits (se_projection st) limit (holding st (fst ` set left) 0 (length xs) (length ps - length left))
      (each (emit_resource st b) l) (\<lambda>_. True) (map (resource_event st b) left)
      (holding st {} 0 (length xs) (length ps))" if "l = left" for l
    using emits_resources [of st limit "{}" left 0 "length xs" "length ps - length left" b] that left
    by simp
  from emits_seq [OF run this] show ?thesis by (simp add: evs)
qed


section \<open>The whole book\<close>

lemma seq_assoc: "seq (seq c f) g = seq c (\<lambda>x. seq (f x) g)"
  by (rule ext) (simp add: seq_def split: prod.splits sum.splits)

lemma seq_ret: "seq (ret x) f = f x"
  by (rule ext) (simp add: seq_def ret_def)

definition same_plan :: "plan \<Rightarrow> plan \<Rightarrow> bool" where
  "same_plan p q \<longleftrightarrow> pl_pending p = pl_pending q \<and> pl_skipped p = pl_skipped q"

lemma emits_make_plan:
  "emits pj limit (holding st K h n m) (make_plan st b) (\<lambda>p. same_plan p (resource_plan st b)) []
     (holding st K h n m)"
  unfolding emits_def ends_def make_plan_def resource_plan_def same_plan_def
  by (auto simp: Let_def call_inv_def holding_def plan_walk_fits
      intro: plan_walk_warnings)

text \<open>All of \<open>send_book\<close> but the trailer.\<close>

definition send_events :: "('f, 'doc) setting \<Rightarrow> book \<Rightarrow> ('f, 'doc, plan) call" where
  "send_events st b =
     seq (emit st (EventInfo (info_of b))) (\<lambda>_.
     seq (make_plan st b) (\<lambda>p.
     let wanted = will_emit (bk_resolved b) (bk_spine b) (pl_pending p)
     in seq (send_navigation st b wanted) (\<lambda>_.
        seq (send_overlays st b wanted) (\<lambda>_.
        seq (seq (walk_spine st b (enumerate 0 (bk_spine b)) (pl_pending p))
               (\<lambda>left. each (emit_resource st b) left)) (\<lambda>_. ret p)))))"

lemma send_book_split: "send_book st b = seq (send_events st b) (\<lambda>p. emit_status st (pl_skipped p))"
  by (simp add: send_book_def send_events_def seq_assoc seq_ret Let_def)

lemma chapter_entries_enumerate:
  "(\<lambda>x. chapter_entry rs (snd x)) ` set (enumerate n xs) = set (map (chapter_entry rs) xs)"
proof -
  have "set xs = snd ` set (enumerate n xs)" by (simp flip: set_map)
  then show ?thesis by (simp only: set_map image_image)
qed

lemma emits_events:
  "emits (se_projection st) limit (holding st {} 0 0 0) (send_events st b)
     (\<lambda>p. same_plan p (resource_plan st b)) (script st b)
     (holding st {} 0 (length (bk_spine b)) (length (pl_pending (resource_plan st b))))"
proof -
  let ?q = "resource_plan st b" and ?xs = "enumerate 0 (bk_spine b)"
  let ?wanted = "will_emit (bk_resolved b) (bk_spine b) (pl_pending ?q)"
  let ?done = "holding st {} 0 (length (bk_spine b)) (length (pl_pending ?q))"
  let ?body = "map (walk_event st b) (walk_order (bk_resolved b) ?xs (pl_pending ?q))"
  have info: "emits (se_projection st) limit (holding st {} 0 0 0) (emit st (EventInfo (info_of b))) (\<lambda>_. True)
      [EventInfo (info_of b)] (holding st ?wanted 0 0 0)"
    by (rule emits_conseq [OF emits_emit_light]) (auto simp: is_trailer_def elim: holding_mono)
  have "(\<lambda>x. chapter_entry (bk_resolved b) (snd x)) ` set ?xs \<union> fst ` set (pl_pending ?q) = ?wanted"
    by (simp add: chapter_entries_enumerate will_emit_def)
  then have walk: "emits (se_projection st) limit (holding st ?wanted 0 0 0)
      (seq (walk_spine st b ?xs (pl_pending ?q)) (\<lambda>left. each (emit_resource st b) left))
      (\<lambda>_. True) ?body ?done"
    using emits_walk [of st limit b ?xs "pl_pending ?q"] by simp
  have tail: "emits (se_projection st) limit (holding st ?wanted 0 0 0)
      (let wanted = will_emit (bk_resolved b) (bk_spine b) (pl_pending p)
       in seq (send_navigation st b wanted) (\<lambda>_.
          seq (send_overlays st b wanted) (\<lambda>_.
          seq (seq (walk_spine st b ?xs (pl_pending p)) (\<lambda>left. each (emit_resource st b) left))
            (\<lambda>_. ret p))))
      (\<lambda>p. same_plan p ?q) (navigation_events st b @ all_overlay_events st b @ ?body @ []) ?done"
    if p: "same_plan p ?q" for p
  proof -
    have eq: "pl_pending p = pl_pending ?q" using p by (simp add: same_plan_def)
    show ?thesis
      unfolding Let_def eq
      by (intro emits_seq [OF emits_navigation] emits_seq [OF emits_overlays] emits_seq [OF walk]
          emits_ret p)
  qed
  have "emits (se_projection st) limit (holding st {} 0 0 0) (send_events st b) (\<lambda>p. same_plan p ?q)
      ([EventInfo (info_of b)] @ [] @ navigation_events st b @ all_overlay_events st b @ ?body @ [])
      ?done"
    unfolding send_events_def by (intro emits_seq [OF info] emits_seq [OF emits_make_plan] tail)
  then show ?thesis by (simp add: script_def)
qed


section \<open>Opening the book\<close>

text \<open>
  What a settled book satisfies: its package was read from an entry, its manifest resolved against
  the archive, and every spine item has a chapter the archive holds unencrypted.
\<close>

definition book_ok :: "('f, 'doc) setting \<Rightarrow> book \<Rightarrow> bool" where
  "book_ok st b \<longleftrightarrow>
     (\<exists>pos. parse_package (se_reader st) (content st pos) = Inr (bk_package b))
     \<and> bk_resolved b =
         map (resolve_item (index_of (se_entries st)) (parent_dir (bk_opf_path b)))
           (pk_manifest (bk_package b))
     \<and> entries_within (length (se_entries st)) (bk_resolved b)
     \<and> list_all (settled_entry (bk_obfuscated b) (bk_resolved b)) (bk_spine b)
     \<and> map (snd \<circ> snd) (bk_spine b) = pk_spine (bk_package b)"

lemma settle_ok:
  "settle (index_of (se_entries st)) obfuscated opf_path k = Inr b \<Longrightarrow>
     parse_package (se_reader st) (content st pos) = Inr k \<Longrightarrow> book_ok st b"
  by (auto simp: settle_def book_ok_def Let_def and_then_eq_Inr resolve_item_within
      dest!: settled_spine)

abbreviation fresh :: "('f, 'doc) setting \<Rightarrow> ('f, 'doc) call_state \<Rightarrow> bool" where
  "fresh st \<equiv> holding st {} 0 0 0"

lemma fresh_any: "fresh st s \<Longrightarrow> fresh st' s"
  by (auto simp: holding_def)

lemma fresh_charged: "holding st {} h 0 0 s \<Longrightarrow> fresh st s"
  by (erule holding_mono) simp_all

lemma emits_read_fresh:
  "emits pj limit (fresh st) (read_at st e) (\<lambda>bytes. bytes = content st e) [] (fresh st)"
  by (rule emits_conseq [OF emits_read_at]) (auto intro: fresh_charged)

lemma emits_read_named:
  "emits pj limit (fresh st) (read_named st index name) (\<lambda>_. True) [] (fresh st)"
proof (cases "index name")
  case None
  then show ?thesis by (simp add: read_named_def emits_ret)
next
  case (Some pos)
  have "emits pj limit (fresh st) (read_archive st (se_entries st ! pos)) (\<lambda>_. True) [] (fresh st)"
    by (rule emits_conseq [OF emits_read_archive]) (auto intro: fresh_charged)
  then show ?thesis
    unfolding read_named_def Some option.case by (rule emits_seq_silent) (simp add: emits_ret)
qed

lemma emits_read_encryption:
  "emits pj limit (fresh st) (read_encryption st index) (\<lambda>_. True) [] (fresh st)"
  by (cases "index ENCRYPTION_PATH")
    (simp_all add: read_encryption_def emits_ret emits_seq_silent [OF emits_read_fresh] emits_checked)

lemma emits_find_container:
  "emits pj limit (fresh st) (find_container st index) (\<lambda>_. True) [] (fresh st)"
proof -
  have warn: "emits pj limit (fresh st) (warn_mimetype declared) (\<lambda>_. True) [] (fresh st)" for declared
    by (simp add: warn_mimetype_def emits_ret emits_warn)
  show ?thesis
    unfolding find_container_def Let_def
    by (rule emits_seq_silent [OF emits_read_named], cases "index CONTAINER_PATH")
      (simp_all add: emits_checked emits_seq_silent [OF warn] emits_ret)
qed

lemma emits_read_package:
  "emits pj limit (fresh st) (read_package st index pos)
     (\<lambda>(opf_path, k). \<exists>e. parse_package (se_reader st) (content st e) = Inr k) [] (fresh st)"
  unfolding read_package_def
proof (intro emits_seq_silent [OF emits_read_fresh])
  fix container
  show "emits pj limit (fresh st)
     (seq (checked (map_err (xml_status CONTAINER_PATH) (parse_container (se_reader st) container)))
       (\<lambda>opf_href.
     seq (checked (rootfile index opf_href)) (\<lambda>(opf_path, opf_pos).
     seq (read_at st opf_pos) (\<lambda>opf_bytes.
     seq (checked (map_err (xml_status opf_path) (parse_package (se_reader st) opf_bytes)))
       (\<lambda>k. ret (opf_path, k))))))
     (\<lambda>(opf_path, k). \<exists>e. parse_package (se_reader st) (content st e) = Inr k) [] (fresh st)"
  proof (intro emits_seq_silent [OF emits_checked [where R = "\<lambda>_. True"]] TrueI)
    fix opf_href :: string and opf :: "string \<times> nat"
    obtain opf_path opf_pos where opf: "opf = (opf_path, opf_pos)" by (cases opf)
    show "emits pj limit (fresh st) (case opf of (opf_path, opf_pos) \<Rightarrow>
       seq (read_at st opf_pos) (\<lambda>opf_bytes.
       seq (checked (map_err (xml_status opf_path) (parse_package (se_reader st) opf_bytes)))
         (\<lambda>k. ret (opf_path, k))))
       (\<lambda>(opf_path, k). \<exists>e. parse_package (se_reader st) (content st e) = Inr k) [] (fresh st)"
      unfolding opf prod.case
      by (intro emits_seq_silent [OF emits_read_fresh]
          emits_seq_silent [OF emits_checked [where R = "\<lambda>k. \<exists>e. parse_package (se_reader st) (content st e) = Inr k"]]
          emits_ret) auto
  qed
qed

lemma emits_read_book:
  "emits pj limit (fresh st) (read_book st (index_of (se_entries st))) (book_ok st) [] (fresh st)"
  unfolding read_book_def
proof (intro emits_seq_silent [OF emits_read_encryption] emits_seq_silent [OF emits_find_container]
    emits_seq_silent [OF emits_read_package])
  fix obfuscated pos and x :: "string \<times> package"
  assume x: "case x of (opf_path, k) \<Rightarrow> \<exists>e. parse_package (se_reader st) (content st e) = Inr k"
  obtain opf_path k where "x = (opf_path, k)" by (cases x)
  with x show "emits pj limit (fresh st)
      (case x of (opf_path, k) \<Rightarrow> checked (settle (index_of (se_entries st)) obfuscated opf_path k))
      (book_ok st) [] (fresh st)"
    by (auto intro!: emits_checked intro: settle_ok)
qed


lemma set_source_hash_fields [simp]:
  "wire (set_source_hash pj h s) = wire s" "channel (set_source_hash pj h s) = channel s"
  "sk_fold (cs_sink (set_source_hash pj h s)) = None \<longleftrightarrow> sk_fold (cs_sink s) = None"
  "cs_budget (set_source_hash pj h s) = cs_budget s"
  "cs_warnings (set_source_hash pj h s) = cs_warnings s"
  "cs_preread (set_source_hash pj h s) = cs_preread s"
  "cs_chapters (set_source_hash pj h s) = cs_chapters s"
  "cs_emitted (set_source_hash pj h s) = cs_emitted s"
  by (simp_all add: set_source_hash_def split: option.splits)

definition opened_ok ::
  "xml_reader \<Rightarrow> ('f, 'doc) projection \<Rightarrow> effective \<Rightarrow> ('f, 'doc) setting \<times> book \<Rightarrow> bool" where
  "opened_ok reader pj limits = (\<lambda>(st, b).
     se_reader st = reader \<and> se_projection st = pj \<and> se_limits st = limits \<and> book_ok st b)"

text \<open>All of \<open>open_book\<close> but the hash, which goes to the fold before anything else.\<close>

definition open_hashed ::
  "xml_reader \<Rightarrow> (string \<Rightarrow> zip_error + memory_archive) \<Rightarrow> ('f, 'doc) projection \<Rightarrow> effective
     \<Rightarrow> string \<Rightarrow> ('f, 'doc, ('f, 'doc) setting \<times> book) call" where
  "open_hashed reader zip_new pj limits bytes =
     seq (checked (open_archive zip_new bytes limits)) (\<lambda>archive.
     seq (checked (scan archive)) (\<lambda>sc.
     let st = \<lparr>se_reader = reader, se_projection = pj, se_limits = limits, se_archive = archive,
                se_entries = scan_entries sc\<rparr>
     in seq (warn_unusable (scan_unusable sc)) (\<lambda>_.
        seq (read_book st (index_of (scan_entries sc))) (\<lambda>b. ret (st, b)))))"

lemma open_book_split:
  "open_book reader zip_new pj limits bytes s =
     open_hashed reader zip_new pj limits bytes (set_source_hash pj (source_hash bytes) s)"
  by (simp add: open_book_def open_hashed_def seq_def [of "modify _"] modify_def)

lemma emits_open_hashed:
  fixes st0 :: "('f, 'doc) setting"
  shows "emits pj limit (fresh st0) (open_hashed reader zip_new pj limits bytes)
     (opened_ok reader pj limits) [] (fresh st0)"
  unfolding open_hashed_def
proof (intro emits_seq_silent [OF emits_checked [where R = "\<lambda>_. True"]] TrueI)
  fix archive :: memory_archive and sc :: scan_result
  let ?st = "\<lparr>se_reader = reader, se_projection = pj, se_limits = limits, se_archive = archive,
               se_entries = scan_entries sc\<rparr>"
  have "emits pj limit (fresh ?st) (warn_unusable (scan_unusable sc)) (\<lambda>_. True) [] (fresh ?st)"
    unfolding warn_unusable_def
    by (rule emits_each_silent) (auto intro: emits_warn split: prod.splits)
  moreover have "emits pj limit (fresh ?st)
      (read_book ?st (index_of (scan_entries sc))) (book_ok ?st) [] (fresh ?st)"
    using emits_read_book [of pj limit ?st] by simp
  ultimately have "emits pj limit (fresh ?st)
      (seq (warn_unusable (scan_unusable sc)) (\<lambda>_.
       seq (read_book ?st (index_of (scan_entries sc))) (\<lambda>b. ret (?st, b))))
      (opened_ok reader pj limits) [] (fresh ?st)"
    by (auto intro!: emits_seq_silent emits_ret simp: opened_ok_def elim!: emits_seq_silent)
  then show "emits pj limit (fresh st0)
      (let st = ?st in seq (warn_unusable (scan_unusable sc)) (\<lambda>_.
       seq (read_book st (index_of (scan_entries sc))) (\<lambda>b. ret (st, b))))
      (opened_ok reader pj limits) [] (fresh st0)"
    unfolding Let_def by (rule emits_conseq) (auto intro: fresh_any)
qed


section \<open>The trailer\<close>

fun is_document :: "'doc event \<Rightarrow> bool" where
  "is_document (EventDocument _) = True"
| "is_document _ = False"

text \<open>The document a fold gives, as the event it is sent in.\<close>

definition document_events :: "('f, 'doc) projection \<Rightarrow> 'f option \<Rightarrow> 'doc event list" where
  "document_events pj projection =
     (case projection of None \<Rightarrow> [] | Some f \<Rightarrow> [EventDocument (fst (pj_take pj f))])"

lemma emit_status_cases:
  obtains (Done) x s' where "emit_status st skipped s = (Inr (), s')"
      "feeds (se_projection st) [EventStatus (trailer_of skipped s)] (fold_of s) = Inr x"
      "wire s' = wire s @ document_events (se_projection st) x @ [EventStatus (trailer_of skipped s)]"
      "cs_preread s' = cs_preread s" "\<And>limit. call_inv limit s' = call_inv limit s"
      "cs_budget s' = cs_budget s" "cs_warnings s' = cs_warnings s"
  | (Lost) x s' where "emit_status st skipped s = (Inl Gone, s')"
      "feeds (se_projection st) [EventStatus (trailer_of skipped s)] (fold_of s) = Inr x"
      "prefix (wire s') (wire s @ document_events (se_projection st) x)"
      "\<And>limit. call_inv limit s' = call_inv limit s"
      "\<not> accepted (channel s (length (wire s')))"
  | (Burst) p where "emit_status st skipped s = (Inl (Raised p), s)"
      "feeds (se_projection st) [EventStatus (trailer_of skipped s)] (fold_of s) = Inl p"
proof (cases "fold_of s")
  case None
  then show ?thesis
    using Done [of _ None] Lost [of _ None]
    by (cases "accepted (channel s (length (wire s)))")
      (simp_all add: emit_status_def emit_def send_eq call_inv_def document_events_def)
next
  case (Some f)
  let ?ev = "EventStatus (trailer_of skipped s)" and ?pj = "se_projection st"
  show ?thesis
  proof (cases "pj_consume ?pj ?ev f")
    case (Inl p)
    then show ?thesis using Burst Some by (simp add: emit_status_def emit_def)
  next
    case (Inr f1)
    obtain doc f2 where take: "pj_take ?pj f1 = (doc, f2)" by (cases "pj_take ?pj f1")
    have run: "emit_status st skipped s = seq (send (EventDocument doc)) (\<lambda>_. send ?ev) (set_fold f2 s)"
      by (simp add: emit_status_def emit_def Some take Inr)
    have fed: "feeds ?pj [?ev] (fold_of s) = Inr (Some f1)" by (simp add: Some Inr)
    have docs: "document_events ?pj (Some f1) = [EventDocument doc]"
      by (simp add: document_events_def take)
    let ?n = "length (wire s)"
    consider (none) "\<not> accepted (channel s ?n)"
      | (one) "accepted (channel s ?n)" "\<not> accepted (channel s (Suc ?n))"
      | (both) "accepted (channel s ?n)" "accepted (channel s (Suc ?n))" by blast
    then show ?thesis
    proof cases
      case none
      then show ?thesis
        using Lost [OF _ fed, of "set_fold f2 s"] by (simp add: run docs seq_def send_eq call_inv_def)
    next
      case one
      then show ?thesis
        using Lost [OF _ fed, of "deliver (EventDocument doc) (set_fold f2 s)"]
        by (simp add: run docs seq_def send_eq call_inv_def)
    next
      case both
      then show ?thesis
        using Done [OF _ fed, of "deliver ?ev (deliver (EventDocument doc) (set_fold f2 s))"]
        by (simp add: run docs seq_def send_eq call_inv_def)
    qed
  qed
qed

section \<open>A whole call\<close>

text \<open>The state the opening starts from, and the fold in it.\<close>

definition first_state ::
  "('f, 'doc) projection \<Rightarrow> effective \<Rightarrow> string \<Rightarrow> metrics \<Rightarrow> (nat \<Rightarrow> delivery) \<Rightarrow> 'f option
     \<Rightarrow> ('f, 'doc) call_state" where
  "first_state pj limits bytes m chan projection =
     set_source_hash pj (source_hash bytes) (start_call limits m (new_sink chan projection))"

definition hashed :: "('f, 'doc) projection \<Rightarrow> string \<Rightarrow> 'f option \<Rightarrow> 'f option" where
  "hashed pj bytes projection = map_option (pj_set_source_hash pj (source_hash bytes)) projection"

lemma first_state_fields [simp]:
  "wire (first_state pj limits bytes m chan projection) = []"
  "channel (first_state pj limits bytes m chan projection) = chan"
  "fold_of (first_state pj limits bytes m chan projection) = hashed pj bytes projection"
  by (simp_all add: first_state_def hashed_def start_call_def new_sink_def set_source_hash_def
      split: option.splits)

lemma first_state_ok:
  "call_inv (eff_max_uncompressed_bytes limits) (first_state pj limits bytes m chan projection)
   \<and> fresh st (first_state pj limits bytes m chan projection)"
  by (simp add: first_state_def call_inv_def start_call_def new_sink_def budget_inv_new holding_def)

lemma emitsD: "emits pj limit P c R evs Q \<Longrightarrow> call_inv limit s \<and> P s \<Longrightarrow> c s = (r, s') \<Longrightarrow>
    ends pj limit R evs Q s r s'"
  by (auto simp: emits_def)

text \<open>What is known of a call, by how far it got: the three ways the pieces above can end.\<close>

lemma run_cases:
  fixes st0 :: "('f, 'doc) setting" and s :: "('f, 'doc) call_state" and projection :: "'f option"
  assumes "run reader zip_new pj limits bytes m (new_sink chan projection) = (out, s)"
  defines "s0 \<equiv> start_call limits m (new_sink chan projection)"
    and "limit \<equiv> eff_max_uncompressed_bytes limits"
  obtains (Refused) a s1 where "open_book reader zip_new pj limits bytes s0 = (Inl a, s1)"
      "out = outcome_of (Inl a)" "wire s = []" "call_inv limit s"
      "a = Gone \<longrightarrow> \<not> accepted (chan (length (wire s)))" "\<And>p. a \<noteq> Raised p"
  | (Stopped) st b s1 a where "open_book reader zip_new pj limits bytes s0 = (Inr (st, b), s1)"
      "opened_ok reader pj limits (st, b)"
      "out = outcome_of (Inl a)" "prefix (wire s) (script st b)" "call_inv limit s"
      "a = Gone \<longrightarrow> \<not> accepted (chan (length (wire s)))"
      "\<And>p. a = Raised p \<Longrightarrow> \<exists>ev. prefix (wire s @ [ev]) (script st b)
         \<and> raises pj (wire s) ev (hashed pj bytes projection) p"
  | (Sent) st b s1 s2 r where "open_book reader zip_new pj limits bytes s0 = (Inr (st, b), s1)"
      "opened_ok reader pj limits (st, b)"
      "emit_status st (pl_skipped (resource_plan st b)) s2 = (r, s)" "out = outcome_of r"
      "wire s2 = script st b" "call_inv limit s2" "channel s2 = chan"
      "feeds pj (script st b) (hashed pj bytes projection) = Inr (fold_of s2)"
      "holding st {} 0 (length (bk_spine b)) (length (pl_pending (resource_plan st b))) s2"
proof -
  let ?s0 = "first_state pj limits bytes m chan projection"
  obtain r0 s1 where open_: "open_hashed reader zip_new pj limits bytes ?s0 = (r0, s1)"
    by (cases "open_hashed reader zip_new pj limits bytes ?s0")
  have book: "open_book reader zip_new pj limits bytes s0 = (r0, s1)"
    using open_ by (simp add: open_book_split s0_def first_state_def)
  have start: "call_inv limit ?s0 \<and> fresh st0 ?s0" unfolding limit_def by (rule first_state_ok)
  note first = emitsD [OF emits_open_hashed start open_]
  have run: "(out, s) =
      (case seq (open_book reader zip_new pj limits bytes) (\<lambda>(st, b). send_book st b) s0 of
         (r, s) \<Rightarrow> (outcome_of r, s))"
    using assms(1) by (simp add: run_def parse_def s0_def)
  show ?thesis
  proof (cases r0)
    case (Inl a)
    then have "out = outcome_of (Inl a)" "s = s1" using run by (simp_all add: seq_def book)
    with first Inl book show ?thesis by (intro Refused) (auto simp: ends_def)
  next
    case (Inr x)
    obtain st b where x: "x = (st, b)" by (cases x)
    have ok: "opened_ok reader pj limits (st, b)" and s1: "call_inv limit s1 \<and> fresh st s1"
      using first Inr x by (auto simp: ends_def intro: fresh_any)
    have pj: "se_projection st = pj" using ok by (simp add: opened_ok_def)
    have eq1: "wire s1 = []" "channel s1 = chan" "fold_of s1 = hashed pj bytes projection"
      using first Inr by (simp_all add: ends_def)
    obtain r s2 where events: "send_events st b s1 = (r, s2)" by (cases "send_events st b s1")
    note second = emitsD [OF emits_events s1 events, unfolded pj]
    have eq: "(out, s) =
        (case seq (send_events st b) (\<lambda>p. emit_status st (pl_skipped p)) s1 of
           (r, s) \<Rightarrow> (outcome_of r, s))"
      unfolding run by (simp add: seq_def [of "open_book _ _ _ _ _"] book Inr x send_book_split)
    show ?thesis
    proof (cases r)
      case (Inl a)
      then have "out = outcome_of (Inl a)" "s = s2" using eq by (simp_all add: seq_def events)
      with second Inl eq1 show ?thesis
        by (intro Stopped [OF book [unfolded Inr x] ok]) (auto simp: ends_def)
    next
      case r: (Inr p)
      have p: "pl_skipped p = pl_skipped (resource_plan st b)"
        using second r by (simp add: same_plan_def ends_def)
      obtain r' where "emit_status st (pl_skipped p) s2 = (r', s)" "out = outcome_of r'"
        using eq by (auto simp: seq_def events r split: prod.splits)
      with second r eq1 p show ?thesis
        by (intro Sent [OF book [unfolded Inr x] ok]) (auto simp: ends_def)
    qed
  qed
qed


section \<open>The order of the walk\<close>

fun stage :: "'doc event \<Rightarrow> nat" where
  "stage (EventInfo _) = 0"
| "stage (EventNavigation _) = 1"
| "stage (EventMediaOverlay _) = 2"
| "stage (EventChapter _) = 3"
| "stage (EventResource _) = 3"
| "stage (EventDocument _) = 4"
| "stage (EventStatus _) = 5"

fun is_chapter :: "'doc event \<Rightarrow> bool" where
  "is_chapter (EventChapter _) = True"
| "is_chapter _ = False"

fun is_resource :: "'doc event \<Rightarrow> bool" where
  "is_resource (EventResource _) = True"
| "is_resource _ = False"

lemma stage_kinds: "is_chapter ev \<Longrightarrow> stage ev = 3" "is_resource ev \<Longrightarrow> stage ev = 3"
  by (cases ev; simp)+

definition resources_in :: "('a + 'b) list \<Rightarrow> 'a list" where
  "resources_in items = map projl (filter isl items)"

lemma resources_in_simps [simp]:
  "resources_in [] = []" "resources_in (Inl r # items) = r # resources_in items"
  "resources_in (Inr x # items) = resources_in items"
  "resources_in (items @ items') = resources_in items @ resources_in items'"
  "resources_in (map Inl rs) = rs"
  by (simp_all add: resources_in_def filter_map comp_def)

lemma walk_event_kinds [simp]:
  "stage (walk_event st b item) = 3"
  "is_chapter (walk_event st b item) \<longleftrightarrow> \<not> isl item"
  "is_resource (walk_event st b item) \<longleftrightarrow> isl item"
  by (cases item; simp add: walk_event_def resource_event_def chapter_event_def split: prod.splits)+

lemma walk_order_chapters: "map projr (filter (\<lambda>i. \<not> isl i) (walk_order rs xs ps)) = xs"
  by (induction rs xs ps rule: walk_order.induct) (simp_all add: filter_map comp_def)

lemma walk_order_resources: "resources_in (walk_order rs xs ps) = ps"
  by (induction rs xs ps rule: walk_order.induct) simp_all

lemma none_below:
  "sorted_wrt (<) (map fst (r # rs)) \<Longrightarrow> \<not> fst r < (e::nat) \<Longrightarrow> \<forall>q\<in>set (r # rs). \<not> fst q < e"
  by (auto dest: less_trans)

lemma takeWhile_below:
  "sorted_wrt (<) (map fst rs) \<Longrightarrow> takeWhile (\<lambda>r. fst r < (e::nat)) rs = filter (\<lambda>r. fst r < e) rs"
proof (induction rs)
  case (Cons r rs)
  show ?case
  proof (cases "fst r < e")
    case False
    then show ?thesis using none_below [OF Cons.prems False] by simp
  qed (use Cons in simp)
qed simp

lemma dropWhile_below:
  "sorted_wrt (<) (map fst rs) \<Longrightarrow> dropWhile (\<lambda>r. fst r < (e::nat)) rs = filter (\<lambda>r. \<not> fst r < e) rs"
proof (induction rs)
  case (Cons r rs)
  show ?case
  proof (cases "fst r < e")
    case False
    then show ?thesis using none_below [OF Cons.prems False] by simp
  qed (use Cons in simp)
qed simp

text \<open>When chapter \<open>x\<close> is sent, the resources stored before it or before an earlier chapter have been.\<close>

lemma walk_order_split:
  assumes "sorted_wrt (<) (map fst ps)"
  shows "\<exists>before after. walk_order rs (ys @ x # zs) ps = before @ Inr x # after
    \<and> resources_in before =
        filter (\<lambda>r. \<exists>y\<in>set (ys @ [x]). fst r < chapter_entry rs (snd y)) ps"
  using assms
proof (induction ys arbitrary: ps)
  case Nil
  let ?e = "chapter_entry rs (snd x)"
  have "walk_order rs ([] @ x # zs) ps =
      map Inl (takeWhile (\<lambda>r. fst r < ?e) ps) @ Inr x
      # walk_order rs zs (dropWhile (\<lambda>r. fst r < ?e) ps)" by simp
  moreover have "resources_in (map Inl (takeWhile (\<lambda>r. fst r < ?e) ps)) =
      filter (\<lambda>r. \<exists>y\<in>set ([] @ [x]). fst r < chapter_entry rs (snd y)) ps"
    using takeWhile_below [OF Nil] by simp
  ultimately show ?case by blast
next
  case (Cons y ys)
  let ?e = "chapter_entry rs (snd y)"
  let ?rest = "dropWhile (\<lambda>r. fst r < ?e) ps"
  let ?P = "\<lambda>r. \<exists>y\<in>set (ys @ [x]). fst r < chapter_entry rs (snd y)"
  have rest: "?rest = filter (\<lambda>r. \<not> fst r < ?e) ps" by (rule dropWhile_below [OF Cons.prems])
  have "sorted_wrt (<) (map fst ?rest)"
    unfolding rest using Cons.prems by (simp add: sorted_wrt_map sorted_wrt_filter)
  from Cons.IH [OF this] obtain before after where
    b: "walk_order rs (ys @ x # zs) ?rest = before @ Inr x # after"
    "resources_in before = filter ?P ?rest" by blast
  have "walk_order rs ((y # ys) @ x # zs) ps =
      (map Inl (takeWhile (\<lambda>r. fst r < ?e) ps) @ Inr y # before) @ Inr x # after"
    using b(1) by simp
  moreover have "filter (\<lambda>r. fst r < ?e) ps @ filter ?P (filter (\<lambda>r. \<not> fst r < ?e) ps) =
      filter (\<lambda>r. \<exists>y\<in>set ((y # ys) @ [x]). fst r < chapter_entry rs (snd y)) ps"
    using Cons.prems
  proof (induction ps)
    case (Cons p ps)
    show ?case
    proof (cases "fst p < ?e")
      case False
      then have "filter (\<lambda>r. fst r < ?e) ps = []"
        using Cons.prems by (fastforce simp: filter_empty_conv)
      with False Cons show ?thesis by auto
    qed (use Cons in auto)
  qed simp
  ultimately show ?case
    using b(2) takeWhile_below [OF Cons.prems] rest by (intro exI conjI) (assumption | simp)+
qed


section \<open>Properties\<close>

text \<open>The stages of the script, and what it is filtered to.\<close>

lemma script_stages:
  "\<forall>ev\<in>set (navigation_events st b). stage ev = 1" "length (navigation_events st b) \<le> 1"
  "\<forall>ev\<in>set (all_overlay_events st b). stage ev = 2"
proof -
  show "\<forall>ev\<in>set (navigation_events st b). stage ev = 1" "length (navigation_events st b) \<le> 1"
    by (auto simp: navigation_events_def Let_def split: option.splits)
  have "\<forall>ev\<in>set (overlay_events st (bk_resolved b) link). stage ev = 2" for link
    by (auto simp: overlay_events_def Let_def split: option.splits prod.splits)
  then show "\<forall>ev\<in>set (all_overlay_events st b). stage ev = 2" by (auto simp: all_overlay_events_def)
qed

lemma script_filters:
  "filter is_chapter (navigation_events st b) = []" "filter is_chapter (all_overlay_events st b) = []"
  "filter is_resource (navigation_events st b) = []" "filter is_resource (all_overlay_events st b) = []"
  "filter (\<lambda>ev. stage ev = 0) (navigation_events st b) = []"
  "filter (\<lambda>ev. stage ev = 0) (all_overlay_events st b) = []"
  "filter (\<lambda>ev. stage ev = 1) (all_overlay_events st b) = []"
  using script_stages [where st = st and b = b] by (auto simp: filter_empty_conv dest!: stage_kinds)

lemma sorted_constant: "\<forall>ev\<in>set evs. f ev = (k :: nat) \<Longrightarrow> sorted (map f evs)"
  by (induction evs) auto

lemma script_sorted: "sorted (map stage (script st b))"
proof -
  let ?order = "walk_order (bk_resolved b) (enumerate 0 (bk_spine b)) (pl_pending (resource_plan st b))"
  have "map stage (map (walk_event st b) ?order) = replicate (length ?order) 3"
    by (simp add: comp_def map_replicate_const)
  moreover have "sorted (map stage (navigation_events st b))" "sorted (map stage (all_overlay_events st b))"
    using script_stages [where st = st and b = b] by (blast intro: sorted_constant)+
  ultimately show ?thesis
    using script_stages [where st = st and b = b] by (auto simp: script_def sorted_append)
qed

lemma script_chapters:
  "filter is_chapter (script st b) = map (chapter_event st b) (enumerate 0 (bk_spine b))"
proof -
  let ?order = "walk_order (bk_resolved b) (enumerate 0 (bk_spine b)) (pl_pending (resource_plan st b))"
  have "filter is_chapter (script st b) = map (walk_event st b) (filter (\<lambda>i. \<not> isl i) ?order)"
    by (simp add: script_def script_filters filter_map comp_def)
  also have "\<dots> = map (chapter_event st b) (map projr (filter (\<lambda>i. \<not> isl i) ?order))"
    by (auto simp: walk_event_def split: sum.splits)
  finally show ?thesis by (simp only: walk_order_chapters)
qed

lemma script_resources:
  "filter is_resource (script st b) = map (resource_event st b) (pl_pending (resource_plan st b))"
proof -
  let ?order = "walk_order (bk_resolved b) (enumerate 0 (bk_spine b)) (pl_pending (resource_plan st b))"
  have "filter is_resource (script st b) = map (walk_event st b) (filter isl ?order)"
    by (simp add: script_def script_filters filter_map comp_def)
  also have "\<dots> = map (resource_event st b) (resources_in ?order)"
    by (auto simp: walk_event_def resources_in_def split: sum.splits)
  finally show ?thesis by (simp only: walk_order_resources)
qed

lemma script_info:
  "hd (script st b) = EventInfo (info_of b)" "length (filter (\<lambda>ev. stage ev = 0) (script st b)) = 1"
  by (simp_all add: script_def script_filters filter_empty_conv)

lemma script_navigations: "length (filter (\<lambda>ev. stage ev = 1) (script st b)) \<le> 1"
proof -
  have "length (filter (\<lambda>ev. stage ev = 1) (script st b))
      = length (filter (\<lambda>ev. stage ev = 1) (navigation_events st b))"
    by (simp add: script_def script_filters [unfolded One_nat_def] filter_empty_conv)
  also have "\<dots> \<le> 1" by (rule order_trans [OF length_filter_le script_stages(2)])
  finally show ?thesis .
qed

text \<open>
  The document of a run of events: what the fold gives when it is told the archive's hash and fed
  with them, nothing when there is no fold.
\<close>

definition projected ::
  "('f, 'doc) projection \<Rightarrow> string \<Rightarrow> 'f option \<Rightarrow> 'doc event list \<Rightarrow> panic + 'doc event list" where
  "projected pj bytes projection evs =
     and_then (feeds pj evs (hashed pj bytes projection)) (\<lambda>x. Inr (document_events pj x))"

lemma projected_next:
  "feeds pj evs (hashed pj bytes projection) = Inr x \<Longrightarrow>
   projected pj bytes projection (evs @ evs') =
     and_then (feeds pj evs' x) (\<lambda>y. Inr (document_events pj y))"
  by (simp add: projected_def feeds_append)

text \<open>
  Property C4.  What a call sends is its script.  A call refused while the book is opened, which is
  where every defect of the archive, the package and the spine is found, has sent nothing.  Any
  other call that completes has sent the script of the settled book, the document projected from
  exactly the events the client gets, when one was asked for, and the trailer; one that does not
  complete has sent a part of that; and one that panics did so because the fold raised it at the
  event that would have come next.
\<close>

theorem stream_follows_script:
  fixes m :: metrics and chan :: "nat \<Rightarrow> delivery" and projection :: "'f option"
    and pj :: "('f, 'doc) projection"
  shows "case run reader zip_new pj limits bytes m (new_sink chan projection) of (out, s) \<Rightarrow>
    (case fst (open_book reader zip_new pj limits bytes
                 (start_call limits m (new_sink chan projection))) of
       Inl a \<Rightarrow> out = outcome_of (Inl a) \<and> wire s = []
     | Inr (st, b) \<Rightarrow>
         (case out of
            Inl p \<Rightarrow> \<exists>status ev. prefix (wire s @ [ev]) (script st b @ [EventStatus status])
              \<and> raises pj (wire s) ev (hashed pj bytes projection) p
          | Inr Complete \<Rightarrow> \<exists>status docs.
              projected pj bytes projection (script st b @ [EventStatus status]) = Inr docs
              \<and> wire s = script st b @ docs @ [EventStatus status]
          | Inr _ \<Rightarrow> prefix (wire s) (script st b)
              \<or> (\<exists>status docs.
                  projected pj bytes projection (script st b @ [EventStatus status]) = Inr docs
                  \<and> prefix (wire s) (script st b @ docs))))"
proof -
  obtain out s where run: "run reader zip_new pj limits bytes m (new_sink chan projection) = (out, s)"
    by (cases "run reader zip_new pj limits bytes m (new_sink chan projection)")
  from run show ?thesis
  proof (cases rule: run_cases)
    case (Refused a s1)
    then show ?thesis by (simp add: run)
  next
    case (Stopped st b s1 a)
    have "prefix xs (script st b @ ys)" if "prefix xs (script st b)" for xs ys
      using that by (rule prefix_prefix)
    with Stopped(1,3,4,7) show ?thesis
      by (cases a) (fastforce simp: run outcome_of_def)+
  next
    case (Sent st b s1 s2 r)
    have pj: "se_projection st = pj" using Sent(2) by (simp add: opened_ok_def)
    note docs = projected_next [OF Sent(8)]
    from Sent(3) show ?thesis
    proof (cases rule: emit_status_cases [of st "pl_skipped (resource_plan st b)" s2])
      case (Done x s')
      then show ?thesis
        using Sent(1,3,4,5) by (auto simp: run outcome_of_def docs pj intro!: exI)
    next
      case (Lost x s')
      let ?status = "trailer_of (pl_skipped (resource_plan st b)) s2"
      have "projected pj bytes projection (script st b @ [EventStatus ?status])
          = Inr (document_events pj x)"
        using Lost(2) by (simp add: docs pj)
      moreover have "prefix (wire s) (script st b @ document_events pj x)"
        using Lost(1,3) Sent(3,5) by (simp add: pj)
      ultimately show ?thesis using Lost(1) Sent(1,3,4) by (auto simp: run outcome_of_def)
    next
      case (Burst p)
      let ?status = "trailer_of (pl_skipped (resource_plan st b)) s2"
      have "wire s = script st b" using Burst(1) Sent(3,5) by simp
      moreover from this have "raises pj (wire s) (EventStatus ?status) (hashed pj bytes projection) p"
        using Burst(2) Sent(8) by (simp add: raises_def pj)
      ultimately show ?thesis
        using Burst(1) Sent(1,3,4)
        by (simp add: run outcome_of_def) (intro exI [of _ ?status] exI [of _ "EventStatus ?status"]; simp)
    qed
  qed
qed


text \<open>
  Property C6.  The bomb guard over a whole call, whatever its end: the chapter and resource bytes
  sent, entries that go out twice counted twice, are within what was charged, and the charge is
  within the call's cap on inflated bytes, the budget's two halves adding up to it; the trailer
  never has more than sixty-four warnings.
\<close>

theorem payload_within_cap:
  "case run reader zip_new pj limits bytes m (new_sink chan projection) of (out, s) \<Rightarrow>
     carried (wire s) \<le> unat (consumed (cs_budget s))
     \<and> unat (remaining (cs_budget s)) + unat (consumed (cs_budget s))
         = unat (eff_max_uncompressed_bytes limits)
     \<and> length (wa_entries (cs_warnings s)) \<le> 64"
proof -
  obtain out s where run: "run reader zip_new pj limits bytes m (new_sink chan projection) = (out, s)"
    by (cases "run reader zip_new pj limits bytes m (new_sink chan projection)")
  have "call_inv (eff_max_uncompressed_bytes limits) s"
    using run
  proof (cases rule: run_cases)
    case (Sent st b s1 s2 r)
    from Sent(3,6) show ?thesis
      by (cases rule: emit_status_cases [of st "pl_skipped (resource_plan st b)" s2]) auto
  qed (simp_all)
  then show ?thesis by (simp add: run call_inv_def budget_inv_def warnings_fit_def MAX_WARNINGS_def)
qed


text \<open>
  Property C7.  The trailer of a complete call tells what was sent and what it cost: as many chapters
  as the spine has items, as many resources as the plan has and the plan's skip count; exactly the
  bytes and the entries charged to the budget as it stands at the end, so that what is left of the
  budget and what the trailer counts add up to the call's cap; the warnings kept; and at least the
  chapter and resource bytes sent.  Nothing is left among the entries read ahead, so each was handed
  back by the walk.
\<close>

theorem trailer_tells_the_stream:
  "case run reader zip_new pj limits bytes m (new_sink chan projection) of
     (Inr Complete, s) \<Rightarrow>
       (case fst (open_book reader zip_new pj limits bytes
                    (start_call limits m (new_sink chan projection))) of
          Inl a \<Rightarrow> False
        | Inr (st, b) \<Rightarrow>
            cs_preread s = Map.empty
            \<and> (case last (wire s) of
                 EventStatus status \<Rightarrow>
                   ps_chapters_emitted status = of_nat (length (bk_spine b))
                   \<and> ps_resources_emitted status
                       = of_nat (length (pl_pending (resource_plan st b)))
                   \<and> ps_resources_skipped status = pl_skipped (resource_plan st b)
                   \<and> ps_uncompressed_bytes status = consumed (cs_budget s)
                   \<and> ps_entries_read status = entries_read (cs_budget s)
                   \<and> ps_warnings status = wa_entries (cs_warnings s)
                   \<and> unat (remaining (cs_budget s)) + unat (ps_uncompressed_bytes status)
                       = unat (eff_max_uncompressed_bytes limits)
                   \<and> carried (script st b) \<le> unat (ps_uncompressed_bytes status)
               | _ \<Rightarrow> False))
   | _ \<Rightarrow> True"
proof -
  obtain out s where run: "run reader zip_new pj limits bytes m (new_sink chan projection) = (out, s)"
    by (cases "run reader zip_new pj limits bytes m (new_sink chan projection)")
  from run show ?thesis
  proof (cases rule: run_cases)
    case (Sent st b s1 s2 r)
    from Sent(3) show ?thesis
    proof (cases rule: emit_status_cases [of st "pl_skipped (resource_plan st b)" s2])
      case (Done x s')
      then show ?thesis
        using Sent(1,3,4,5,6,9)
        by (simp add: run outcome_of_def trailer_of_def holding_def call_inv_def budget_inv_def)
    qed (use Sent(3,4) in \<open>auto simp: run outcome_of_def\<close>)
  qed (simp_all add: run outcome_of_def split: abort.splits)
qed

text \<open>
  A call is abandoned only for a client that does not take its next message: with a
  channel that accepts every message none is, and each call ends complete or with a status.
\<close>

theorem abandoned_only_when_refused:
  "case run reader zip_new pj limits bytes m (new_sink chan projection) of
     (Inr Abandoned, s) \<Rightarrow> \<not> accepted (chan (length (wire s)))
   | _ \<Rightarrow> True"
proof -
  obtain out s where run: "run reader zip_new pj limits bytes m (new_sink chan projection) = (out, s)"
    by (cases "run reader zip_new pj limits bytes m (new_sink chan projection)")
  from run show ?thesis
  proof (cases rule: run_cases)
    case (Sent st b s1 s2 r)
    from Sent(3) show ?thesis
      by (cases rule: emit_status_cases [of st "pl_skipped (resource_plan st b)" s2])
        (use Sent(3,4,7) in \<open>auto simp: run outcome_of_def\<close>)
  qed (simp_all add: run outcome_of_def split: abort.splits)
qed

text \<open>
  Property C8.  Where the book is settled, nothing can be missing later: every spine item has, in
  order, a chapter the archive holds and the encryption descriptor does not list, found from the
  first manifest item of its id, and no manifest item names an entry the archive does not have.
\<close>

theorem settled_spine_is_held:
  "case open_book reader zip_new pj limits bytes
          (start_call limits m (new_sink chan projection)) of (r, s) \<Rightarrow>
     wire s = []
     \<and> (case r of
          Inl a \<Rightarrow> True
        | Inr (st, b) \<Rightarrow>
            list_all (settled_entry (bk_obfuscated b) (bk_resolved b)) (bk_spine b)
            \<and> map (snd \<circ> snd) (bk_spine b) = pk_spine (bk_package b)
            \<and> entries_within (length (se_entries st)) (bk_resolved b))"
proof -
  obtain r s where open_: "open_book reader zip_new pj limits bytes
      (start_call limits m (new_sink chan projection)) = (r, s)"
    by (cases "open_book reader zip_new pj limits bytes
      (start_call limits m (new_sink chan projection))")
  have "open_hashed reader zip_new pj limits bytes (first_state pj limits bytes m chan projection) = (r, s)"
    using open_ by (simp add: open_book_split first_state_def)
  note facts = emitsD [OF emits_open_hashed first_state_ok this]
  show ?thesis
    unfolding open_ using facts
    by (cases r) (auto simp: ends_def opened_ok_def book_ok_def)
qed

lemma enumerate_nth: "enumerate 0 xs = map (\<lambda>j. (j, xs ! j)) [0..<length xs]"
  by (rule nth_equalityI) (simp_all add: nth_enumerate_eq)

text \<open>
  A resource goes out when its entry is reached: of the plan's resources, those sent
  before chapter \<open>i\<close> are exactly the ones stored before it or before an earlier chapter.
\<close>

theorem resources_sent_at_entry:
  fixes st :: "('f, 'doc) setting" and b :: book
  assumes "i < length (bk_spine b)"
  defines "ps \<equiv> pl_pending (resource_plan st b)"
  shows "\<exists>before after.
    walk_order (bk_resolved b) (enumerate 0 (bk_spine b)) ps = before @ Inr (i, bk_spine b ! i) # after
    \<and> resources_in before =
        filter (\<lambda>r. \<exists>j\<le>i. fst r < chapter_entry (bk_resolved b) (bk_spine b ! j)) ps"
proof -
  let ?rs = "bk_resolved b" and ?xs = "enumerate 0 (bk_spine b)"
  have split: "?xs = take i ?xs @ (i, bk_spine b ! i) # drop (Suc i) ?xs"
    using assms(1) by (metis add_0 id_take_nth_drop length_enumerate nth_enumerate_eq)
  have early: "set (take i ?xs @ [(i, bk_spine b ! i)]) = (\<lambda>j. (j, bk_spine b ! j)) ` {..i}"
    using assms(1) by (auto simp: enumerate_nth take_map atLeast0LessThan le_less)
  have "sorted_wrt (<) (map fst ps)" unfolding ps_def resource_plan_def by (rule pending_members)
  from walk_order_split [OF this, of ?rs "take i ?xs" "(i, bk_spine b ! i)" "drop (Suc i) ?xs"]
  obtain before after
    where order: "walk_order ?rs ?xs ps = before @ Inr (i, bk_spine b ! i) # after"
      and sent: "resources_in before =
        filter (\<lambda>r. \<exists>y\<in>(\<lambda>j. (j, bk_spine b ! j)) ` {..i}. fst r < chapter_entry ?rs (snd y)) ps"
    unfolding split [symmetric] early by blast
  have "resources_in before =
      filter (\<lambda>r. \<exists>j\<le>i. fst r < chapter_entry ?rs (bk_spine b ! j)) ps"
    unfolding sent by (rule filter_cong) auto
  with order show ?thesis by blast
qed

text \<open>A cover stored before the only chapter, in a book without options: the cover goes out first.\<close>

definition sample_book :: book where
  "sample_book = \<lparr>bk_obfuscated = [], bk_opf_path = ''b.opf'', bk_package = empty_package,
     bk_resolved = [listed ''t'' ''text/html'' [] (Some 3), listed ''c'' ''image/png'' [] (Some 1)],
     bk_spine = [(0, 0, \<lparr>si_idref = ''t'', si_linear = True\<rparr>)]\<rparr>"

definition sample_setting :: "(unit, unit) setting" where
  "sample_setting = \<lparr>se_reader = (\<lambda>_ _. []),
     se_projection = \<lparr>pj_consume = (\<lambda>_ f. Inr f), pj_take = (\<lambda>f. ((), f)),
       pj_set_source_hash = (\<lambda>_ f. f)\<rparr>,
     se_limits = resolve_options default_limits default_options,
     se_archive = \<lparr>za_headers = [], za_directory_start = 0, za_reads = (\<lambda>_. Inr [])\<rparr>,
     se_entries = []\<rparr>"

theorem resources_sent_at_entry_witness:
  "\<exists>before after.
     walk_order (bk_resolved sample_book) (enumerate 0 (bk_spine sample_book))
       (pl_pending (resource_plan sample_setting sample_book))
       = before @ Inr (0, bk_spine sample_book ! 0) # after
     \<and> resources_in before = [(1, 1)]"
proof -
  have "pl_pending (resource_plan sample_setting sample_book) = [(1, 1)]"
    by (simp add: resource_plan_def sample_setting_def sample_book_def plan_walk_def plan_item_def
        spine_sources_def chapter_entry_def listed_def classify_def media_base_def selected_def
        resolve_options_def default_options_def Let_def plain_text before_def is_nested_archive_def
        path_extension_def path_file_name_def rfind_byte_def)
  moreover have "chapter_entry (bk_resolved sample_book) (bk_spine sample_book ! 0) = 3"
    by (simp add: chapter_entry_def sample_book_def listed_def)
  moreover have "0 < length (bk_spine sample_book)" by (simp add: sample_book_def)
  note resources_sent_at_entry [OF this, of sample_setting]
  ultimately show ?thesis by simp
qed

section \<open>What the client receives, message by message\<close>

text \<open>The chapter for spine item \<open>i\<close>, read off the package and the manifest.\<close>

definition chapter_tells :: "('f, 'doc) setting \<Rightarrow> book \<Rightarrow> nat \<Rightarrow> chapter_msg \<Rightarrow> bool" where
  "chapter_tells st b i c \<longleftrightarrow>
     (let rs = bk_resolved b; itemref = pk_spine (bk_package b) ! i
      in case by_id rs (si_idref itemref) of
           None \<Rightarrow> False
         | Some primary \<Rightarrow>
             (case chapter_source primary rs of
                None \<Rightarrow> False
              | Some source \<Rightarrow>
                  ch_spine_index c = u32_or_max i
                  \<and> ch_idref c = si_idref itemref \<and> ch_linear c = si_linear itemref
                  \<and> ch_href c = rv_path (rs ! source)
                  \<and> ch_media_type c = mi_media_type (rv_item (rs ! source))
                  \<and> ch_properties c = mi_properties (rv_item (rs ! source))
                  \<and> (\<exists>e. rv_entry (rs ! source) = Some e \<and> e \<notin> set (bk_obfuscated b)
                         \<and> ch_content c = content st e)
                  \<and> ch_media_overlay_href c =
                      (if overlay_of rs source = [] then overlay_of rs primary else overlay_of rs source)
                  \<and> ch_primary_href c =
                      (if primary \<noteq> source \<and> \<not> rv_remote (rs ! primary)
                          \<and> rv_unusable (rs ! primary) = None
                       then rv_path (rs ! primary) else [])))"

text \<open>The entries sent as resources, in archive order, and the resource for the entry \<open>e\<close>.\<close>

abbreviation may_send :: "('f, 'doc) setting \<Rightarrow> book \<Rightarrow> nat \<Rightarrow> nat \<Rightarrow> bool" where
  "may_send st b \<equiv> sendable (se_limits st) (bk_obfuscated b) (bk_resolved b) (bk_spine b)"

definition entries_to_send :: "('f, 'doc) setting \<Rightarrow> book \<Rightarrow> nat list" where
  "entries_to_send st b = sorted_list_of_set {e. \<exists>pos. may_send st b e pos}"

definition resource_tells :: "('f, 'doc) setting \<Rightarrow> book \<Rightarrow> nat \<Rightarrow> resource_msg \<Rightarrow> bool" where
  "resource_tells st b e r \<longleftrightarrow>
     (\<exists>pos. may_send st b e pos \<and> (\<forall>q<pos. \<not> may_send st b e q)
        \<and> (let target = bk_resolved b ! pos
           in rs_href r = rv_path target \<and> rs_manifest_id r = mi_id (rv_item target)
              \<and> rs_media_type r = mi_media_type (rv_item target)
              \<and> rs_properties r = mi_properties (rv_item target)
              \<and> rs_kind r = kind_number (classify (mi_media_type (rv_item target)))
              \<and> rs_media_overlay_href r = overlay_of (bk_resolved b) pos
              \<and> rs_content r = content st e))"

text \<open>How many resources come before each chapter of a run of events.\<close>

fun resources_ahead :: "nat \<Rightarrow> 'doc event list \<Rightarrow> nat list" where
  "resources_ahead n [] = []"
| "resources_ahead n (ev # evs) =
     (case ev of
        EventChapter _ \<Rightarrow> n # resources_ahead n evs
      | EventResource _ \<Rightarrow> resources_ahead (Suc n) evs
      | _ \<Rightarrow> resources_ahead n evs)"

lemma resources_ahead_append:
  "resources_ahead n (evs @ evs') =
     resources_ahead n evs @ resources_ahead (n + length (resources_of evs)) evs'"
  by (induction evs arbitrary: n) (simp_all split: event.split)

lemma length_resources_ahead: "length (resources_ahead n evs) = length (chapters_of evs)"
  by (induction evs arbitrary: n) (simp_all split: event.split)

text \<open>Events of the other stages hold neither.\<close>

lemma other_stages:
  "\<forall>ev\<in>set evs. stage ev \<noteq> 3 \<Longrightarrow>
     chapters_of evs = [] \<and> resources_of evs = [] \<and> resources_ahead n evs = []"
proof (induction evs)
  case (Cons ev evs)
  then show ?case by (cases ev) simp_all
qed simp

lemma walk_chapters:
  "chapters_of (map (walk_event st b) items) =
     map (\<lambda>x. chapter_of (bk_resolved b) x (content st (chapter_entry (bk_resolved b) (snd x))))
       (map projr (filter (\<lambda>i. \<not> isl i) items))"
  by (induction items) (auto simp: walk_event_def resource_event_def chapter_event_def split: sum.splits)

lemma walk_resources:
  "resources_of (map (walk_event st b) items) =
     map (\<lambda>(e, pos). resource_of (bk_resolved b ! pos)
         (overlay_href (bk_resolved b) (overlay_links (bk_resolved b)) pos) (content st e))
       (resources_in items)"
  by (induction items) (auto simp: walk_event_def resource_event_def chapter_event_def split: sum.splits)

lemma filter_either:
  "length (filter P xs) + length (filter Q (filter (\<lambda>x. \<not> P x) xs)) = length (filter (\<lambda>x. P x \<or> Q x) xs)"
  by (induction xs) auto

lemma first_or_later: "(\<exists>j\<le>Suc i. P j) \<longleftrightarrow> P 0 \<or> (\<exists>j\<le>i. P (Suc j))"
  by (metis Suc_le_mono le0 not0_implies_Suc)

lemma walk_ahead:
  assumes "sorted_wrt (<) (map fst ps)"
  shows "resources_ahead n (map (walk_event st b) (walk_order rs xs ps)) =
    map (\<lambda>i. n + length (filter (\<lambda>r. \<exists>j\<le>i. fst r < chapter_entry rs (snd (xs ! j))) ps)) [0..<length xs]"
  using assms
proof (induction xs arbitrary: ps n)
  case Nil
  have "resources_ahead n (map (\<lambda>r. walk_event st b (Inl r)) ps) = []" for ps :: "(nat \<times> nat) list" and n
    by (induction ps arbitrary: n) (auto simp: walk_event_def resource_event_def)
  then show ?case by (simp add: comp_def)
next
  case (Cons x xs)
  let ?P = "\<lambda>r. fst r < chapter_entry rs (snd x)"
  let ?rest = "filter (\<lambda>r. \<not> ?P r) ps"
  let ?Q = "\<lambda>i r. \<exists>j\<le>i. fst r < chapter_entry rs (snd (xs ! j))"
  have rest: "sorted_wrt (<) (map fst ?rest)"
    using Cons.prems by (simp add: sorted_wrt_map sorted_wrt_filter)
  have skip: "resources_ahead n (map (\<lambda>r. walk_event st b (Inl r)) qs @ evs) = resources_ahead (n + length qs) evs"
    for qs :: "(nat \<times> nat) list" and evs and n
    by (induction qs arbitrary: n) (auto simp: walk_event_def resource_event_def)
  have later: "(\<exists>j\<le>Suc i. fst r < chapter_entry rs (snd ((x # xs) ! j))) \<longleftrightarrow> ?P r \<or> ?Q i r"
    for i and r :: "nat \<times> nat"
    by (simp add: first_or_later)
  have "resources_ahead n (map (walk_event st b) (walk_order rs (x # xs) ps)) =
      (n + length (filter ?P ps))
      # resources_ahead (n + length (filter ?P ps)) (map (walk_event st b) (walk_order rs xs ?rest))"
    by (simp add: comp_def skip takeWhile_below [OF Cons.prems] dropWhile_below [OF Cons.prems])
      (simp add: walk_event_def chapter_event_def)
  also have "\<dots> = (n + length (filter ?P ps))
      # map (\<lambda>i. n + (length (filter ?P ps) + length (filter (?Q i) ?rest))) [0..<length xs]"
    using Cons.IH [OF rest] by (simp add: add.assoc)
  also have "\<dots> = map (\<lambda>i. n + length (filter (\<lambda>r. \<exists>j\<le>i. fst r < chapter_entry rs (snd ((x # xs) ! j))) ps))
      (0 # map Suc [0..<length xs])"
    by (simp only: filter_either list.map map_map comp_def later) simp
  finally show ?case by (simp add: upt_conv_Cons map_Suc_upt del: upt_Suc)
qed

text \<open>The script of a settled book, message by message.\<close>

lemma script_stage_le: "ev \<in> set (script st b) \<Longrightarrow> stage ev \<le> 3"
  using script_stages [where st = st and b = b] by (auto simp: script_def)

lemma pending_to_send: "map fst (pl_pending (resource_plan st b)) = entries_to_send st b"
  by (simp only: resource_plan_def entries_to_send_def pending_entries)

lemma script_parts:
  "chapters_of (script st b) =
     map (\<lambda>x. chapter_of (bk_resolved b) x (content st (chapter_entry (bk_resolved b) (snd x))))
       (enumerate 0 (bk_spine b))"
  "resources_of (script st b) =
     map (\<lambda>(e, pos). resource_of (bk_resolved b ! pos)
         (overlay_href (bk_resolved b) (overlay_links (bk_resolved b)) pos) (content st e))
       (pl_pending (resource_plan st b))"
  "resources_ahead 0 (script st b) =
     map (\<lambda>i. length (filter (\<lambda>e. \<exists>j\<le>i. e < chapter_entry (bk_resolved b) (bk_spine b ! j))
         (entries_to_send st b))) [0..<length (bk_spine b)]"
proof -
  let ?ps = "pl_pending (resource_plan st b)"
  let ?order = "walk_order (bk_resolved b) (enumerate 0 (bk_spine b)) ?ps"
  have nav: "chapters_of (navigation_events st b) = [] \<and> resources_of (navigation_events st b) = []
      \<and> resources_ahead n (navigation_events st b) = []" for n
    using script_stages(1) [of st b] by (intro other_stages) auto
  have ovl: "chapters_of (all_overlay_events st b) = [] \<and> resources_of (all_overlay_events st b) = []
      \<and> resources_ahead n (all_overlay_events st b) = []" for n
    using script_stages(3) [of st b] by (intro other_stages) auto
  show "chapters_of (script st b) =
     map (\<lambda>x. chapter_of (bk_resolved b) x (content st (chapter_entry (bk_resolved b) (snd x))))
       (enumerate 0 (bk_spine b))"
    by (simp add: script_def nav ovl walk_chapters walk_order_chapters)
  show "resources_of (script st b) =
     map (\<lambda>(e, pos). resource_of (bk_resolved b ! pos)
         (overlay_href (bk_resolved b) (overlay_links (bk_resolved b)) pos) (content st e)) ?ps"
    by (simp add: script_def nav ovl walk_resources walk_order_resources)
  have "sorted_wrt (<) (map fst ?ps)" unfolding resource_plan_def by (rule pending_members)
  note ahead = walk_ahead [OF this, of 0 st b "bk_resolved b" "enumerate 0 (bk_spine b)"]
  have "resources_ahead 0 (script st b) = resources_ahead 0 (map (walk_event st b) ?order)"
    by (simp add: script_def nav ovl resources_ahead_append)
  also have "\<dots> = map (\<lambda>i. length (filter (\<lambda>e. \<exists>j\<le>i. e < chapter_entry (bk_resolved b) (bk_spine b ! j))
      (map fst ?ps))) [0..<length (bk_spine b)]"
    unfolding ahead
    by (auto simp: filter_map comp_def nth_enumerate_eq intro!: arg_cong [of _ _ length] filter_cong)
  finally show "resources_ahead 0 (script st b) =
     map (\<lambda>i. length (filter (\<lambda>e. \<exists>j\<le>i. e < chapter_entry (bk_resolved b) (bk_spine b ! j))
         (entries_to_send st b))) [0..<length (bk_spine b)]"
    unfolding pending_to_send .
qed

lemma resource_told:
  assumes "(e, pos) \<in> set (pl_pending (resource_plan st b))"
  shows "resource_tells st b e (resource_of (bk_resolved b ! pos)
    (overlay_href (bk_resolved b) (overlay_links (bk_resolved b)) pos) (content st e))"
proof -
  have may: "may_send st b e pos" and least: "may_send st b e q \<Longrightarrow> pos \<le> q" for q
    using assms unfolding resource_plan_def by (blast dest: pending_members(3,4))+
  have "pos < length (bk_resolved b)" using may by (simp add: sendable_def)
  note overlay = overlay_href_links [OF this]
  have "\<forall>q<pos. \<not> may_send st b e q" using least by (meson leD)
  with may show ?thesis
    by (auto simp: resource_tells_def resource_of_def Let_def overlay)
qed

lemma chapter_told:
  assumes "book_ok st b" and "i < length (bk_spine b)"
  shows "chapter_tells st b i (chapter_of (bk_resolved b) (i, bk_spine b ! i)
    (content st (chapter_entry (bk_resolved b) (bk_spine b ! i))))"
proof -
  obtain primary source itemref where x: "bk_spine b ! i = (primary, source, itemref)"
    by (cases "bk_spine b ! i")
  have settled: "settled_entry (bk_obfuscated b) (bk_resolved b) (primary, source, itemref)"
    using assms x by (auto simp: book_ok_def list_all_length)
  have "pk_spine (bk_package b) ! i = (map (snd \<circ> snd) (bk_spine b)) ! i"
    using assms(1) by (simp add: book_ok_def)
  then have itemref: "pk_spine (bk_package b) ! i = itemref" using assms(2) by (simp add: x)
  have links: "overlay_href (bk_resolved b) (overlay_links (bk_resolved b)) pos = overlay_of (bk_resolved b) pos"
    if "pos \<in> {primary, source}" for pos
    using that settled by (intro overlay_href_links) (auto simp: settled_entry_def)
  show ?thesis
    using settled
    by (auto simp: chapter_tells_def settled_entry_def itemref x chapter_of_def chapter_entry_def Let_def
        chapter_overlay_href_def primary_href_def links)
qed

text \<open>What a call has sent when it ends is a part of the script, a document at most and a trailer.\<close>

lemma run_wire:
  assumes "run reader zip_new pj limits bytes m (new_sink chan projection) = (out, s)"
  shows "case fst (open_book reader zip_new pj limits bytes
           (start_call limits m (new_sink chan projection))) of
      Inl a \<Rightarrow> wire s = []
    | Inr (st, b) \<Rightarrow> book_ok st b
        \<and> (\<exists>docs t unsent. list_all is_document docs
             \<and> script st b @ docs @ [EventStatus t] = wire s @ unsent
             \<and> (out = Inr Complete \<longrightarrow> unsent = []))"
  using assms
proof (cases rule: run_cases)
  case (Refused a s1)
  then show ?thesis by simp
next
  case (Stopped st b s1 a)
  obtain rest where "script st b = wire s @ rest" using Stopped(4) by (auto elim: prefixE)
  then have "script st b @ [] @ [EventStatus t] = wire s @ (rest @ [EventStatus t])" for t by simp
  moreover have "out \<noteq> Inr Complete" using Stopped(3) by (simp add: outcome_of_def split: abort.splits)
  ultimately show ?thesis
    using Stopped(1,2) by (fastforce simp: opened_ok_def intro: exI [of _ "[]"])
next
  case (Sent st b s1 s2 r)
  have docs: "list_all is_document (document_events pj x)" for x
    by (simp add: document_events_def split: option.splits)
  have ok: "book_ok st b" and pj: "se_projection st = pj" using Sent(2) by (simp_all add: opened_ok_def)
  let ?t = "EventStatus (trailer_of (pl_skipped (resource_plan st b)) s2)"
  have "\<exists>x unsent. script st b @ document_events pj x @ [?t] = wire s @ unsent
      \<and> (out = Inr Complete \<longrightarrow> unsent = [])"
    using Sent(3)
  proof (cases rule: emit_status_cases [of st "pl_skipped (resource_plan st b)" s2])
    case (Done x s')
    then show ?thesis using Sent(3,5) by (intro exI [of _ x] exI [of _ "[]"]) (simp add: pj)
  next
    case (Lost x s')
    then obtain rest where "script st b @ document_events pj x = wire s @ rest"
      using Sent(3,5) by (auto simp: pj elim!: prefixE)
    then have "script st b @ document_events pj x @ [?t] = wire s @ rest @ [?t]" by (metis append_assoc)
    then show ?thesis using Lost(1) Sent(3,4) by (intro exI [of _ x] exI [of _ "rest @ [?t]"])
        (simp add: outcome_of_def)
  next
    case (Burst p)
    then show ?thesis using Sent(3,4,5)
      by (intro exI [of _ None] exI [of _ "[?t]"]) (simp add: outcome_of_def document_events_def)
  qed
  with docs show ?thesis using Sent(1) ok by (simp, metis)
qed

text \<open>What holds of a whole stream holds, as far as it goes, of what was sent of it.\<close>

definition in_order :: "('f, 'doc) setting \<Rightarrow> book \<Rightarrow> 'doc event list \<Rightarrow> bool" where
  "in_order st b evs \<longleftrightarrow>
     sorted (map stage evs)
     \<and> (evs = [] \<or> hd evs = EventInfo (info_of b))
     \<and> length (filter (\<lambda>ev. stage ev = 0) evs) \<le> 1 \<and> length (filter (\<lambda>ev. stage ev = 1) evs) \<le> 1
     \<and> length (chapters_of evs) \<le> length (pk_spine (bk_package b))
     \<and> list_all2 (chapter_tells st b) [0..<length (chapters_of evs)] (chapters_of evs)
     \<and> list_all2 (resource_tells st b) (take (length (resources_of evs)) (entries_to_send st b))
         (resources_of evs)
     \<and> resources_ahead 0 evs =
         map (\<lambda>i. length (filter (\<lambda>e. \<exists>j\<le>i. e < chapter_entry (bk_resolved b) (bk_spine b ! j))
             (entries_to_send st b))) [0..<length (chapters_of evs)]"

lemma in_order_part:
  assumes "in_order st b (evs @ unsent)"
  shows "in_order st b evs"
proof -
  let ?f = "\<lambda>i. length (filter (\<lambda>e. \<exists>j\<le>i. e < chapter_entry (bk_resolved b) (bk_spine b ! j))
      (entries_to_send st b))"
  let ?n = "length (chapters_of evs)" and ?k = "length (resources_of evs)"
  have "take ?n (resources_ahead 0 (evs @ unsent)) = resources_ahead 0 evs"
    by (simp add: resources_ahead_append length_resources_ahead)
  moreover have "take ?n (map ?f [0..<length (chapters_of (evs @ unsent))]) = map ?f [0..<?n]"
    by (simp add: take_map)
  ultimately have ahead: "resources_ahead 0 evs = map ?f [0..<?n]"
    using assms by (simp add: in_order_def)
  have "list_all2 (chapter_tells st b) (take ?n [0..<length (chapters_of (evs @ unsent))])
      (take ?n (chapters_of (evs @ unsent)))"
    using assms unfolding in_order_def by (blast intro: list_all2_takeI)
  then have chapters: "list_all2 (chapter_tells st b) [0..<?n] (chapters_of evs)" by simp
  have "list_all2 (resource_tells st b)
      (take ?k (take (length (resources_of (evs @ unsent))) (entries_to_send st b)))
      (take ?k (resources_of (evs @ unsent)))"
    using assms unfolding in_order_def by (blast intro: list_all2_takeI)
  then have resources: "list_all2 (resource_tells st b) (take ?k (entries_to_send st b)) (resources_of evs)"
    by (simp add: min_def)
  show ?thesis
    using assms ahead chapters resources unfolding in_order_def
    by (simp add: sorted_append) (cases evs; simp)
qed

lemma is_document_stage: "is_document ev \<Longrightarrow> stage ev = 4"
  by (cases ev) simp_all

lemma script_in_order:
  assumes "book_ok st b" and "list_all is_document docs"
  shows "in_order st b (script st b @ docs @ [EventStatus t])
    \<and> length (chapters_of (script st b @ docs @ [EventStatus t])) = length (pk_spine (bk_package b))
    \<and> length (resources_of (script st b @ docs @ [EventStatus t])) = length (entries_to_send st b)"
proof -
  let ?evs = "docs @ [EventStatus t]"
  have docs: "\<forall>ev\<in>set docs. stage ev = 4"
    using assms(2) by (simp add: list_all_iff is_document_stage)
  then have tail: "chapters_of docs = [] \<and> resources_of docs = [] \<and> resources_ahead n docs = []" for n
    by (intro other_stages) auto
  have spine: "length (pk_spine (bk_package b)) = length (bk_spine b)"
    using assms(1) by (metis book_ok_def length_map)
  have "sorted (map stage (script st b @ ?evs))"
    using script_sorted [of st b] sorted_constant [OF docs] docs
    by (auto simp: sorted_append dest!: script_stage_le)
  moreover have "filter (\<lambda>ev. stage ev = k) ?evs = []" if "k < 4" for k
    using docs that by (auto simp: filter_empty_conv)
  then have "filter (\<lambda>ev. stage ev = 0) ?evs = []" "filter (\<lambda>ev. stage ev = 1) ?evs = []" by simp_all
  moreover have "script st b \<noteq> []" by (simp add: script_def)
  moreover have "list_all2 (chapter_tells st b) [0..<length (bk_spine b)] (chapters_of (script st b))"
    by (auto simp: list_all2_conv_all_nth script_parts(1) nth_enumerate_eq intro: chapter_told [OF assms(1)])
  moreover have "list_all2 (resource_tells st b) (entries_to_send st b) (resources_of (script st b))"
    by (auto simp: script_parts(2) pending_to_send [symmetric] list_all2_conv_all_nth split: prod.split
        intro!: resource_told) (metis nth_mem prod.collapse fst_conv)
  moreover have "length (entries_to_send st b) = length (pl_pending (resource_plan st b))"
    by (simp flip: pending_to_send)
  ultimately show ?thesis
    using script_info [of st b] script_navigations [of st b]
    by (simp add: in_order_def tail spine script_parts resources_ahead_append)
qed

text \<open>
  Property C5.  What a client receives, however its call ends.  Nothing, when the book cannot be
  opened.  Otherwise the events go in stages: the opening event first and only once, at most one
  navigation event, the overlays, the chapters and resources, the document, the trailer.  The
  chapters are the first spine items in spine order, numbered from zero, each with the id and
  linearity of its itemref, the path, media type, properties and inflated bytes of the item its
  fallbacks lead to, its overlay and its primary path; the resources are the first of the entries
  that may be sent, in archive order, each told under the first manifest item that names it; and
  before each chapter have come exactly the resources stored before it or an earlier chapter.
  A complete call has sent every spine item and every such entry.
\<close>

theorem sent_in_order:
  "case run reader zip_new pj limits bytes m (new_sink chan projection) of (out, s) \<Rightarrow>
    (case fst (open_book reader zip_new pj limits bytes
                 (start_call limits m (new_sink chan projection))) of
       Inl a \<Rightarrow> wire s = []
     | Inr (st, b) \<Rightarrow>
         in_order st b (wire s)
         \<and> (case out of
              Inr Complete \<Rightarrow>
                length (chapters_of (wire s)) = length (pk_spine (bk_package b))
                \<and> length (resources_of (wire s)) = length (entries_to_send st b)
            | _ \<Rightarrow> True))"
proof -
  obtain out s where run: "run reader zip_new pj limits bytes m (new_sink chan projection) = (out, s)"
    by (cases "run reader zip_new pj limits bytes m (new_sink chan projection)")
  let ?open = "fst (open_book reader zip_new pj limits bytes
    (start_call limits m (new_sink chan projection)))"
  show ?thesis
  proof (cases ?open)
    case (Inl a)
    then show ?thesis using run_wire [OF run] by (simp add: run)
  next
    case (Inr x)
    obtain st b where x: "x = (st, b)" by (cases x)
    obtain docs t unsent where ok: "book_ok st b" and docs: "list_all is_document docs"
      and wire: "script st b @ docs @ [EventStatus t] = wire s @ unsent"
      and all: "out = Inr Complete \<Longrightarrow> unsent = []"
      using run_wire [OF run] Inr x by auto
    note whole = script_in_order [OF ok docs, of t, unfolded wire]
    have "in_order st b (wire s)" using whole in_order_part by blast
    moreover have "length (chapters_of (wire s)) = length (pk_spine (bk_package b))
        \<and> length (resources_of (wire s)) = length (entries_to_send st b)" if "out = Inr Complete"
      using whole all [OF that] by simp
    ultimately show ?thesis by (simp add: run Inr x split: sum.split outcome.split)
  qed
qed

section \<open>Calls that panic\<close>

context raising_at_info
begin

text \<open>With such a fold, a call that panics has sent nothing, and the book it opened is to blame.\<close>

lemma panic_sends_nothing:
  assumes "run reader zip_new pj limits bytes m (new_sink chan projection) = (Inl p, s)"
  shows "wire s = [] \<and> (\<exists>st b. fst (open_book reader zip_new pj limits bytes
      (start_call limits m (new_sink chan projection))) = Inr (st, b) \<and> bad (info_of b))"
proof -
  have only_first: "sent = [] \<and> bad (info_of b)"
    if raised: "raises pj sent ev x p" and sent: "prefix (sent @ [ev]) (script st b)"
    for sent ev x and st :: "('f, 'doc) setting" and b
  proof -
    from raised obtain f where "feed pj [ev] f = Inl p"
      unfolding raises_def using feeds_Inl by blast
    then obtain info where ev: "ev = EventInfo info" "bad info" using fed_at_info by blast
    obtain rest where script: "script st b = sent @ ev # rest" using sent by (auto elim: prefixE)
    have "sent = []"
    proof (rule ccontr)
      assume "sent \<noteq> []"
      then obtain sent' where sent: "sent = EventInfo (info_of b) # sent'"
        using script_info(1) [of st b] script by (cases sent) auto
      show False using script_info(2) [of st b] by (simp add: script sent ev(1))
    qed
    then show ?thesis using script_info(1) [of st b] script ev by simp
  qed
  from assms show ?thesis
  proof (cases rule: run_cases)
    case (Refused a s1)
    then show ?thesis by (auto simp: outcome_of_def split: abort.splits)
  next
    case (Stopped st b s1 a)
    have "a = Raised p" using Stopped(3) by (simp add: outcome_of_def split: abort.splits)
    from Stopped(7) [OF this] Stopped(1) only_first show ?thesis by fastforce
  next
    case (Sent st b s1 s2 r)
    have pj: "se_projection st = pj" using Sent(2) by (simp add: opened_ok_def)
    from Sent(3) show ?thesis
    proof (cases rule: emit_status_cases [of st "pl_skipped (resource_plan st b)" s2])
      case (Burst q)
      then have "\<exists>f. feed pj [EventStatus (trailer_of (pl_skipped (resource_plan st b)) s2)] f = Inl q"
        using feeds_Inl unfolding pj by blast
      then show ?thesis using fed_at_info by blast
    qed (use Sent(3,4) in \<open>auto simp: outcome_of_def\<close>)
  qed
qed

end

end
