(* ===== verification/Counters.thy ===== *)
theory Counters imports Driver begin

text \<open>
  What a parse does to the process counters of \<open>src/metrics.rs\<close>, over the operations of
  \<open>src/extract.rs\<close>: every chapter and every resource that is sent is counted once, right after it is
  sent, and the counters of uploads and of parses are left alone.
\<close>

section \<open>The counters and the wire\<close>

definition chapters_in :: "'doc event list \<Rightarrow> nat" where
  "chapters_in evs = length (filter is_chapter evs)"

definition resources_in_wire :: "'doc event list \<Rightarrow> nat" where
  "resources_in_wire evs = length (filter is_resource evs)"

definition tallied :: "metrics \<Rightarrow> ('f, 'doc) call_state \<Rightarrow> bool" where
  "tallied m s \<longleftrightarrow>
     chapters_emitted (cs_metrics s) = chapters_emitted m + of_nat (chapters_in (wire s))
     \<and> resources_emitted (cs_metrics s) = resources_emitted m + of_nat (resources_in_wire (wire s))
     \<and> parses_started (cs_metrics s) = parses_started m
     \<and> parses_succeeded (cs_metrics s) = parses_succeeded m
     \<and> parses_failed (cs_metrics s) = parses_failed m
     \<and> bytes_uploaded (cs_metrics s) = bytes_uploaded m"

text \<open>An operation tallies when it keeps the counters in step with the wire, however it ends.\<close>

definition tallies :: "('f, 'doc, 'a) call \<Rightarrow> bool" where
  "tallies c \<longleftrightarrow> (\<forall>m s r s'. c s = (r, s') \<longrightarrow> tallied m s \<longrightarrow> tallied m s')"

named_theorems tallying

lemma tallies_ret [tallying]: "tallies (ret x)"
  by (simp add: tallies_def ret_def)

lemma tallies_checked [tallying]: "tallies (checked r)"
  by (simp add: tallies_def checked_def split: sum.splits)

lemma tallies_seq [tallying]: "tallies c \<Longrightarrow> (\<And>x. tallies (f x)) \<Longrightarrow> tallies (seq c f)"
  unfolding tallies_def seq_def by (fastforce split: prod.splits sum.splits)

lemma tallies_modify:
  "(\<And>s. cs_metrics (f s) = cs_metrics s \<and> wire (f s) = wire s) \<Longrightarrow> tallies (modify f)"
  by (simp add: tallies_def modify_def tallied_def)

lemma tallies_each [tallying]: "(\<And>x. tallies (f x)) \<Longrightarrow> tallies (each f xs)"
  by (induction xs) (simp_all add: tallies_ret tallies_seq)

lemma tallies_send [tallying]: "\<not> is_chapter ev \<Longrightarrow> \<not> is_resource ev \<Longrightarrow> tallies (send ev)"
  by (auto simp: tallies_def send_eq deliver_def tallied_def chapters_in_def resources_in_wire_def
      split: if_splits)


lemma tallied_set_fold [simp]: "tallied m (set_fold f s) = tallied m s"
  by (simp add: tallied_def set_fold_def)

text \<open>The fold's state is no part of the tally.\<close>

lemma tallies_folded: "tallies c \<Longrightarrow> c (set_fold f s) = (r, s') \<Longrightarrow> tallied m s \<Longrightarrow> tallied m s'"
  unfolding tallies_def by (metis tallied_set_fold)

lemma tallies_emit [tallying]:
  assumes "\<not> is_chapter ev" "\<not> is_resource ev"
  shows "tallies (emit st ev)"
proof -
  note one = tallies_send [OF assms]
  have both: "tallies (seq (send (EventDocument doc)) (\<lambda>_. send ev))" for doc
    by (intro tallies_seq tallies_send) (simp_all add: assms)
  have "tallied m s'" if run: "emit st ev s = (r, s')" and start: "tallied m s" for m s r s'
  proof (cases "fold_of s")
    case None
    then show ?thesis using run start one by (auto simp: emit_def tallies_def)
  next
    case (Some f)
    then show ?thesis
      using run start tallies_folded [OF one] tallies_folded [OF both]
      by (auto simp: emit_def split: sum.splits event.splits prod.splits)
  qed
  then show ?thesis unfolding tallies_def by blast
qed

text \<open>Sending a chapter or a resource and counting it.\<close>

definition counter_of :: "'doc event \<Rightarrow> metrics \<Rightarrow> metrics" where
  "counter_of ev = (if is_chapter ev then chapter_emitted else resource_emitted)"

lemma tallies_counted:
  assumes "is_chapter ev \<or> is_resource ev"
    and "\<And>s. cs_metrics (f s) = cs_metrics s \<and> wire (f s) = wire s"
  shows "tallies (seq (emit st ev) (\<lambda>_. seq (count (counter_of ev)) (\<lambda>_. modify f)))"
proof -
  have plain: "\<not> is_trailer ev" using assms(1) by (cases ev) (simp_all add: is_trailer_def)
  have one: "is_chapter ev \<and> \<not> is_resource ev \<or> \<not> is_chapter ev \<and> is_resource ev"
    using assms(1) by (cases ev) simp_all
  show ?thesis
    unfolding tallies_def
  proof (intro allI impI)
    fix m s r s'
    assume run: "seq (emit st ev) (\<lambda>_. seq (count (counter_of ev)) (\<lambda>_. modify f)) s = (r, s')"
      and start: "tallied m s"
    obtain r1 s1 where emit: "emit st ev s = (r1, s1)" by (cases "emit st ev s")
    have sent: "cs_metrics s1 = cs_metrics s \<and> wire s1 = wire s @ (if isl r1 then [] else [ev])"
      using emit unfolding emit_plain [OF plain]
      by (auto simp: send_eq deliver_def set_fold_def split: option.splits sum.splits if_splits)
    show "tallied m s'"
      using run start one sent assms(2)
      by (cases r1)
        (auto simp: seq_def emit count_def modify_def tallied_def counter_of_def chapters_in_def
          resources_in_wire_def chapter_emitted_def resource_emitted_def)
  qed
qed

section \<open>Every operation tallies\<close>

lemma tallies_warn [tallying]: "tallies (warn code href msg)"
  unfolding warn_def by (rule tallies_modify) simp

lemma tallies_read_archive [tallying]: "tallies (read_archive st entry)"
  by (auto simp: tallies_def read_archive_def tallied_def split: sum.splits)

lemma tallies_inflated [tallying]: "tallies (count (inflated n))"
  by (simp add: tallies_def count_def modify_def tallied_def inflated_def)

lemma tallies_take [tallying]: "tallies (preread_take e)"
  by (simp add: tallies_def preread_take_def tallied_def)

lemma tallies_keep [tallying]: "tallies (preread_keep e bytes)"
  unfolding preread_keep_def by (rule tallies_modify) simp

lemma tallies_read_at [tallying]: "tallies (read_at st e)"
  unfolding read_at_def by (intro tallying)

lemma tallies_case_option [tallying]:
  "tallies c \<Longrightarrow> (\<And>x. tallies (f x)) \<Longrightarrow> tallies (case y of None \<Rightarrow> c | Some x \<Rightarrow> f x)"
  by (cases y) simp_all

lemma tallies_if [tallying]: "tallies c \<Longrightarrow> tallies d \<Longrightarrow> tallies (if b then c else d)"
  by simp

lemma tallies_case_prod [tallying]: "(\<And>x y. tallies (f x y)) \<Longrightarrow> tallies (case p of (x, y) \<Rightarrow> f x y)"
  by (cases p) simp

lemma tallies_read_named [tallying]: "tallies (read_named st index name)"
  unfolding read_named_def by (intro tallying)

lemma tallies_preread_read [tallying]: "tallies (preread_read st e)"
  unfolding preread_read_def by (intro tallying)

lemma tallies_entry_content [tallying]: "tallies (entry_content st e)"
  unfolding entry_content_def by (intro tallying)

lemma tallies_read_book [tallying]: "tallies (read_book st index)"
  unfolding read_book_def read_encryption_def find_container_def warn_mimetype_def read_package_def Let_def
  by (intro tallying)

lemma tallies_navigation [tallying]: "tallies (send_navigation st b wanted)"
  unfolding send_navigation_def Let_def by (intro tallying) simp_all

lemma tallies_overlays [tallying]: "tallies (send_overlays st b wanted)"
  unfolding send_overlays_def send_overlay_def Let_def by (intro tallying) simp_all

lemma tallies_resource [tallying]: "tallies (emit_resource st b r)"
proof -
  have counter: "counter_of (EventResource c) = resource_emitted" for c by (simp add: counter_of_def)
  show ?thesis
    unfolding emit_resource_def
    by (intro tallies_case_prod tallies_seq [OF tallies_entry_content])
      (rule tallies_counted [of "EventResource c" for c, unfolded counter]; simp)
qed

lemma tallies_chapter [tallying]: "tallies (emit_chapter st b entry)"
proof -
  have counter: "counter_of (EventChapter c) = chapter_emitted" for c by (simp add: counter_of_def)
  show ?thesis
    unfolding emit_chapter_def
    by (intro tallies_seq [OF tallies_entry_content])
      (rule tallies_counted [of "EventChapter c" for c, unfolded counter]; simp)
qed

lemma tallies_drain [tallying]: "tallies (drain st b limit pending)"
  by (induction st b limit pending rule: drain.induct) (simp_all add: tallies_ret tallies_seq tallies_resource)

lemma tallies_walk [tallying]: "tallies (walk_spine st b entries pending)"
  by (induction st b entries pending rule: walk_spine.induct)
    (simp_all add: tallies_ret tallies_seq tallies_drain tallies_chapter)

lemma tallies_status [tallying]: "tallies (emit_status st skipped)"
  using tallies_emit [of "EventStatus (trailer_of skipped s)" st for s]
  by (fastforce simp: tallies_def emit_status_def)

lemma tallies_plan [tallying]: "tallies (make_plan st b)"
  by (auto simp: tallies_def make_plan_def Let_def tallied_def)

lemma tallies_book [tallying]: "tallies (send_book st b)"
  unfolding send_book_def Let_def by (intro tallying) simp_all

lemma tallies_open [tallying]: "tallies (open_book reader zip_new pj limits bytes)"
proof -
  have "tallies (modify (set_source_hash pj hash))" for hash
    by (rule tallies_modify) (simp add: set_source_hash_def set_fold_def split: option.splits)
  then show ?thesis
    unfolding open_book_def Let_def warn_unusable_def by (intro tallying)
qed

lemma tallies_parse: "tallies (parse reader zip_new pj limits bytes)"
  unfolding parse_def by (intro tallying)

lemma run_tallies:
  assumes "run reader zip_new pj limits bytes m (new_sink chan projection) = (out, s)"
  shows "tallied m s"
proof -
  obtain r where "parse reader zip_new pj limits bytes (start_call limits m (new_sink chan projection)) = (r, s)"
    using assms by (auto simp: run_def split: prod.splits)
  moreover have "tallied m (start_call limits m (new_sink chan projection))"
    by (simp add: tallied_def start_call_def new_sink_def chapters_in_def resources_in_wire_def)
  ultimately show ?thesis using tallies_parse unfolding tallies_def by blast
qed

section \<open>Properties\<close>

text \<open>
  Property C40.  The process counters tell the wire: at whatever point a parse ends, complete,
  abandoned, failed or panicking, it has counted exactly the chapters and the resources it sent, and
  has touched neither the counters of uploads nor those of parses.
\<close>

theorem counters_tell_the_wire:
  "case run reader zip_new pj limits bytes m (new_sink chan projection) of (out, s) \<Rightarrow>
     chapters_emitted (cs_metrics s) = chapters_emitted m + of_nat (length (filter is_chapter (wire s)))
     \<and> resources_emitted (cs_metrics s)
         = resources_emitted m + of_nat (length (filter is_resource (wire s)))
     \<and> parses_started (cs_metrics s) = parses_started m
     \<and> parses_succeeded (cs_metrics s) = parses_succeeded m
     \<and> parses_failed (cs_metrics s) = parses_failed m
     \<and> bytes_uploaded (cs_metrics s) = bytes_uploaded m"
  using run_tallies [of reader zip_new pj limits bytes m chan projection]
  by (auto simp: tallied_def chapters_in_def resources_in_wire_def split: prod.splits)

end
