(* ===== verification/DocCommon.thy ===== *)
theory DocCommon imports Messages Datetime begin

text \<open>
  \<open>src/gen/ai/pipestream/document/v1/\<close>, the messages that both the items of a document and what is
  said about it use: spans, provenance, attribution, metadata fields, tables.

  A message is a record with its fields in order, each under the message's name; a \<open>oneof\<close> is a
  datatype.  An \<open>i32\<close> is \<open>int\<close>, an enumeration field the number of its variant, a map a partial
  function.  \<open>pb_value\<close> is \<open>google.protobuf.Value\<close>, its map of fields a partial function.  No value
  of an \<open>f32\<close> field is computed here: it is the \<open>f64\<close> of the same value.
\<close>

datatype pb_value = Value "pb_kind option"
and pb_kind =
    NullValue int
  | NumberValue f64
  | StringValue string
  | BoolValue bool
  | StructValue "string \<Rightarrow> pb_value option"
  | ListValue "pb_value list"

type_synonym pb_struct = "string \<Rightarrow> pb_value option"
type_synonym f32 = f64

record collector_source =
  collector_source_collector :: string
  collector_source_model :: "string option"
  collector_source_version :: "string option"
  collector_source_confidence :: "f64 option"
  collector_source_raw_score :: "f64 option"
  collector_source_raw_score_kind :: "string option"
  collector_source_raw_score_samples :: "u64 option"

record field_source =
  field_source_field :: string
  field_source_source :: "collector_source option"

record ref_item =
  ref_item_ref :: string

record summary_meta_field =
  summary_meta_field_confidence :: "f64 option"
  summary_meta_field_created_by :: "string option"
  summary_meta_field_text :: string
  summary_meta_field_custom_fields :: "(string \<Rightarrow> pb_value option)"

record language_meta_field =
  language_meta_field_confidence :: "f64 option"
  language_meta_field_created_by :: "string option"
  language_meta_field_code :: int
  language_meta_field_code_raw :: "string option"
  language_meta_field_custom_fields :: "(string \<Rightarrow> pb_value option)"

record int_span =
  int_span_start :: int
  int_span_end :: int

record entity_mention =
  entity_mention_confidence :: "f64 option"
  entity_mention_created_by :: "string option"
  entity_mention_text :: string
  entity_mention_orig :: "string option"
  entity_mention_label :: "string option"
  entity_mention_charspan :: "int_span option"
  entity_mention_custom_fields :: "(string \<Rightarrow> pb_value option)"

record entities_meta_field =
  entities_meta_field_mentions :: "entity_mention list"
  entities_meta_field_custom_fields :: "(string \<Rightarrow> pb_value option)"

record keywords_meta_field =
  keywords_meta_field_values :: "string list"
  keywords_meta_field_custom_fields :: "(string \<Rightarrow> pb_value option)"

record topics_meta_field =
  topics_meta_field_values :: "string list"
  topics_meta_field_custom_fields :: "(string \<Rightarrow> pb_value option)"

record doc_hypothesis =
  doc_hypothesis_text :: string
  doc_hypothesis_raw_score :: "f64 option"
  doc_hypothesis_raw_score_kind :: "string option"
  doc_hypothesis_range :: "int_span option"

record alternatives_meta_field =
  alternatives_meta_field_hypotheses :: "doc_hypothesis list"
  alternatives_meta_field_created_by :: "string option"

record base_meta =
  base_meta_summary :: "summary_meta_field option"
  base_meta_language :: "language_meta_field option"
  base_meta_entities :: "entities_meta_field option"
  base_meta_keywords :: "keywords_meta_field option"
  base_meta_topics :: "topics_meta_field option"
  base_meta_alternatives :: "alternatives_meta_field option"
  base_meta_custom_fields :: "(string \<Rightarrow> pb_value option)"

record grid_cell =
  grid_cell_row :: int
  grid_cell_col :: int
  grid_cell_sheet :: "string option"

record grid_span =
  grid_span_start :: "grid_cell option"
  grid_span_end :: "grid_cell option"

record civil_date_time =
  civil_date_time_year :: int
  civil_date_time_month :: int
  civil_date_time_day :: int
  civil_date_time_hour :: "int option"
  civil_date_time_minute :: "int option"
  civil_date_time_second :: "int option"
  civil_date_time_nanos :: "int option"
  civil_date_time_utc_offset_minutes :: "int option"

record doc_size =
  doc_size_width :: f64
  doc_size_height :: f64

record fine_ref =
  fine_ref_ref :: string
  fine_ref_range :: "int_span option"

record track_source =
  track_source_start_time :: f64
  track_source_end_time :: f64
  track_source_identifier :: "string option"
  track_source_voice :: "string option"

record generation_source =
  generation_source_model :: string
  generation_source_endpoint :: "string option"
  generation_source_finish_reason :: "string option"
  generation_source_prompt_tokens :: "u64 option"
  generation_source_completion_tokens :: "u64 option"
  generation_source_temperature :: "f64 option"
  generation_source_truncation :: "int option"
  generation_source_stop_reason :: int

datatype source_type_source =
    SourceTypeTrack track_source
  | SourceTypeCollector collector_source
  | SourceTypeGeneration generation_source

record source_type =
  source_type_source :: "source_type_source option"

record doc_formatting =
  doc_formatting_bold :: bool
  doc_formatting_italic :: bool
  doc_formatting_underline :: bool
  doc_formatting_strikethrough :: bool
  doc_formatting_script :: int
  doc_formatting_script_raw :: "string option"
  doc_formatting_monospace :: bool
  doc_formatting_small_caps :: bool
  doc_formatting_math :: bool
  doc_formatting_mark :: bool
  doc_formatting_small :: bool
  doc_formatting_insertion :: bool
  doc_formatting_abbreviation :: bool
  doc_formatting_quote :: bool
  doc_formatting_overline :: bool

record byte_span =
  byte_span_start :: u64
  byte_span_end :: u64

record line_span =
  line_span_start :: u32
  line_span_end :: u32

record bounding_box =
  bounding_box_l :: f64
  bounding_box_t :: f64
  bounding_box_r :: f64
  bounding_box_b :: f64
  bounding_box_coord_origin :: "int option"
  bounding_box_coord_origin_raw :: "string option"

record time_span =
  time_span_start_ms :: f64
  time_span_end_ms :: f64
  time_span_track :: "int option"
  time_span_speaker :: "string option"

record doc_point =
  doc_point_x :: f64
  doc_point_y :: f64

record provenance_item =
  provenance_item_page_no :: int
  provenance_item_bbox :: "bounding_box option"
  provenance_item_charspan :: "int_span option"
  provenance_item_time :: "time_span option"
  provenance_item_byte_range :: "byte_span option"
  provenance_item_grid :: "grid_cell option"
  provenance_item_polygon :: "doc_point list"
  provenance_item_line_range :: "line_span option"

record inline_span =
  inline_span_range :: "int_span option"
  inline_span_formatting :: "doc_formatting option"
  inline_span_hyperlink :: "string option"
  inline_span_target :: "fine_ref option"
  inline_span_font_family :: "string option"
  inline_span_font_size_pt :: "f64 option"
  inline_span_color :: "string option"
  inline_span_language :: "string option"
  inline_span_field_code :: "string option"
  inline_span_reference_kind :: "int option"
  inline_span_reference :: "string option"
  inline_span_link_title :: "string option"
  inline_span_raw :: "string option"
  inline_span_style_name :: "string option"
  inline_span_highlight_color :: "string option"
  inline_span_annotation :: "string option"

record shape_meta =
  shape_meta_shape_type :: "string option"
  shape_meta_name :: "string option"
  shape_meta_chain_next :: "string option"
  shape_meta_chain_prev :: "string option"
  shape_meta_z_order :: "int option"
  shape_meta_rotation_degrees :: "f64 option"

record image_ref =
  image_ref_mimetype :: string
  image_ref_dpi :: int
  image_ref_size :: "doc_size option"
  image_ref_uri :: string
  image_ref_size_raw :: "string option"

record description_meta_field =
  description_meta_field_confidence :: "f64 option"
  description_meta_field_created_by :: "string option"
  description_meta_field_text :: string
  description_meta_field_custom_fields :: "(string \<Rightarrow> pb_value option)"

record floating_meta =
  floating_meta_summary :: "summary_meta_field option"
  floating_meta_description :: "description_meta_field option"
  floating_meta_language :: "language_meta_field option"
  floating_meta_entities :: "entities_meta_field option"
  floating_meta_keywords :: "keywords_meta_field option"
  floating_meta_topics :: "topics_meta_field option"
  floating_meta_alternatives :: "alternatives_meta_field option"
  floating_meta_custom_fields :: "(string \<Rightarrow> pb_value option)"

record description_annotation =
  description_annotation_kind :: string
  description_annotation_text :: string
  description_annotation_provenance :: string

record misc_annotation =
  misc_annotation_kind :: string
  misc_annotation_content :: "pb_struct option"

record declared_sheet_table =
  declared_sheet_table_name :: string
  declared_sheet_table_range :: "grid_span option"
  declared_sheet_table_header_row_count :: u32
  declared_sheet_table_totals_row_count :: u32
  declared_sheet_table_columns :: "string list"

datatype cell_value_kind =
    CellValueNumber f64
  | CellValueBoolean bool
  | CellValueDatetime civil_date_time
  | CellValueFormula string
  | CellValueError string

record cell_value =
  cell_value_number_format :: "string option"
  cell_value_formula_source :: "string option"
  cell_value_style_id :: "u32 option"
  cell_value_number_format_id :: "u32 option"
  cell_value_kind :: "cell_value_kind option"

record table_cell =
  table_cell_bbox :: "bounding_box option"
  table_cell_row_span :: int
  table_cell_col_span :: int
  table_cell_start_row_offset_idx :: int
  table_cell_end_row_offset_idx :: int
  table_cell_start_col_offset_idx :: int
  table_cell_end_col_offset_idx :: int
  table_cell_text :: string
  table_cell_column_header :: bool
  table_cell_row_header :: bool
  table_cell_row_section :: bool
  table_cell_fillable :: bool
  table_cell_ref :: "ref_item option"
  table_cell_value :: "cell_value option"
  table_cell_spans :: "inline_span list"
  table_cell_align :: "int option"
  table_cell_valign :: "int option"

record table_row =
  table_row_cells :: "table_cell list"

record value_range =
  value_range_low :: string
  value_range_high :: "string option"

record value_condition =
  value_condition_name :: string
  value_condition_values :: "value_range list"

record table_column_schema =
  table_column_schema_name :: "string option"
  table_column_schema_declared_type :: "string option"
  table_column_schema_picture :: "string option"
  table_column_schema_byte_offset :: "u64 option"
  table_column_schema_byte_size :: "u64 option"
  table_column_schema_level :: "int option"
  table_column_schema_occurs_index :: "int option"
  table_column_schema_width :: "f64 option"
  table_column_schema_width_raw :: "string option"
  table_column_schema_align :: "int option"
  table_column_schema_valign :: "int option"
  table_column_schema_conditions :: "value_condition list"

record record_layout_meta =
  record_layout_meta_encoding :: "string option"
  record_layout_meta_record_length :: "u64 option"
  record_layout_meta_header_bytes :: "u64 option"
  record_layout_meta_footer_bytes :: "u64 option"
  record_layout_meta_prefix_bytes :: "u64 option"
  record_layout_meta_rows_truncated :: "u64 option"

record table_data =
  table_data_table_cells :: "table_cell list"
  table_data_num_rows :: int
  table_data_num_cols :: int
  table_data_grid :: "table_row list"
  table_data_orientation :: int
  table_data_orientation_raw :: "string option"
  table_data_columns :: "table_column_schema list"
  table_data_row_prov :: "provenance_item list"
  table_data_record_layout :: "record_layout_meta option"
  table_data_declared_tables :: "declared_sheet_table list"

end
