(* ===== verification/DocItems.thy ===== *)
theory DocItems imports DocCommon begin

text \<open>
  \<open>src/gen/ai/pipestream/document/v1/\<close>, the groups and texts of a document.
\<close>

record sheet_meta =
  sheet_meta_index :: "int option"
  sheet_meta_visible :: bool
  sheet_meta_tab_color :: "string option"
  sheet_meta_print_areas :: "grid_span list"

record group_item =
  group_item_self_ref :: string
  group_item_parent :: "ref_item option"
  group_item_children :: "ref_item list"
  group_item_content_layer :: int
  group_item_meta :: "base_meta option"
  group_item_name :: "string option"
  group_item_label :: int
  group_item_label_raw :: "string option"
  group_item_sheet :: "sheet_meta option"

record source_attribute =
  source_attribute_name :: string
  source_attribute_name_raw :: string
  source_attribute_value :: "string option"
  source_attribute_name_span :: "byte_span option"
  source_attribute_value_span :: "byte_span option"
  source_attribute_value_present :: "bool option"

record comment_meta =
  comment_meta_author :: "string option"
  comment_meta_initials :: "string option"
  comment_meta_timestamp :: "timestamp option"
  comment_meta_timestamp_raw :: "string option"
  comment_meta_resolved :: bool
  comment_meta_parent :: "fine_ref option"
  comment_meta_anchored_text :: "string option"
  comment_meta_shown :: bool

record footnote_meta =
  footnote_meta_label :: "string option"
  footnote_meta_endnote :: bool
  footnote_meta_mark :: "fine_ref option"

record index_meta =
  index_meta_service :: "string option"
  index_meta_title :: "string option"

record text_item_base =
  text_item_base_self_ref :: string
  text_item_base_parent :: "ref_item option"
  text_item_base_children :: "ref_item list"
  text_item_base_content_layer :: int
  text_item_base_meta :: "base_meta option"
  text_item_base_label :: int
  text_item_base_prov :: "provenance_item list"
  text_item_base_orig :: string
  text_item_base_text :: string
  text_item_base_formatting :: "doc_formatting option"
  text_item_base_hyperlink :: "string option"
  text_item_base_source :: "source_type list"
  text_item_base_comments :: "fine_ref list"
  text_item_base_spans :: "inline_span list"
  text_item_base_admonition_kind :: "string option"
  text_item_base_label_raw :: "string option"
  text_item_base_style_name :: "string option"
  text_item_base_comment_meta :: "comment_meta option"
  text_item_base_shape :: "shape_meta option"
  text_item_base_footnote_meta :: "footnote_meta option"
  text_item_base_index_meta :: "index_meta option"
  text_item_base_raw :: "string option"
  text_item_base_source_element_name :: "string option"
  text_item_base_source_namespace :: "string option"
  text_item_base_field_sources :: "field_source list"
  text_item_base_source_attributes :: "source_attribute list"

record title_item =
  title_item_base :: "text_item_base option"

record section_header_item =
  section_header_item_base :: "text_item_base option"
  section_header_item_level :: int

record field_heading_item =
  field_heading_item_base :: "text_item_base option"
  field_heading_item_level :: int

record field_value_item =
  field_value_item_base :: "text_item_base option"
  field_value_item_kind :: string

record list_item_msg =
  list_item_msg_base :: "text_item_base option"
  list_item_msg_enumerated :: bool
  list_item_msg_marker :: "string option"

record code_item =
  code_item_self_ref :: string
  code_item_parent :: "ref_item option"
  code_item_children :: "ref_item list"
  code_item_content_layer :: int
  code_item_meta :: "floating_meta option"
  code_item_label :: int
  code_item_prov :: "provenance_item list"
  code_item_orig :: string
  code_item_text :: string
  code_item_formatting :: "doc_formatting option"
  code_item_hyperlink :: "string option"
  code_item_source :: "source_type list"
  code_item_comments :: "fine_ref list"
  code_item_captions :: "ref_item list"
  code_item_references :: "ref_item list"
  code_item_footnotes :: "ref_item list"
  code_item_image :: "image_ref option"
  code_item_code_language :: "int option"
  code_item_code_language_raw :: "string option"
  code_item_label_raw :: "string option"
  code_item_source_element_name :: "string option"
  code_item_source_namespace :: "string option"

record formula_item =
  formula_item_base :: "text_item_base option"

record text_item =
  text_item_base :: "text_item_base option"

datatype base_text_item_item =
    BaseTextItemTitle title_item
  | BaseTextItemSectionHeader section_header_item
  | BaseTextItemListItem list_item_msg
  | BaseTextItemCode code_item
  | BaseTextItemFormula formula_item
  | BaseTextItemText text_item
  | BaseTextItemFieldHeading field_heading_item
  | BaseTextItemFieldValue field_value_item

record base_text_item =
  base_text_item_item :: "base_text_item_item option"

end
