(* ===== verification/DocPictures.thy ===== *)
theory DocPictures imports DocCommon begin

text \<open>
  \<open>src/gen/ai/pipestream/document/v1/\<close>, the pictures of a document, with what is read off them.
\<close>

record picture_classification_class =
  picture_classification_class_class_name :: string
  picture_classification_class_confidence :: "f64 option"

record picture_classification_data =
  picture_classification_data_kind :: string
  picture_classification_data_provenance :: string
  picture_classification_data_predicted_classes :: "picture_classification_class list"

record float_pair =
  float_pair_first :: f64
  float_pair_second :: f64

record picture_molecule_data =
  picture_molecule_data_kind :: string
  picture_molecule_data_smi :: string
  picture_molecule_data_confidence :: f64
  picture_molecule_data_class_name :: string
  picture_molecule_data_segmentation :: "float_pair list"
  picture_molecule_data_provenance :: string

record picture_tabular_chart_data =
  picture_tabular_chart_data_kind :: string
  picture_tabular_chart_data_title :: string
  picture_tabular_chart_data_chart_data :: "table_data option"

record chart_line =
  chart_line_label :: string
  chart_line_values :: "float_pair list"

record picture_line_chart_data =
  picture_line_chart_data_kind :: string
  picture_line_chart_data_title :: string
  picture_line_chart_data_x_axis_label :: string
  picture_line_chart_data_y_axis_label :: string
  picture_line_chart_data_lines :: "chart_line list"

record chart_bar =
  chart_bar_label :: string
  chart_bar_values :: f64

record picture_bar_chart_data =
  picture_bar_chart_data_kind :: string
  picture_bar_chart_data_title :: string
  picture_bar_chart_data_x_axis_label :: string
  picture_bar_chart_data_y_axis_label :: string
  picture_bar_chart_data_bars :: "chart_bar list"

record string_int_pair =
  string_int_pair_key :: string
  string_int_pair_value :: int

record chart_stacked_bar =
  chart_stacked_bar_label :: "string list"
  chart_stacked_bar_values :: "string_int_pair list"

record picture_stacked_bar_chart_data =
  picture_stacked_bar_chart_data_kind :: string
  picture_stacked_bar_chart_data_title :: string
  picture_stacked_bar_chart_data_x_axis_label :: string
  picture_stacked_bar_chart_data_y_axis_label :: string
  picture_stacked_bar_chart_data_stacked_bars :: "chart_stacked_bar list"

record chart_slice =
  chart_slice_label :: string
  chart_slice_value :: f64

record picture_pie_chart_data =
  picture_pie_chart_data_kind :: string
  picture_pie_chart_data_title :: string
  picture_pie_chart_data_slices :: "chart_slice list"

record chart_point =
  chart_point_value :: "float_pair option"
  chart_point_size :: "f64 option"

record picture_scatter_chart_data =
  picture_scatter_chart_data_kind :: string
  picture_scatter_chart_data_title :: string
  picture_scatter_chart_data_x_axis_label :: string
  picture_scatter_chart_data_y_axis_label :: string
  picture_scatter_chart_data_points :: "chart_point list"

record barcode_annotation =
  barcode_annotation_format :: string
  barcode_annotation_value :: string
  barcode_annotation_provenance :: string

datatype picture_annotation_annotation =
    PictureAnnotationDescription description_annotation
  | PictureAnnotationMisc misc_annotation
  | PictureAnnotationClassification picture_classification_data
  | PictureAnnotationMolecule picture_molecule_data
  | PictureAnnotationTabularChart picture_tabular_chart_data
  | PictureAnnotationLineChart picture_line_chart_data
  | PictureAnnotationBarChart picture_bar_chart_data
  | PictureAnnotationStackedBarChart picture_stacked_bar_chart_data
  | PictureAnnotationPieChart picture_pie_chart_data
  | PictureAnnotationScatterChart picture_scatter_chart_data
  | PictureAnnotationBarcode barcode_annotation

record picture_annotation =
  picture_annotation_annotation :: "picture_annotation_annotation option"

record chart_meta =
  chart_meta_sources :: "grid_span list"
  chart_meta_has_row_headers :: bool
  chart_meta_has_column_headers :: bool

record picture_classification_prediction =
  picture_classification_prediction_confidence :: "f64 option"
  picture_classification_prediction_created_by :: "string option"
  picture_classification_prediction_class_name :: string
  picture_classification_prediction_custom_fields :: "(string \<Rightarrow> pb_value option)"

record picture_classification_meta_field =
  picture_classification_meta_field_predictions :: "picture_classification_prediction list"
  picture_classification_meta_field_custom_fields :: "(string \<Rightarrow> pb_value option)"

record molecule_meta_field =
  molecule_meta_field_confidence :: "f64 option"
  molecule_meta_field_created_by :: "string option"
  molecule_meta_field_smi :: string
  molecule_meta_field_custom_fields :: "(string \<Rightarrow> pb_value option)"

record tabular_chart_meta_field =
  tabular_chart_meta_field_confidence :: "f64 option"
  tabular_chart_meta_field_created_by :: "string option"
  tabular_chart_meta_field_title :: "string option"
  tabular_chart_meta_field_chart_data :: "table_data option"
  tabular_chart_meta_field_custom_fields :: "(string \<Rightarrow> pb_value option)"

record code_meta_field =
  code_meta_field_confidence :: "f64 option"
  code_meta_field_created_by :: "string option"
  code_meta_field_text :: string
  code_meta_field_language :: int
  code_meta_field_language_raw :: "string option"
  code_meta_field_custom_fields :: "(string \<Rightarrow> pb_value option)"

record picture_meta =
  picture_meta_summary :: "summary_meta_field option"
  picture_meta_description :: "description_meta_field option"
  picture_meta_classification :: "picture_classification_meta_field option"
  picture_meta_molecule :: "molecule_meta_field option"
  picture_meta_tabular_chart :: "tabular_chart_meta_field option"
  picture_meta_code :: "code_meta_field option"
  picture_meta_language :: "language_meta_field option"
  picture_meta_entities :: "entities_meta_field option"
  picture_meta_keywords :: "keywords_meta_field option"
  picture_meta_topics :: "topics_meta_field option"
  picture_meta_alternatives :: "alternatives_meta_field option"
  picture_meta_accessibility_title :: "string option"
  picture_meta_custom_fields :: "(string \<Rightarrow> pb_value option)"

record picture_item =
  picture_item_self_ref :: string
  picture_item_parent :: "ref_item option"
  picture_item_children :: "ref_item list"
  picture_item_content_layer :: int
  picture_item_meta :: "picture_meta option"
  picture_item_label :: int
  picture_item_prov :: "provenance_item list"
  picture_item_captions :: "ref_item list"
  picture_item_references :: "ref_item list"
  picture_item_footnotes :: "ref_item list"
  picture_item_image :: "image_ref option"
  picture_item_source :: "source_type list"
  picture_item_comments :: "fine_ref list"
  picture_item_annotations :: "picture_annotation list"
  picture_item_label_raw :: "string option"
  picture_item_shape :: "shape_meta option"
  picture_item_hyperlink :: "string option"
  picture_item_target :: "fine_ref option"
  picture_item_chart :: "chart_meta option"
  picture_item_source_element_name :: "string option"
  picture_item_source_namespace :: "string option"

end
