(* ===== verification/DocTables.thy ===== *)
theory DocTables imports DocCommon begin

text \<open>
  \<open>src/gen/ai/pipestream/document/v1/\<close>, the tables, forms, fields and pages of a document.
\<close>

datatype table_annotation_annotation =
    TableAnnotationDescription description_annotation
  | TableAnnotationMisc misc_annotation

record table_annotation =
  table_annotation_annotation :: "table_annotation_annotation option"

record table_item =
  table_item_self_ref :: string
  table_item_parent :: "ref_item option"
  table_item_children :: "ref_item list"
  table_item_content_layer :: int
  table_item_meta :: "floating_meta option"
  table_item_label :: int
  table_item_prov :: "provenance_item list"
  table_item_captions :: "ref_item list"
  table_item_references :: "ref_item list"
  table_item_footnotes :: "ref_item list"
  table_item_image :: "image_ref option"
  table_item_data :: "table_data option"
  table_item_source :: "source_type list"
  table_item_comments :: "fine_ref list"
  table_item_annotations :: "table_annotation list"
  table_item_label_raw :: "string option"

record graph_cell =
  graph_cell_label :: int
  graph_cell_cell_id :: int
  graph_cell_text :: string
  graph_cell_orig :: string
  graph_cell_prov :: "provenance_item option"
  graph_cell_item_ref :: "ref_item option"

record graph_link =
  graph_link_label :: int
  graph_link_source_cell_id :: int
  graph_link_target_cell_id :: int

record graph_data =
  graph_data_cells :: "graph_cell list"
  graph_data_links :: "graph_link list"

record key_value_item =
  key_value_item_self_ref :: string
  key_value_item_parent :: "ref_item option"
  key_value_item_children :: "ref_item list"
  key_value_item_content_layer :: int
  key_value_item_meta :: "floating_meta option"
  key_value_item_label :: int
  key_value_item_prov :: "provenance_item list"
  key_value_item_captions :: "ref_item list"
  key_value_item_references :: "ref_item list"
  key_value_item_footnotes :: "ref_item list"
  key_value_item_image :: "image_ref option"
  key_value_item_graph :: "graph_data option"
  key_value_item_source :: "source_type list"
  key_value_item_comments :: "fine_ref list"
  key_value_item_label_raw :: "string option"

record form_item =
  form_item_self_ref :: string
  form_item_parent :: "ref_item option"
  form_item_children :: "ref_item list"
  form_item_content_layer :: int
  form_item_meta :: "floating_meta option"
  form_item_label :: int
  form_item_prov :: "provenance_item list"
  form_item_captions :: "ref_item list"
  form_item_references :: "ref_item list"
  form_item_footnotes :: "ref_item list"
  form_item_image :: "image_ref option"
  form_item_graph :: "graph_data option"
  form_item_source :: "source_type list"
  form_item_comments :: "fine_ref list"
  form_item_label_raw :: "string option"

record field_region_item =
  field_region_item_self_ref :: string
  field_region_item_parent :: "ref_item option"
  field_region_item_children :: "ref_item list"
  field_region_item_content_layer :: int
  field_region_item_meta :: "base_meta option"
  field_region_item_label :: int
  field_region_item_prov :: "provenance_item list"
  field_region_item_source :: "source_type list"
  field_region_item_comments :: "fine_ref list"

record field_item =
  field_item_self_ref :: string
  field_item_parent :: "ref_item option"
  field_item_children :: "ref_item list"
  field_item_content_layer :: int
  field_item_meta :: "base_meta option"
  field_item_label :: int
  field_item_prov :: "provenance_item list"
  field_item_source :: "source_type list"
  field_item_comments :: "fine_ref list"
  field_item_field_name :: "string option"
  field_item_options :: "string list"
  field_item_selected_index :: "int option"
  field_item_span :: "fine_ref option"
  field_item_parameters :: "(string \<Rightarrow> string option)"
  field_item_field_kind :: "int option"
  field_item_value :: "string option"
  field_item_default_value :: "string option"
  field_item_field_flags :: "u32 option"
  field_item_appearance_state :: "string option"
  field_item_read_only :: "bool option"
  field_item_description :: "string option"

record page_quality =
  page_quality_garble_score :: "f64 option"
  page_quality_replacement_runs :: "int option"
  page_quality_ocr_recommended :: "bool option"
  page_quality_rotation_degrees :: "f64 option"

record page_item =
  page_item_size :: "doc_size option"
  page_item_image :: "image_ref option"
  page_item_page_no :: int
  page_item_unit :: "string option"
  page_item_quality :: "page_quality option"
  page_item_style_name :: "string option"
  page_item_page_label :: "string option"
  page_item_media_size :: "doc_size option"
  page_item_user_unit :: "f64 option"

end
