(* ===== verification/DocAbout.thy ===== *)
theory DocAbout imports DocCommon begin

text \<open>
  \<open>src/gen/ai/pipestream/document/v1/\<close>, what a document says about itself: its origin and
  metadata, its outline, attachments, claims and traces.
\<close>

record collector_warning =
  collector_warning_source :: "collector_source option"
  collector_warning_message :: string

record parse_identity =
  parse_identity_producer :: string
  parse_identity_options_digest :: string
  parse_identity_settings_digest :: string
  parse_identity_build :: string

record web_meta =
  web_meta_target_uri :: "string option"
  web_meta_canonical_uri :: "string option"
  web_meta_crawl_time :: "timestamp option"
  web_meta_http_status :: "int option"
  web_meta_content_language :: "string option"
  web_meta_headers :: "(string \<Rightarrow> string option)"
  web_meta_crawl_time_raw :: "string option"

record document_origin =
  document_origin_mimetype :: string
  document_origin_binary_hash :: u64
  document_origin_filename :: string
  document_origin_uri :: "string option"
  document_origin_web :: "web_meta option"
  document_origin_source_id :: "string option"
  document_origin_mimetype_evidence :: "string option"
  document_origin_field_sources :: "field_source list"

record doc_identifier =
  doc_identifier_kind :: string
  doc_identifier_value :: string
  doc_identifier_scope :: "string option"

record doc_classification =
  doc_classification_scheme :: string
  doc_classification_code :: string
  doc_classification_edition :: "string option"
  doc_classification_office :: "string option"

record license_meta =
  license_meta_type_uri :: "string option"
  license_meta_statement :: "string option"
  license_meta_copyright_statement :: "string option"
  license_meta_copyright_year :: "int option"
  license_meta_copyright_holder :: "string option"

record funding_award =
  funding_award_funder :: "string option"
  funding_award_award_id :: "string option"
  funding_award_statement :: "string option"

record namespace_binding =
  namespace_binding_prefix :: string
  namespace_binding_uri :: string

record schema_location =
  schema_location_namespace :: string
  schema_location_location :: string

record doc_protection =
  doc_protection_encrypted :: bool
  doc_protection_handler :: "string option"
  doc_protection_key_bits :: "int option"
  doc_protection_opened_without_password :: bool
  doc_protection_allows_extraction :: bool
  doc_protection_allows_printing :: bool

record document_statistics =
  document_statistics_pages :: "int option"
  document_statistics_words :: "int option"
  document_statistics_characters :: "int option"
  document_statistics_paragraphs :: "int option"
  document_statistics_tables :: "int option"
  document_statistics_images :: "int option"
  document_statistics_objects :: "int option"
  document_statistics_cells :: "int option"
  document_statistics_sheets :: "int option"

datatype user_property_value =
    UserPropertyText string
  | UserPropertyNumber f64
  | UserPropertyBoolean bool
  | UserPropertyInstant timestamp
  | UserPropertyDate civil_date_time

record user_property =
  user_property_name :: string
  user_property_value :: "user_property_value option"

record document_meta =
  document_meta_title :: "string option"
  document_meta_authors :: "string list"
  document_meta_created :: "timestamp option"
  document_meta_modified :: "timestamp option"
  document_meta_language :: "string option"
  document_meta_generator :: "string option"
  document_meta_keywords :: "string list"
  document_meta_schema_location :: "string option"
  document_meta_created_raw :: "string option"
  document_meta_modified_raw :: "string option"
  document_meta_identifiers :: "doc_identifier list"
  document_meta_classifications :: "doc_classification list"
  document_meta_license :: "license_meta option"
  document_meta_funding :: "funding_award list"
  document_meta_namespaces :: "namespace_binding list"
  document_meta_schema_locations :: "schema_location list"
  document_meta_created_civil :: "civil_date_time option"
  document_meta_modified_civil :: "civil_date_time option"
  document_meta_subject :: "string option"
  document_meta_modified_by :: "string option"
  document_meta_printed :: "timestamp option"
  document_meta_printed_raw :: "string option"
  document_meta_printer :: "string option"
  document_meta_template :: "string option"
  document_meta_editing_cycles :: "int option"
  document_meta_editing_duration_seconds :: "int option"
  document_meta_statistics :: "document_statistics option"
  document_meta_user_properties :: "user_property list"
  document_meta_format_version :: "string option"
  document_meta_structured :: "bool option"
  document_meta_authoring_tool :: "string option"
  document_meta_protection :: "doc_protection option"
  document_meta_raw_metadata :: "string option"
  document_meta_trapped :: "int option"
  document_meta_field_sources :: "field_source list"
  document_meta_extra :: "(string \<Rightarrow> string option)"
  document_meta_description :: "string option"
  document_meta_category :: "string option"
  document_meta_content_status :: "string option"
  document_meta_revision :: "string option"
  document_meta_application_version :: "string option"
  document_meta_company :: "string option"
  document_meta_manager :: "string option"

record media_meta =
  media_meta_duration_ms :: "f64 option"
  media_meta_speakers :: "string list"
  media_meta_codec :: "string option"

record email_party =
  email_party_name :: "string option"
  email_party_address :: string

record email_meta =
  email_meta_from :: "email_party list"
  email_meta_to :: "email_party list"
  email_meta_cc :: "email_party list"
  email_meta_bcc :: "email_party list"
  email_meta_message_id :: "string option"
  email_meta_in_reply_to :: "string list"
  email_meta_references :: "string list"
  email_meta_conversation_topic :: "string option"
  email_meta_conversation_index :: "string option"
  email_meta_sent :: "timestamp option"
  email_meta_sent_raw :: "string option"

record doc_margins =
  doc_margins_left :: f64
  doc_margins_top :: f64
  doc_margins_right :: f64
  doc_margins_bottom :: f64

record page_style =
  page_style_name :: string
  page_style_size :: "doc_size option"
  page_style_margins :: "doc_margins option"
  page_style_columns :: "int option"
  page_style_variant :: "string option"

record collector_claim =
  collector_claim_source :: "collector_source option"
  collector_claim_source_meta :: "document_meta option"
  collector_claim_origin :: "document_origin option"
  collector_claim_page_styles :: "page_style list"
  collector_claim_email :: "email_meta option"
  collector_claim_media :: "media_meta option"

record sub_document_ref =
  sub_document_ref_id :: string
  sub_document_ref_name :: string
  sub_document_ref_media_type :: string
  sub_document_ref_size_bytes :: u64
  sub_document_ref_item_ref :: "string option"
  sub_document_ref_class_id :: "string option"
  sub_document_ref_kind :: "string option"

record meta_tag =
  meta_tag_name :: string
  meta_tag_content :: string

record structured_data =
  structured_data_kind :: string
  structured_data_json :: string

record generation_step =
  generation_step_token :: u32
  generation_step_piece :: string
  generation_step_logprob :: f32
  generation_step_model_token :: u32
  generation_step_model_logprob :: f32
  generation_step_intervention :: int

record generation_trace =
  generation_trace_page_no :: int
  generation_trace_first_step :: u64
  generation_trace_steps :: "generation_step list"
  generation_trace_text :: string
  generation_trace_source :: "collector_source option"

record outline_entry =
  outline_entry_title :: string
  outline_entry_level :: int
  outline_entry_page_no :: "int option"
  outline_entry_target :: "fine_ref option"

record change_record =
  change_record_id :: string
  change_record_kind :: string
  change_record_author :: string
  change_record_timestamp :: "timestamp option"
  change_record_target :: "fine_ref option"
  change_record_content :: "string option"
  change_record_timestamp_raw :: "string option"

record named_anchor =
  named_anchor_name :: string
  named_anchor_target :: "fine_ref option"

record named_range =
  named_range_name :: string
  named_range_range :: "grid_span option"
  named_range_has_headers :: bool
  named_range_has_totals :: bool
  named_range_kind :: "string option"
  named_range_expression :: "string option"

record pivot_spec =
  pivot_spec_name :: string
  pivot_spec_source :: "grid_span option"
  pivot_spec_output :: "grid_span option"
  pivot_spec_row_fields :: "string list"
  pivot_spec_column_fields :: "string list"
  pivot_spec_data_fields :: "string list"
  pivot_spec_page_fields :: "string list"

end
