(* ===== verification/NlpCommon.thy ===== *)
theory NlpCommon imports DocCommon begin

text \<open>
  \<open>src/gen/org/apache/opennlp/grpc/v1/\<close>, the messages both forms of an OpenNLP result use.

  The results hang off a document's analyses.  A message is a record under its own name, as in
  \<open>DocCommon\<close>; \<open>ParseNode\<close>, which holds its children, is a datatype.  A field of
  an enumeration holds its number, as on the wire; \<open>NlpEnums\<close> has the enumerations.  A message without
  fields is a datatype with one constructor.
\<close>

record nlp_annotation_span =
  nlp_annotation_span_start :: int
  nlp_annotation_span_end :: int
  nlp_annotation_span_space :: int
  nlp_annotation_span_type :: "string option"
  nlp_annotation_span_probability :: "f64 option"

datatype nlp_parse_node = NlpParseNode
  (nlp_parse_node_label: string)
  (nlp_parse_node_span: "nlp_annotation_span option")
  (nlp_parse_node_children: "nlp_parse_node list")
  (nlp_parse_node_probability: "f64 option")
  (nlp_parse_node_kind: int)
  (nlp_parse_node_token_index: "int option")

record nlp_parse_tree =
  nlp_parse_tree_root :: "nlp_parse_node option"
  nlp_parse_tree_penn_treebank :: "string option"
  nlp_parse_tree_parser_id :: string
  nlp_parse_tree_engine :: string

record nlp_document_analytics =
  nlp_document_analytics_total_tokens :: int
  nlp_document_analytics_total_sentences :: int
  nlp_document_analytics_noun_density :: f32
  nlp_document_analytics_verb_density :: f32
  nlp_document_analytics_adjective_density :: f32
  nlp_document_analytics_adverb_density :: f32
  nlp_document_analytics_content_word_ratio :: f32
  nlp_document_analytics_unique_lemma_count :: int
  nlp_document_analytics_lexical_density :: f32

record nlp_embedding_route =
  nlp_embedding_route_model_id :: string
  nlp_embedding_route_backend_id :: string
  nlp_embedding_route_vector_space_id :: string
  nlp_embedding_route_artifact_hash :: "string option"
  nlp_embedding_route_priority :: int
  nlp_embedding_route_primary :: bool

record nlp_embedding_result =
  nlp_embedding_result_model_id :: string
  nlp_embedding_result_vector :: "f32 list"
  nlp_embedding_result_source_span :: "nlp_annotation_span option"
  nlp_embedding_result_granularity :: int
  nlp_embedding_result_route :: "nlp_embedding_route option"
  nlp_embedding_result_vector_normalization :: int

record nlp_chunk =
  nlp_chunk_annotation_span :: "nlp_annotation_span option"
  nlp_chunk_chunk_tag :: "string option"
  nlp_chunk_text_content :: "string option"
  nlp_chunk_embeddings :: "nlp_embedding_result list"
  nlp_chunk_contained_sentence_indices :: "int list"

datatype nlp_chunking_strategy_selector_kind =
    NlpChunkingStrategySelectorStandard int
  | NlpChunkingStrategySelectorCustom string

record nlp_chunking_strategy_selector =
  nlp_chunking_strategy_selector_kind :: "nlp_chunking_strategy_selector_kind option"

record nlp_chunk_group_stats =
  nlp_chunk_group_stats_chunk_count :: int
  nlp_chunk_group_stats_total_tokens :: int
  nlp_chunk_group_stats_processing_time_ms :: int

record nlp_chunk_embedding_group =
  nlp_chunk_embedding_group_group_id :: string
  nlp_chunk_embedding_group_chunk_config_id :: "string option"
  nlp_chunk_embedding_group_embedding_model_ids :: "string list"
  nlp_chunk_embedding_group_result_set_name :: "string option"
  nlp_chunk_embedding_group_chunks :: "nlp_chunk list"
  nlp_chunk_embedding_group_stats :: "nlp_chunk_group_stats option"
  nlp_chunk_embedding_group_granularity :: "int option"
  nlp_chunk_embedding_group_centroids :: "nlp_embedding_result list"
  nlp_chunk_embedding_group_strategy :: "nlp_chunking_strategy_selector option"

record nlp_alignment_run =
  nlp_alignment_run_original_units :: int
  nlp_alignment_run_normalized_units :: int
  nlp_alignment_run_equal :: bool

record nlp_normalization_result =
  nlp_normalization_result_normalized_text :: string
  nlp_normalization_result_alignment :: "nlp_alignment_run list"
  nlp_normalization_result_applied_normalizers :: "string list"

datatype nlp_layer_identity_kind =
    NlpLayerIdentityStandard int
  | NlpLayerIdentityCustom string

record nlp_layer_identity =
  nlp_layer_identity_qualifier :: "string option"
  nlp_layer_identity_kind :: "nlp_layer_identity_kind option"

end
