(* ===== verification/NlpDocument.thy ===== *)
theory NlpDocument imports NlpCommon begin

text \<open>
  \<open>src/gen/org/apache/opennlp/grpc/v1/\<close>, the analysis of a text, layer by layer, as \<open>OpenNlpDocument\<close>.
\<close>

record nlp_language_score =
  nlp_language_score_language :: string
  nlp_language_score_confidence :: f32

record nlp_token =
  nlp_token_text :: string
  nlp_token_annotation_span :: "nlp_annotation_span option"
  nlp_token_pos_tag :: "string option"
  nlp_token_lemma :: "string option"
  nlp_token_pos_probability :: "f32 option"
  nlp_token_word_type :: "string option"
  nlp_token_term_layers :: "(string \<Rightarrow> string option)"
  nlp_token_is_stopword :: bool

record nlp_geo_resolution_result =
  nlp_geo_resolution_result_source :: string
  nlp_geo_resolution_result_record_id :: string
  nlp_geo_resolution_result_name :: string
  nlp_geo_resolution_result_latitude :: f64
  nlp_geo_resolution_result_longitude :: f64
  nlp_geo_resolution_result_country_code :: "string option"
  nlp_geo_resolution_result_containment :: "string list"
  nlp_geo_resolution_result_population :: int
  nlp_geo_resolution_result_feature_class :: "string option"
  nlp_geo_resolution_result_confidence :: f64

record nlp_entity_source =
  nlp_entity_source_recognizer_id :: string
  nlp_entity_source_engine :: string
  nlp_entity_source_probability :: "f64 option"
  nlp_entity_source_annotation_span :: "nlp_annotation_span option"

record nlp_named_entity =
  nlp_named_entity_annotation_span :: "nlp_annotation_span option"
  nlp_named_entity_entity_type :: string
  nlp_named_entity_probability :: "f64 option"
  nlp_named_entity_text :: string
  nlp_named_entity_sources :: "nlp_entity_source list"
  nlp_named_entity_geo :: "nlp_geo_resolution_result option"

record nlp_chunk_source =
  nlp_chunk_source_chunker_id :: string
  nlp_chunk_source_engine :: string
  nlp_chunk_source_annotation_span :: "nlp_annotation_span option"

record nlp_chunk_span =
  nlp_chunk_span_annotation_span :: "nlp_annotation_span option"
  nlp_chunk_span_chunk_tag :: string
  nlp_chunk_span_text :: string
  nlp_chunk_span_sources :: "nlp_chunk_source list"

record nlp_chunk_result =
  nlp_chunk_result_chunks :: "nlp_chunk_span list"

record nlp_annotated_sentence =
  nlp_annotated_sentence_sentence_span :: "nlp_annotation_span option"
  nlp_annotated_sentence_tokens :: "nlp_token list"
  nlp_annotated_sentence_entities :: "nlp_named_entity list"
  nlp_annotated_sentence_syntactic_chunks :: "nlp_chunk_result option"
  nlp_annotated_sentence_parse_tree :: "nlp_parse_tree option"
  nlp_annotated_sentence_sentiment_label :: "string option"
  nlp_annotated_sentence_sentiment_confidence :: "f32 option"
  nlp_annotated_sentence_parse_trees :: "nlp_parse_tree list"

record nlp_document_classification =
  nlp_document_classification_best_category :: string
  nlp_document_classification_category_scores :: "(string \<Rightarrow> f64 option)"

record nlp_string_annotation =
  nlp_string_annotation_span :: "nlp_annotation_span option"
  nlp_string_annotation_value :: string
  nlp_string_annotation_probability :: "f64 option"

record nlp_string_annotation_list =
  nlp_string_annotation_list_annotations :: "nlp_string_annotation list"

record nlp_category_annotation =
  nlp_category_annotation_span :: "nlp_annotation_span option"
  nlp_category_annotation_label :: string
  nlp_category_annotation_score :: f64

record nlp_category_annotation_list =
  nlp_category_annotation_list_annotations :: "nlp_category_annotation list"

record nlp_embedding_annotation =
  nlp_embedding_annotation_span :: "nlp_annotation_span option"
  nlp_embedding_annotation_model_id :: string
  nlp_embedding_annotation_vector :: "f32 list"
  nlp_embedding_annotation_granularity :: int
  nlp_embedding_annotation_route :: "nlp_embedding_route option"
  nlp_embedding_annotation_vector_normalization :: int

record nlp_embedding_annotation_list =
  nlp_embedding_annotation_list_annotations :: "nlp_embedding_annotation list"

record nlp_subword_annotation =
  nlp_subword_annotation_span :: "nlp_annotation_span option"
  nlp_subword_annotation_piece :: string
  nlp_subword_annotation_vocabulary_id :: int

record nlp_subword_annotation_list =
  nlp_subword_annotation_list_annotations :: "nlp_subword_annotation list"

record nlp_geo_annotation =
  nlp_geo_annotation_span :: "nlp_annotation_span option"
  nlp_geo_annotation_resolution :: "nlp_geo_resolution_result option"

record nlp_geo_annotation_list =
  nlp_geo_annotation_list_annotations :: "nlp_geo_annotation list"

record nlp_tree_annotation =
  nlp_tree_annotation_span :: "nlp_annotation_span option"
  nlp_tree_annotation_tree :: "nlp_parse_tree option"
  nlp_tree_annotation_alternatives :: "nlp_parse_tree list"

record nlp_tree_annotation_list =
  nlp_tree_annotation_list_annotations :: "nlp_tree_annotation list"

record nlp_word_type_annotation =
  nlp_word_type_annotation_span :: "nlp_annotation_span option"
  nlp_word_type_annotation_type :: int

record nlp_word_type_annotation_list =
  nlp_word_type_annotation_list_annotations :: "nlp_word_type_annotation list"

record nlp_entity_annotation_list =
  nlp_entity_annotation_list_annotations :: "nlp_named_entity list"

record nlp_syntactic_chunk_annotation_list =
  nlp_syntactic_chunk_annotation_list_annotations :: "nlp_chunk_span list"

record nlp_stem_annotation =
  nlp_stem_annotation_span :: "nlp_annotation_span option"
  nlp_stem_annotation_stem :: string
  nlp_stem_annotation_algorithm :: int
  nlp_stem_annotation_language :: "string option"
  nlp_stem_annotation_hunspell_dictionary_id :: "string option"

record nlp_stem_annotation_list =
  nlp_stem_annotation_list_annotations :: "nlp_stem_annotation list"

record nlp_lexical_expansion_annotation =
  nlp_lexical_expansion_annotation_span :: "nlp_annotation_span option"
  nlp_lexical_expansion_annotation_term :: string
  nlp_lexical_expansion_annotation_kind :: int
  nlp_lexical_expansion_annotation_depth :: int
  nlp_lexical_expansion_annotation_sense_rank :: int
  nlp_lexical_expansion_annotation_weight :: f64
  nlp_lexical_expansion_annotation_lexicon_id :: string

record nlp_lexical_expansion_annotation_list =
  nlp_lexical_expansion_annotation_list_annotations :: "nlp_lexical_expansion_annotation list"

record nlp_normalization_annotation_list =
  nlp_normalization_annotation_list_annotations :: "nlp_normalization_result list"

record nlp_analytics_annotation_list =
  nlp_analytics_annotation_list_annotations :: "nlp_document_analytics list"

record nlp_chunk_group_annotation_list =
  nlp_chunk_group_annotation_list_annotations :: "nlp_chunk_embedding_group list"

record nlp_term_vector_annotation =
  nlp_term_vector_annotation_term :: string
  nlp_term_vector_annotation_frequency :: int
  nlp_term_vector_annotation_occurrences :: "nlp_annotation_span list"

record nlp_term_vector_annotation_list =
  nlp_term_vector_annotation_list_annotations :: "nlp_term_vector_annotation list"
  nlp_term_vector_annotation_list_mode :: int
  nlp_term_vector_annotation_list_source_layer :: "nlp_layer_identity option"

record nlp_dependency_annotation =
  nlp_dependency_annotation_span :: "nlp_annotation_span option"
  nlp_dependency_annotation_head_token_index :: int
  nlp_dependency_annotation_dependent_token_index :: int
  nlp_dependency_annotation_relation :: string

record nlp_dependency_annotation_list =
  nlp_dependency_annotation_list_annotations :: "nlp_dependency_annotation list"
  nlp_dependency_annotation_list_parser_id :: string
  nlp_dependency_annotation_list_engine :: string

record nlp_relation_annotation =
  nlp_relation_annotation_span :: "nlp_annotation_span option"
  nlp_relation_annotation_type :: string
  nlp_relation_annotation_subject_entity_index :: int
  nlp_relation_annotation_object_entity_index :: int

record nlp_relation_annotation_list =
  nlp_relation_annotation_list_annotations :: "nlp_relation_annotation list"

datatype nlp_annotation_layer_values =
    NlpAnnotationLayerStringValues nlp_string_annotation_list
  | NlpAnnotationLayerCategoryValues nlp_category_annotation_list
  | NlpAnnotationLayerEmbeddingValues nlp_embedding_annotation_list
  | NlpAnnotationLayerTreeValues nlp_tree_annotation_list
  | NlpAnnotationLayerSubwordValues nlp_subword_annotation_list
  | NlpAnnotationLayerGeoValues nlp_geo_annotation_list
  | NlpAnnotationLayerWordTypeValues nlp_word_type_annotation_list
  | NlpAnnotationLayerEntityValues nlp_entity_annotation_list
  | NlpAnnotationLayerSyntacticChunkValues nlp_syntactic_chunk_annotation_list
  | NlpAnnotationLayerStemValues nlp_stem_annotation_list
  | NlpAnnotationLayerLexicalExpansionValues nlp_lexical_expansion_annotation_list
  | NlpAnnotationLayerNormalizationValues nlp_normalization_annotation_list
  | NlpAnnotationLayerAnalyticsValues nlp_analytics_annotation_list
  | NlpAnnotationLayerChunkGroupValues nlp_chunk_group_annotation_list
  | NlpAnnotationLayerTermVectorValues nlp_term_vector_annotation_list
  | NlpAnnotationLayerDependencyValues nlp_dependency_annotation_list
  | NlpAnnotationLayerRelationValues nlp_relation_annotation_list

record nlp_annotation_layer =
  nlp_annotation_layer_id :: string
  nlp_annotation_layer_scope :: int
  nlp_annotation_layer_identity :: "nlp_layer_identity option"
  nlp_annotation_layer_values :: "nlp_annotation_layer_values option"

record nlp_document_layers =
  nlp_document_layers_layers :: "nlp_annotation_layer list"

record opennlp_document =
  opennlp_document_doc_id :: string
  opennlp_document_raw_text :: string
  opennlp_document_detected_language :: "string option"
  opennlp_document_language_confidence :: "f32 option"
  opennlp_document_ranked_languages :: "nlp_language_score list"
  opennlp_document_sentences :: "nlp_annotated_sentence list"
  opennlp_document_analytics :: "nlp_document_analytics option"
  opennlp_document_metadata :: "pb_struct option"
  opennlp_document_embeddings :: "nlp_embedding_result list"
  opennlp_document_classification :: "nlp_document_classification option"
  opennlp_document_chunk_embedding_groups :: "nlp_chunk_embedding_group list"
  opennlp_document_offset_encoding :: int
  opennlp_document_document_centroids :: "nlp_embedding_result list"
  opennlp_document_normalization :: "nlp_normalization_result option"
  opennlp_document_layers :: "nlp_document_layers option"

end
