(* ===== verification/NlpAnnotations.thy ===== *)
theory NlpAnnotations imports NlpCommon begin

text \<open>
  \<open>src/gen/org/apache/opennlp/grpc/v1/\<close>, the analysis of a text as typed annotations, \<open>OpenNlpAnnotations\<close>.
\<close>

record nlp_analyzer_info =
  nlp_analyzer_info_opennlp_version :: string
  nlp_analyzer_info_api_version :: string
  nlp_analyzer_info_service_version :: string

record nlp_model_provenance =
  nlp_model_provenance_model_ref :: string
  nlp_model_provenance_name :: string
  nlp_model_provenance_sha256 :: "string option"
  nlp_model_provenance_component :: string
  nlp_model_provenance_engine :: string
  nlp_model_provenance_languages :: "string list"
  nlp_model_provenance_version :: "string option"

datatype nlp_sentence = NlpSentence

record nlp_token_text =
  nlp_token_text_text :: string

record nlp_word_type =
  nlp_word_type_type :: int

record nlp_stopword =
  nlp_stopword_list_id :: string

record nlp_subword_piece =
  nlp_subword_piece_piece :: string
  nlp_subword_piece_vocabulary_id :: int
  nlp_subword_piece_control :: bool

record nlp_part_of_speech =
  nlp_part_of_speech_tag :: string
  nlp_part_of_speech_tagset :: string

record nlp_lemma =
  nlp_lemma_lemma :: string

record nlp_stem =
  nlp_stem_stem :: string
  nlp_stem_algorithm :: int
  nlp_stem_language :: "string option"
  nlp_stem_hunspell_dictionary_id :: "string option"

record nlp_term =
  nlp_term_term :: string

record nlp_syntactic_chunk =
  nlp_syntactic_chunk_tag :: string

record nlp_phrase =
  nlp_phrase_label :: string
  nlp_phrase_head :: "nlp_annotation_span option"

record nlp_dependency_arc =
  nlp_dependency_arc_head :: int
  nlp_dependency_arc_dependent :: int
  nlp_dependency_arc_relation :: string

record nlp_entity_vote =
  nlp_entity_vote_recognizer_id :: string
  nlp_entity_vote_model_ref :: string
  nlp_entity_vote_probability :: "f64 option"
  nlp_entity_vote_span :: "nlp_annotation_span option"

record nlp_entity =
  nlp_entity_type :: string
  nlp_entity_text :: string
  nlp_entity_votes :: "nlp_entity_vote list"

record nlp_relation =
  nlp_relation_type :: string
  nlp_relation_subject :: int
  nlp_relation_object :: int

record nlp_coref_mention =
  nlp_coref_mention_chain :: int
  nlp_coref_mention_kind :: int
  nlp_coref_mention_entity :: "int option"

record nlp_speaker =
  nlp_speaker_speaker :: string

record nlp_word_net_sense =
  nlp_word_net_sense_synset_id :: string
  nlp_word_net_sense_sense_id :: "string option"
  nlp_word_net_sense_pos :: int
  nlp_word_net_sense_lemma :: string
  nlp_word_net_sense_synset_lemmas :: "string list"
  nlp_word_net_sense_gloss :: string
  nlp_word_net_sense_sense_rank :: int
  nlp_word_net_sense_lexicon_id :: string

record nlp_lexical_expansion =
  nlp_lexical_expansion_term :: string
  nlp_lexical_expansion_relation :: int
  nlp_lexical_expansion_depth :: int
  nlp_lexical_expansion_sense_rank :: int
  nlp_lexical_expansion_weight :: f64
  nlp_lexical_expansion_lexicon_id :: string
  nlp_lexical_expansion_synset_id :: "string option"

record nlp_glossary_match =
  nlp_glossary_match_id :: string
  nlp_glossary_match_term :: string
  nlp_glossary_match_glossary_id :: string

record nlp_money_amount =
  nlp_money_amount_amount :: string
  nlp_money_amount_currency :: string
  nlp_money_amount_original_amount :: "string option"
  nlp_money_amount_original_currency :: "string option"

record nlp_quantity =
  nlp_quantity_value :: string
  nlp_quantity_unit :: string

record nlp_temporal_expression =
  nlp_temporal_expression_value :: string
  nlp_temporal_expression_granularity :: int
  nlp_temporal_expression_origin :: int

record nlp_calendar_date =
  nlp_calendar_date_year :: int
  nlp_calendar_date_month :: int
  nlp_calendar_date_day :: int

record nlp_geo_point =
  nlp_geo_point_latitude :: f64
  nlp_geo_point_longitude :: f64

record nlp_geo_bounding_box =
  nlp_geo_bounding_box_west :: f64
  nlp_geo_bounding_box_south :: f64
  nlp_geo_bounding_box_east :: f64
  nlp_geo_bounding_box_north :: f64

record nlp_place_attribute =
  nlp_place_attribute_value :: string
  nlp_place_attribute_source :: string
  nlp_place_attribute_notes :: "string option"

record nlp_gazetteer_place =
  nlp_gazetteer_place_source :: string
  nlp_gazetteer_place_record_id :: string
  nlp_gazetteer_place_name :: string
  nlp_gazetteer_place_alternate_names :: "string list"
  nlp_gazetteer_place_location :: "nlp_geo_point option"
  nlp_gazetteer_place_bounding_box :: "nlp_geo_bounding_box option"
  nlp_gazetteer_place_country_code :: "string option"
  nlp_gazetteer_place_containment :: "string list"
  nlp_gazetteer_place_population :: int
  nlp_gazetteer_place_feature_class :: int
  nlp_gazetteer_place_attributes :: "(string \<Rightarrow> nlp_place_attribute option)"

record nlp_place_resolution =
  nlp_place_resolution_place :: "nlp_gazetteer_place option"
  nlp_place_resolution_confidence :: f64

record nlp_place_ancestor =
  nlp_place_ancestor_id :: string
  nlp_place_ancestor_name :: string
  nlp_place_ancestor_type :: string

record nlp_containment_chain =
  nlp_containment_chain_ancestors :: "nlp_place_ancestor list"

record nlp_region_vote =
  nlp_region_vote_country_code :: string
  nlp_region_vote_share :: f64
  nlp_region_vote_chosen :: bool

record nlp_language_guess =
  nlp_language_guess_code :: string
  nlp_language_guess_rank :: int

record nlp_category =
  nlp_category_label :: string
  nlp_category_score :: f64
  nlp_category_best :: bool

record nlp_sentiment =
  nlp_sentiment_label :: string
  nlp_sentiment_score :: f64

record nlp_term_vector =
  nlp_term_vector_term :: string
  nlp_term_vector_frequency :: int
  nlp_term_vector_occurrences :: "nlp_annotation_span list"
  nlp_term_vector_mode :: int

record nlp_pii_mention =
  nlp_pii_mention_type :: int
  nlp_pii_mention_normalized :: string

record nlp_noise_span =
  nlp_noise_span_severity :: int
  nlp_noise_span_score :: f64

record nlp_text_artifact =
  nlp_text_artifact_type :: int

record nlp_embedded_asset =
  nlp_embedded_asset_payload :: "nlp_annotation_span option"
  nlp_embedded_asset_format :: int
  nlp_embedded_asset_media_type :: string
  nlp_embedded_asset_decoded_length :: int
  nlp_embedded_asset_width :: int
  nlp_embedded_asset_height :: int

record nlp_embedding =
  nlp_embedding_vector :: "f32 list"
  nlp_embedding_source :: "int option"
  nlp_embedding_granularity :: int
  nlp_embedding_normalization :: int
  nlp_embedding_route :: "nlp_embedding_route option"

datatype nlp_generic_value_value =
    NlpGenericValueText string
  | NlpGenericValueNumber f64
  | NlpGenericValueFlag bool
  | NlpGenericValueStructured pb_struct

record nlp_generic_value =
  nlp_generic_value_value_type :: string
  nlp_generic_value_value :: "nlp_generic_value_value option"

datatype nlp_annotation_value =
    NlpAnnotationSentence nlp_sentence
  | NlpAnnotationToken nlp_token_text
  | NlpAnnotationWordType nlp_word_type
  | NlpAnnotationStopword nlp_stopword
  | NlpAnnotationSubword nlp_subword_piece
  | NlpAnnotationPos nlp_part_of_speech
  | NlpAnnotationLemma nlp_lemma
  | NlpAnnotationStem nlp_stem
  | NlpAnnotationTerm nlp_term
  | NlpAnnotationSyntacticChunk nlp_syntactic_chunk
  | NlpAnnotationPhrase nlp_phrase
  | NlpAnnotationParse nlp_parse_tree
  | NlpAnnotationDependency nlp_dependency_arc
  | NlpAnnotationEntity nlp_entity
  | NlpAnnotationRelation nlp_relation
  | NlpAnnotationCoref nlp_coref_mention
  | NlpAnnotationSpeaker nlp_speaker
  | NlpAnnotationWordnetSense nlp_word_net_sense
  | NlpAnnotationLexicalExpansion nlp_lexical_expansion
  | NlpAnnotationGlossary nlp_glossary_match
  | NlpAnnotationMoney nlp_money_amount
  | NlpAnnotationQuantity nlp_quantity
  | NlpAnnotationTemporal nlp_temporal_expression
  | NlpAnnotationDocumentDate nlp_calendar_date
  | NlpAnnotationPlace nlp_place_resolution
  | NlpAnnotationContainment nlp_containment_chain
  | NlpAnnotationRegionVote nlp_region_vote
  | NlpAnnotationLanguage nlp_language_guess
  | NlpAnnotationCategory nlp_category
  | NlpAnnotationSentiment nlp_sentiment
  | NlpAnnotationAnalytics nlp_document_analytics
  | NlpAnnotationTermVector nlp_term_vector
  | NlpAnnotationNormalization nlp_normalization_result
  | NlpAnnotationPii nlp_pii_mention
  | NlpAnnotationNoise nlp_noise_span
  | NlpAnnotationArtifact nlp_text_artifact
  | NlpAnnotationAsset nlp_embedded_asset
  | NlpAnnotationEmbedding nlp_embedding
  | NlpAnnotationChunkGroup nlp_chunk_embedding_group
  | NlpAnnotationGeneric nlp_generic_value

record nlp_annotation =
  nlp_annotation_span :: "nlp_annotation_span option"
  nlp_annotation_probability :: "f64 option"
  nlp_annotation_model_ref :: "string option"
  nlp_annotation_value :: "nlp_annotation_value option"

record nlp_typed_layer =
  nlp_typed_layer_id :: string
  nlp_typed_layer_identity :: "nlp_layer_identity option"
  nlp_typed_layer_scope :: int
  nlp_typed_layer_model_refs :: "string list"
  nlp_typed_layer_indexes_layer :: "string option"
  nlp_typed_layer_annotations :: "nlp_annotation list"

record opennlp_annotations =
  opennlp_annotations_doc_id :: string
  opennlp_annotations_raw_text :: string
  opennlp_annotations_offset_encoding :: int
  opennlp_annotations_analyzer :: "nlp_analyzer_info option"
  opennlp_annotations_models :: "nlp_model_provenance list"
  opennlp_annotations_layers :: "nlp_typed_layer list"

end
