(* ===== verification/DocSchema.thy ===== *)
theory DocSchema imports DocItems DocPictures DocTables DocAbout NlpDocument NlpAnnotations begin

text \<open>
  \<open>src/gen/ai/pipestream/document/v1/\<close>, the document and its analyses, its enumerations as far as
  the fold uses them (\<open>DocEnums\<close> has the rest), and the \<open>Default\<close> that prost derives for the messages
  the fold builds on it.
\<close>

text \<open>An analysis of the text, whose result is one of two messages of the OpenNLP schema.\<close>

datatype analysis_result =
    TextAnalysisOpennlp opennlp_document
  | TextAnalysisOpennlpAnnotations opennlp_annotations

record text_analysis =
  text_analysis_source :: "collector_source option"
  text_analysis_over :: "parse_identity option"
  text_analysis_stream_start :: u64
  text_analysis_stream_end :: u64
  text_analysis_layer_sources :: "(string \<Rightarrow> collector_source option)"
  text_analysis_result :: "analysis_result option"

record document =
  document_schema_name :: "string option"
  document_version :: "string option"
  document_name :: string
  document_origin :: "document_origin option"
  document_furniture :: "group_item option"
  document_body :: "group_item option"
  document_groups :: "group_item list"
  document_texts :: "base_text_item list"
  document_pictures :: "picture_item list"
  document_tables :: "table_item list"
  document_key_value_items :: "key_value_item list"
  document_form_items :: "form_item list"
  document_field_regions :: "field_region_item list"
  document_field_items :: "field_item list"
  document_pages :: "(int \<Rightarrow> page_item option)"
  document_source_meta :: "document_meta option"
  document_attachments :: "sub_document_ref list"
  document_outline :: "outline_entry list"
  document_meta_tags :: "meta_tag list"
  document_structured_data :: "structured_data list"
  document_media :: "media_meta option"
  document_changes :: "change_record list"
  document_anchors :: "named_anchor list"
  document_email :: "email_meta option"
  document_page_styles :: "page_style list"
  document_named_ranges :: "named_range list"
  document_pivots :: "pivot_spec list"
  document_claims :: "collector_claim list"
  document_parse :: "parse_identity option"
  document_analyses :: "text_analysis list"
  document_warnings :: "collector_warning list"
  document_generation_traces :: "generation_trace list"

datatype content_layer =
  LayerUnspecified | LayerBody | LayerFurniture | LayerBackground | LayerInvisible |
  LayerNotes

fun content_layer_number :: "content_layer \<Rightarrow> int" where
  "content_layer_number LayerUnspecified = 0"
| "content_layer_number LayerBody = 1"
| "content_layer_number LayerFurniture = 2"
| "content_layer_number LayerBackground = 3"
| "content_layer_number LayerInvisible = 4"
| "content_layer_number LayerNotes = 5"

datatype group_label =
  LabelUnspecified | LabelList | LabelOrderedList | LabelChapter | LabelSection |
  LabelSheet | LabelSlide | LabelFormArea | LabelKeyValueArea | LabelCommentSection |
  LabelInline | LabelPictureArea

fun group_label_number :: "group_label \<Rightarrow> int" where
  "group_label_number LabelUnspecified = 0"
| "group_label_number LabelList = 1"
| "group_label_number LabelOrderedList = 2"
| "group_label_number LabelChapter = 3"
| "group_label_number LabelSection = 4"
| "group_label_number LabelSheet = 5"
| "group_label_number LabelSlide = 6"
| "group_label_number LabelFormArea = 7"
| "group_label_number LabelKeyValueArea = 8"
| "group_label_number LabelCommentSection = 9"
| "group_label_number LabelInline = 10"
| "group_label_number LabelPictureArea = 11"

datatype doc_item_label =
  ItemUnspecified | ItemCaption | ItemChart | ItemCheckboxSelected | ItemCheckboxUnselected |
  ItemCode | ItemDocumentIndex | ItemEmptyValue | ItemFootnote | ItemForm | ItemFormula |
  ItemGradingScale | ItemHandwrittenText | ItemKeyValueRegion | ItemListItem |
  ItemPageFooter | ItemPageHeader | ItemParagraph | ItemPicture | ItemReference |
  ItemSectionHeader | ItemTable | ItemText | ItemTitle | ItemFieldRegion | ItemFieldHeading |
  ItemFieldItem | ItemFieldKey | ItemFieldValue | ItemFieldHint | ItemMarker | ItemSeal |
  ItemAside | ItemAlgorithm

fun doc_item_label_number :: "doc_item_label \<Rightarrow> int" where
  "doc_item_label_number ItemUnspecified = 0"
| "doc_item_label_number ItemCaption = 1"
| "doc_item_label_number ItemChart = 2"
| "doc_item_label_number ItemCheckboxSelected = 3"
| "doc_item_label_number ItemCheckboxUnselected = 4"
| "doc_item_label_number ItemCode = 5"
| "doc_item_label_number ItemDocumentIndex = 6"
| "doc_item_label_number ItemEmptyValue = 7"
| "doc_item_label_number ItemFootnote = 8"
| "doc_item_label_number ItemForm = 9"
| "doc_item_label_number ItemFormula = 10"
| "doc_item_label_number ItemGradingScale = 11"
| "doc_item_label_number ItemHandwrittenText = 12"
| "doc_item_label_number ItemKeyValueRegion = 13"
| "doc_item_label_number ItemListItem = 14"
| "doc_item_label_number ItemPageFooter = 15"
| "doc_item_label_number ItemPageHeader = 16"
| "doc_item_label_number ItemParagraph = 17"
| "doc_item_label_number ItemPicture = 18"
| "doc_item_label_number ItemReference = 19"
| "doc_item_label_number ItemSectionHeader = 20"
| "doc_item_label_number ItemTable = 21"
| "doc_item_label_number ItemText = 22"
| "doc_item_label_number ItemTitle = 23"
| "doc_item_label_number ItemFieldRegion = 24"
| "doc_item_label_number ItemFieldHeading = 25"
| "doc_item_label_number ItemFieldItem = 26"
| "doc_item_label_number ItemFieldKey = 27"
| "doc_item_label_number ItemFieldValue = 28"
| "doc_item_label_number ItemFieldHint = 29"
| "doc_item_label_number ItemMarker = 30"
| "doc_item_label_number ItemSeal = 31"
| "doc_item_label_number ItemAside = 32"
| "doc_item_label_number ItemAlgorithm = 33"

text \<open>
  \<open>HumanLanguageLabel\<close>: a variant is its number, and the variant numbered \<open>n\<close> is named
  \<open>HUMAN_LANGUAGE_LABEL_\<close> and the n-th of these.
\<close>

definition human_language_tags :: "string list" where
  "human_language_tags = [
     ''UNSPECIFIED'', ''AA'', ''AB'', ''AE'', ''AF'', ''AK'', ''AM'', ''AN'', ''AR'', ''AS'',
     ''AV'', ''AY'', ''AZ'', ''BA'', ''BE'', ''BG'', ''BH'', ''BI'', ''BM'', ''BN'', ''BO'',
     ''BR'', ''BS'', ''CA'', ''CE'', ''CH'', ''CO'', ''CR'', ''CS'', ''CU'', ''CV'', ''CY'',
     ''DA'', ''DE'', ''DV'', ''DZ'', ''EE'', ''EL'', ''EN'', ''EO'', ''ES'', ''ET'', ''EU'',
     ''FA'', ''FF'', ''FI'', ''FJ'', ''FO'', ''FR'', ''FY'', ''GA'', ''GD'', ''GL'', ''GN'',
     ''GU'', ''GV'', ''HA'', ''HE'', ''HI'', ''HO'', ''HR'', ''HT'', ''HU'', ''HY'', ''HZ'',
     ''IA'', ''ID'', ''IE'', ''IG'', ''II'', ''IK'', ''IO'', ''IS'', ''IT'', ''IU'', ''JA'',
     ''JV'', ''KA'', ''KG'', ''KI'', ''KJ'', ''KK'', ''KL'', ''KM'', ''KN'', ''KO'', ''KR'',
     ''KS'', ''KU'', ''KV'', ''KW'', ''KY'', ''LA'', ''LB'', ''LG'', ''LI'', ''LN'', ''LO'',
     ''LT'', ''LU'', ''LV'', ''MG'', ''MH'', ''MI'', ''MK'', ''ML'', ''MN'', ''MR'', ''MS'',
     ''MT'', ''MY'', ''NA'', ''NB'', ''ND'', ''NE'', ''NG'', ''NL'', ''NN'', ''NO'', ''NR'',
     ''NV'', ''NY'', ''OC'', ''OJ'', ''OM'', ''OR'', ''OS'', ''PA'', ''PI'', ''PL'', ''PS'',
     ''PT'', ''QU'', ''RM'', ''RN'', ''RO'', ''RU'', ''RW'', ''SA'', ''SC'', ''SD'', ''SE'',
     ''SG'', ''SH'', ''SI'', ''SK'', ''SL'', ''SM'', ''SN'', ''SO'', ''SQ'', ''SR'', ''SS'',
     ''ST'', ''SU'', ''SV'', ''SW'', ''TA'', ''TE'', ''TG'', ''TH'', ''TI'', ''TK'', ''TL'',
     ''TN'', ''TO'', ''TR'', ''TS'', ''TT'', ''TW'', ''TY'', ''UG'', ''UK'', ''UR'', ''UZ'',
     ''VE'', ''VI'', ''VO'', ''WA'', ''WO'', ''XH'', ''YI'', ''YO'', ''ZA'', ''ZH'', ''ZU'']"

definition human_language_from_str_name :: "string \<Rightarrow> int option" where
  "human_language_from_str_name name =
     map_of (map (\<lambda>(n, tag). (''HUMAN_LANGUAGE_LABEL_'' @ tag, int n))
               (enumerate 0 human_language_tags)) name"

definition default_document :: "document" where
  "default_document = \<lparr>
     document_schema_name = None, document_version = None, document_name = [],
     document_origin = None, document_furniture = None, document_body = None,
     document_groups = [], document_texts = [], document_pictures = [], document_tables = [],
     document_key_value_items = [], document_form_items = [], document_field_regions = [],
     document_field_items = [], document_pages = Map.empty, document_source_meta = None,
     document_attachments = [], document_outline = [], document_meta_tags = [],
     document_structured_data = [], document_media = None, document_changes = [],
     document_anchors = [], document_email = None, document_page_styles = [],
     document_named_ranges = [], document_pivots = [], document_claims = [],
     document_parse = None, document_analyses = [], document_warnings = [],
     document_generation_traces = []\<rparr>"

definition default_document_origin :: document_origin where
  "default_document_origin = \<lparr>
     document_origin_mimetype = [], document_origin_binary_hash = 0,
     document_origin_filename = [], document_origin_uri = None, document_origin_web = None,
     document_origin_source_id = None, document_origin_mimetype_evidence = None,
     document_origin_field_sources = []\<rparr>"

definition default_group_item :: group_item where
  "default_group_item = \<lparr>
     group_item_self_ref = [], group_item_parent = None, group_item_children = [],
     group_item_content_layer = 0, group_item_meta = None, group_item_name = None,
     group_item_label = 0, group_item_label_raw = None, group_item_sheet = None\<rparr>"

definition default_base_meta :: base_meta where
  "default_base_meta = \<lparr>
     base_meta_summary = None, base_meta_language = None, base_meta_entities = None,
     base_meta_keywords = None, base_meta_topics = None, base_meta_alternatives = None,
     base_meta_custom_fields = Map.empty\<rparr>"

definition default_picture_item :: picture_item where
  "default_picture_item = \<lparr>
     picture_item_self_ref = [], picture_item_parent = None, picture_item_children = [],
     picture_item_content_layer = 0, picture_item_meta = None, picture_item_label = 0,
     picture_item_prov = [], picture_item_captions = [], picture_item_references = [],
     picture_item_footnotes = [], picture_item_image = None, picture_item_source = [],
     picture_item_comments = [], picture_item_annotations = [], picture_item_label_raw = None,
     picture_item_shape = None, picture_item_hyperlink = None, picture_item_target = None,
     picture_item_chart = None, picture_item_source_element_name = None,
     picture_item_source_namespace = None\<rparr>"

definition default_image_ref :: image_ref where
  "default_image_ref = \<lparr>
     image_ref_mimetype = [], image_ref_dpi = 0, image_ref_size = None, image_ref_uri = [],
     image_ref_size_raw = None\<rparr>"

definition default_picture_meta :: picture_meta where
  "default_picture_meta = \<lparr>
     picture_meta_summary = None, picture_meta_description = None,
     picture_meta_classification = None, picture_meta_molecule = None,
     picture_meta_tabular_chart = None, picture_meta_code = None,
     picture_meta_language = None, picture_meta_entities = None, picture_meta_keywords = None,
     picture_meta_topics = None, picture_meta_alternatives = None,
     picture_meta_accessibility_title = None, picture_meta_custom_fields = Map.empty\<rparr>"

definition default_collector_source :: collector_source where
  "default_collector_source = \<lparr>
     collector_source_collector = [], collector_source_model = None,
     collector_source_version = None, collector_source_confidence = None,
     collector_source_raw_score = None, collector_source_raw_score_kind = None,
     collector_source_raw_score_samples = None\<rparr>"

definition default_document_meta :: document_meta where
  "default_document_meta = \<lparr>
     document_meta_title = None, document_meta_authors = [], document_meta_created = None,
     document_meta_modified = None, document_meta_language = None,
     document_meta_generator = None, document_meta_keywords = [],
     document_meta_schema_location = None, document_meta_created_raw = None,
     document_meta_modified_raw = None, document_meta_identifiers = [],
     document_meta_classifications = [], document_meta_license = None,
     document_meta_funding = [], document_meta_namespaces = [],
     document_meta_schema_locations = [], document_meta_created_civil = None,
     document_meta_modified_civil = None, document_meta_subject = None,
     document_meta_modified_by = None, document_meta_printed = None,
     document_meta_printed_raw = None, document_meta_printer = None,
     document_meta_template = None, document_meta_editing_cycles = None,
     document_meta_editing_duration_seconds = None, document_meta_statistics = None,
     document_meta_user_properties = [], document_meta_format_version = None,
     document_meta_structured = None, document_meta_authoring_tool = None,
     document_meta_protection = None, document_meta_raw_metadata = None,
     document_meta_trapped = None, document_meta_field_sources = [],
     document_meta_extra = Map.empty, document_meta_description = None,
     document_meta_category = None, document_meta_content_status = None,
     document_meta_revision = None, document_meta_application_version = None,
     document_meta_company = None, document_meta_manager = None\<rparr>"

end
