(* ===== verification/DocumentFold.thy ===== *)
theory DocumentFold imports DocSchema Projection begin

text \<open>
  \<open>src/document_fold.rs\<close>: the projection of a response stream into one document.

  \<open>document_fold\<close> is the state of the fold.  A JSON pointer is a string, as in the code;
  \<open>update_group\<close> is what is done through the reference \<open>group_mut\<close> gives.  Reading a date can panic,
  so \<open>consume\<close> can.  The second half is the integrity check of a document, with its inventory.
\<close>

section \<open>Values and roots\<close>

definition COLLECTOR :: string where
  "COLLECTOR = ''epub''"

definition SCHEMA_NAME :: string where
  "SCHEMA_NAME = ''docling_document_v2''"

definition URI_SCHEME :: string where
  "URI_SCHEME = ''epub:''"

definition BODY_REF :: string where
  "BODY_REF = ''#/body''"

definition FURNITURE_REF :: string where
  "FURNITURE_REF = ''#/furniture''"

type_synonym custom_fields = "string \<Rightarrow> pb_value option"

definition reference :: "string \<Rightarrow> ref_item" where
  "reference target = \<lparr>ref_item_ref = target\<rparr>"

definition pb_text :: "string \<Rightarrow> pb_value" where
  "pb_text value = Value (Some (StringValue value))"

definition pb_flag :: "bool \<Rightarrow> pb_value" where
  "pb_flag value = Value (Some (BoolValue value))"

definition pb_number :: "f64 \<Rightarrow> pb_value" where
  "pb_number value = Value (Some (NumberValue value))"

definition pb_list :: "pb_value list \<Rightarrow> pb_value" where
  "pb_list values = Value (Some (ListValue values))"

definition pb_record :: "custom_fields \<Rightarrow> pb_value" where
  "pb_record entry = Value (Some (StructValue entry))"

definition insert_text :: "string \<Rightarrow> string \<Rightarrow> custom_fields \<Rightarrow> custom_fields" where
  "insert_text key value custom =
     (if value = [] then custom else custom(key \<mapsto> pb_text value))"

definition insert_strings :: "string \<Rightarrow> string list \<Rightarrow> custom_fields \<Rightarrow> custom_fields" where
  "insert_strings key values custom =
     (if values = [] then custom else custom(key \<mapsto> pb_list (map pb_text values)))"

definition root_group :: "string \<Rightarrow> content_layer \<Rightarrow> group_item" where
  "root_group self_ref layer = default_group_item\<lparr>group_item_self_ref := self_ref,
     group_item_content_layer := content_layer_number layer\<rparr>"

definition skeleton :: "document" where
  "skeleton = default_document\<lparr>document_schema_name := Some SCHEMA_NAME,
     document_body := Some (root_group BODY_REF LayerBody),
     document_furniture := Some (root_group FURNITURE_REF LayerFurniture)\<rparr>"

text \<open>\<open>str::get(..n)\<close>: nothing past the end or inside a character.\<close>

definition get_to :: "string \<Rightarrow> nat \<Rightarrow> string option" where
  "get_to s n =
     (if n = length s \<or> (n < length s \<and> \<not> is_cont (s ! n)) then Some (take n s) else None)"

definition is_image :: "string \<Rightarrow> bool" where
  "is_image media_type =
     (case get_to (trim media_type) 6 of
        None \<Rightarrow> False
      | Some pre \<Rightarrow> eq_ignore_ascii_case pre ''image/'')"

section \<open>Reading the package metadata\<close>

definition first_value :: "epub_info \<Rightarrow> string \<Rightarrow> string" where
  "first_value info element =
     (case find (\<lambda>entry. pbm_element entry = element) (inf_metadata info) of
        None \<Rightarrow> [] | Some entry \<Rightarrow> pbm_value entry)"

definition declared_creation :: "epub_info \<Rightarrow> string" where
  "declared_creation info =
     (let created = first_value info ''dcterms:created''
      in if created = [] then inf_date info else created)"

definition fold_refined :: "pb_metadata_entry \<Rightarrow> string \<Rightarrow> string" where
  "fold_refined entry property =
     (case find (\<lambda>r. pbr_property r = property) (pbm_refinements entry) of
        None \<Rightarrow> [] | Some r \<Rightarrow> pbr_value r)"

definition authors :: "epub_info \<Rightarrow> string list" where
  "authors info =
     (let creators = filter (\<lambda>entry. pbm_element entry = ''creator'') (inf_metadata info)
      in if creators = [] then inf_creators info
         else case partition (\<lambda>entry. fold_refined entry ''role'' = ''aut'') creators of
                (authored, rest) \<Rightarrow> map pbm_value (authored @ rest))"

definition is_credit :: "pb_metadata_entry \<Rightarrow> bool" where
  "is_credit entry \<longleftrightarrow> pbm_element entry = ''creator'' \<or> pbm_element entry = ''contributor''"

definition credit_value :: "pb_metadata_entry \<Rightarrow> pb_value" where
  "credit_value entry =
     pb_record
       (insert_text ''file_as'' (fold_refined entry ''file-as'')
         (insert_text ''role'' (fold_refined entry ''role'')
           (Map.empty(''name'' \<mapsto> pb_text (pbm_value entry),
                      ''element'' \<mapsto> pb_text (pbm_element entry)))))"

definition credits :: "epub_info \<Rightarrow> pb_value option" where
  "credits info =
     (let entries = filter (\<lambda>entry. fold_refined entry ''role'' \<noteq> [] \<or> fold_refined entry ''file-as'' \<noteq> [])
                      (filter is_credit (inf_metadata info))
      in if entries = [] then None else Some (pb_list (map credit_value entries)))"

definition language_code :: "string \<Rightarrow> int" where
  "language_code tag =
     (let primary = takeWhile (\<lambda>c. c \<noteq> CHR ''-'' \<and> c \<noteq> CHR ''_'') tag
      in if primary = [] then 0
         else case human_language_from_str_name
                     (''HUMAN_LANGUAGE_LABEL_'' @ to_ascii_uppercase primary) of
                None \<Rightarrow> 0 | Some number \<Rightarrow> number)"

section \<open>The fold\<close>

record document_fold =
  df_document :: "document"
  df_version :: string
  df_cover_href :: string
  df_source_hash :: u64
  df_chapter_refs :: "string \<Rightarrow> string option"
  df_outline :: "pb_nav_point list"
  df_overlays :: "pb_media_overlay list"

definition new_fold :: "string \<Rightarrow> document_fold" where
  "new_fold version = \<lparr>df_document = skeleton, df_version = version, df_cover_href = [],
     df_source_hash = 0, df_chapter_refs = Map.empty, df_outline = [], df_overlays = []\<rparr>"

definition record_hash :: "u64 \<Rightarrow> document_fold \<Rightarrow> document_fold" where
  "record_hash hash f = f\<lparr>df_source_hash := hash\<rparr>"

definition GROUPS :: string where
  "GROUPS = ''#/groups/''"

definition PICTURES :: string where
  "PICTURES = ''#/pictures/''"

definition group_index :: "string \<Rightarrow> document \<Rightarrow> nat option" where
  "group_index group_ref d =
     (case Option.bind (strip_prefix GROUPS group_ref) (parse_unsigned (2 ^ 64)) of
        None \<Rightarrow> None
      | Some i \<Rightarrow> if i < length (document_groups d) then Some i else None)"

definition update_group :: "string \<Rightarrow> (group_item \<Rightarrow> group_item) \<Rightarrow> document \<Rightarrow> document" where
  "update_group group_ref f d =
     (if group_ref = FURNITURE_REF then
        d\<lparr>document_furniture :=
            Some (f (opt_or (document_furniture d) (root_group FURNITURE_REF LayerFurniture)))\<rparr>
      else case group_index group_ref d of
        Some i \<Rightarrow> d\<lparr>document_groups := (document_groups d)[i := f (document_groups d ! i)]\<rparr>
      | None \<Rightarrow>
          d\<lparr>document_body := Some (f (opt_or (document_body d) (root_group BODY_REF LayerBody)))\<rparr>)"

definition link_child :: "string \<Rightarrow> string \<Rightarrow> document \<Rightarrow> document" where
  "link_child parent_ref child_ref =
     update_group parent_ref
       (\<lambda>g. g\<lparr>group_item_children := group_item_children g @ [reference child_ref]\<rparr>)"

definition collector_source_of :: "document_fold \<Rightarrow> source_type" where
  "collector_source_of f = \<lparr>source_type_source = Some (SourceTypeCollector
     (default_collector_source\<lparr>collector_source_collector := COLLECTOR,
        collector_source_version := Some (df_version f)\<rparr>))\<rparr>"

definition fold_attribute :: "document_fold \<Rightarrow> custom_fields \<Rightarrow> custom_fields" where
  "fold_attribute f custom = custom(''epub.collector'' \<mapsto>
     pb_record (Map.empty(''collector'' \<mapsto> pb_text COLLECTOR, ''version'' \<mapsto> pb_text (df_version f))))"


section \<open>What an event adds\<close>

definition is_cover :: "document_fold \<Rightarrow> string \<Rightarrow> bool" where
  "is_cover f href \<longleftrightarrow> df_cover_href f \<noteq> [] \<and> href = df_cover_href f"

definition picture_of ::
  "document_fold \<Rightarrow> string \<Rightarrow> string \<Rightarrow> string \<Rightarrow> string \<Rightarrow> string \<Rightarrow> picture_item" where
  "picture_of f self_ref parent_ref href manifest_id media_type =
     (let base = Map.empty(''epub.href'' \<mapsto> pb_text href, ''epub.manifest_id'' \<mapsto> pb_text manifest_id);
          custom = (if is_cover f href then base(''epub.cover'' \<mapsto> pb_flag True) else base)
      in default_picture_item\<lparr>
           picture_item_self_ref := self_ref,
           picture_item_parent := Some (reference parent_ref),
           picture_item_content_layer := content_layer_number LayerBody,
           picture_item_label := doc_item_label_number ItemPicture,
           picture_item_image := Some (default_image_ref\<lparr>image_ref_mimetype := media_type,
             image_ref_uri := URI_SCHEME @ href\<rparr>),
           picture_item_meta := Some (default_picture_meta\<lparr>picture_meta_custom_fields := custom\<rparr>),
           picture_item_source := [collector_source_of f]\<rparr>)"

definition add_picture ::
  "string \<Rightarrow> string \<Rightarrow> string \<Rightarrow> string \<Rightarrow> document_fold \<Rightarrow> document_fold" where
  "add_picture parent_ref href manifest_id media_type f =
     (let d = df_document f;
          self_ref = PICTURES @ nat_str (length (document_pictures d));
          d' = d\<lparr>document_pictures := document_pictures d
                   @ [picture_of f self_ref parent_ref href manifest_id media_type]\<rparr>
      in f\<lparr>df_document := link_child parent_ref self_ref d'\<rparr>)"

definition picture :: "resource_msg \<Rightarrow> document_fold \<Rightarrow> document_fold" where
  "picture r = add_picture BODY_REF (rs_href r) (rs_manifest_id r) (rs_media_type r)"

definition f_of_u32 :: "u32 \<Rightarrow> f64" where
  "f_of_u32 n = Fin False (of_nat (unat n))"

definition chapter_fields :: "document_fold \<Rightarrow> chapter_msg \<Rightarrow> custom_fields" where
  "chapter_fields f c =
     fold_attribute f
       (insert_text ''epub.media_overlay_href'' (ch_media_overlay_href c)
         (insert_strings ''epub.properties'' (ch_properties c)
           (Map.empty(''epub.idref'' \<mapsto> pb_text (ch_idref c),
                      ''epub.media_type'' \<mapsto> pb_text (ch_media_type c),
                      ''epub.linear'' \<mapsto> pb_flag (ch_linear c),
                      ''epub.spine_index'' \<mapsto> pb_number (f_of_u32 (ch_spine_index c))))))"

definition chapter_group :: "document_fold \<Rightarrow> string \<Rightarrow> chapter_msg \<Rightarrow> group_item" where
  "chapter_group f self_ref c = default_group_item\<lparr>
     group_item_self_ref := self_ref,
     group_item_parent := Some (reference BODY_REF),
     group_item_content_layer := content_layer_number LayerBody,
     group_item_meta := Some (default_base_meta\<lparr>base_meta_custom_fields := chapter_fields f c\<rparr>),
     group_item_name := Some (ch_href c),
     group_item_label := group_label_number LabelChapter\<rparr>"

definition fold_chapter :: "chapter_msg \<Rightarrow> document_fold \<Rightarrow> document_fold" where
  "fold_chapter c f =
     (let d = df_document f;
          self_ref = GROUPS @ nat_str (length (document_groups d));
          d' = d\<lparr>document_groups := document_groups d @ [chapter_group f self_ref c]\<rparr>;
          f1 = f\<lparr>df_document := link_child BODY_REF self_ref d'\<rparr>;
          f2 = (if is_image (ch_media_type c)
                then add_picture self_ref (ch_href c) (ch_idref c) (ch_media_type c) f1 else f1)
      in f2\<lparr>df_chapter_refs := (df_chapter_refs f2)(ch_href c \<mapsto> self_ref)\<rparr>)"

section \<open>The package metadata in the document\<close>

type_synonym extra = "string \<Rightarrow> string option"

definition record_extra :: "string \<Rightarrow> string \<Rightarrow> extra \<Rightarrow> extra" where
  "record_extra key value extra = (if value = [] then extra else extra(key \<mapsto> value))"

definition OPEN_ELEMENTS :: "string list" where
  "OPEN_ELEMENTS = [''rights'', ''source'', ''type'', ''format'', ''coverage'', ''relation'']"

definition title_extra :: "pb_metadata_entry \<Rightarrow> extra \<Rightarrow> extra" where
  "title_extra entry extra =
     (let kind = fold_refined entry ''title-type''
      in if kind \<noteq> [] \<and> kind \<noteq> ''main'' then record_extra (''epub.title.'' @ kind) (pbm_value entry) extra
         else extra)"

definition credit_extra :: "pb_metadata_entry \<Rightarrow> extra \<Rightarrow> extra" where
  "credit_extra entry extra =
     record_extra (''epub.file-as.'' @ pbm_value entry) (fold_refined entry ''file-as'')
       (record_extra (''epub.role.'' @ pbm_value entry) (fold_refined entry ''role'') extra)"

definition identifier_extra :: "nat \<times> pb_identifier \<Rightarrow> extra \<Rightarrow> extra" where
  "identifier_extra = (\<lambda>(index, identifier) extra.
     record_extra (''epub.identifier.'' @ nat_str index @ ''.scheme'') (pbi_scheme identifier)
       (record_extra (''epub.identifier.'' @ nat_str index) (pbi_value identifier) extra))"

definition meta_extra :: "epub_info \<Rightarrow> extra" where
  "meta_extra info =
     (let scalars = record_extra ''epub.opf_href'' (inf_opf_href info)
            (record_extra ''epub.version'' (inf_epub_version info)
            (record_extra ''epub.unique_identifier'' (inf_unique_identifier info)
            (record_extra ''epub.description'' (inf_description info)
            (record_extra ''epub.publisher'' (inf_publisher info) Map.empty))));
          opened = fold (\<lambda>element. record_extra (''epub.'' @ element) (first_value info element))
            OPEN_ELEMENTS scalars;
          titled = fold title_extra
            (filter (\<lambda>entry. pbm_element entry = ''title'') (inf_metadata info)) opened;
          credited = fold credit_extra (filter is_credit (inf_metadata info)) titled
      in fold identifier_extra (enumerate 0 (inf_identifiers info)) credited)"

text \<open>\<open>(!value.is_empty()).then(..)\<close>.\<close>

definition stated :: "string \<Rightarrow> string option" where
  "stated value = (if value = [] then None else Some value)"

definition source_meta :: "epub_info \<Rightarrow> panic + document_meta" where
  "source_meta info =
     (let created = declared_creation info; modified = inf_modified info
      in and_then (parse_date created) (\<lambda>at_created.
         and_then (parse_date modified) (\<lambda>at_modified.
           Inr (default_document_meta\<lparr>
             document_meta_title := stated (inf_title info),
             document_meta_authors := authors info,
             document_meta_created := at_created,
             document_meta_modified := at_modified,
             document_meta_language := stated (inf_language info),
             document_meta_keywords := inf_subjects info,
             document_meta_created_raw := stated created,
             document_meta_modified_raw := stated modified,
             document_meta_extra := meta_extra info\<rparr>))))"


definition identifier_value :: "pb_identifier \<Rightarrow> pb_value" where
  "identifier_value identifier =
     pb_record (insert_text ''scheme'' (pbi_scheme identifier)
       (Map.empty(''value'' \<mapsto> pb_text (pbi_value identifier))))"

definition insert_identifiers :: "pb_identifier list \<Rightarrow> custom_fields \<Rightarrow> custom_fields" where
  "insert_identifiers identifiers custom =
     (if identifiers = [] then custom
      else custom(''epub.identifiers'' \<mapsto> pb_list (map identifier_value identifiers)))"

definition insert_credits :: "epub_info \<Rightarrow> custom_fields \<Rightarrow> custom_fields" where
  "insert_credits info custom =
     (case credits info of None \<Rightarrow> custom | Some c \<Rightarrow> custom(''epub.creator_roles'' \<mapsto> c))"

definition body_fields :: "epub_info \<Rightarrow> custom_fields" where
  "body_fields info =
     (let scalars = insert_text ''epub.opf_href'' (inf_opf_href info)
            (insert_text ''epub.epub_version'' (inf_epub_version info)
            (insert_text ''epub.description'' (inf_description info)
            (insert_text ''epub.publisher'' (inf_publisher info)
            (insert_text ''epub.unique_identifier'' (inf_unique_identifier info) Map.empty))));
          listed = insert_identifiers (inf_identifiers info)
            (insert_strings ''epub.contributors'' (inf_contributors info) scalars);
          sourced = insert_text ''epub.ncx_href'' (inf_ncx_href info)
            (insert_text ''epub.nav_href'' (inf_nav_href info) listed);
          opened = fold (\<lambda>element. insert_text (''epub.'' @ element) (first_value info element))
            OPEN_ELEMENTS sourced
      in insert_credits info opened)"

definition language_meta :: "string \<Rightarrow> language_meta_field option" where
  "language_meta tag =
     (if tag = [] then None
      else Some \<lparr>language_meta_field_confidence = None,
             language_meta_field_created_by = Some COLLECTOR,
             language_meta_field_code = language_code tag,
             language_meta_field_code_raw = Some tag,
             language_meta_field_custom_fields = Map.empty\<rparr>)"

definition keywords_meta :: "string list \<Rightarrow> keywords_meta_field option" where
  "keywords_meta subjects =
     (if subjects = [] then None
      else Some \<lparr>keywords_meta_field_values = subjects, keywords_meta_field_custom_fields = Map.empty\<rparr>)"

definition body_meta :: "epub_info \<Rightarrow> base_meta" where
  "body_meta info = default_base_meta\<lparr>
     base_meta_language := language_meta (inf_language info),
     base_meta_keywords := keywords_meta (inf_subjects info),
     base_meta_custom_fields := body_fields info\<rparr>"

definition origin_of :: "document_fold \<Rightarrow> document_origin" where
  "origin_of f = default_document_origin\<lparr>
     document_origin_mimetype := EPUB_MIMETYPE,
     document_origin_binary_hash := df_source_hash f\<rparr>"

definition fold_info :: "epub_info \<Rightarrow> document_fold \<Rightarrow> panic + document_fold" where
  "fold_info info f =
     and_then (source_meta info) (\<lambda>about.
       let d = (df_document f)\<lparr>document_name := inf_title info,
                 document_origin := Some (origin_of f), document_source_meta := Some about\<rparr>
       in Inr (f\<lparr>df_cover_href := inf_cover_href info,
            df_document :=
              update_group BODY_REF (\<lambda>g. g\<lparr>group_item_meta := Some (body_meta info)\<rparr>) d\<rparr>))"

section \<open>Folding a stream\<close>

definition consume :: "'doc event \<Rightarrow> document_fold \<Rightarrow> panic + document_fold" where
  "consume ev f =
     (case ev of
        EventInfo info \<Rightarrow> fold_info info f
      | EventChapter c \<Rightarrow> Inr (fold_chapter c f)
      | EventResource r \<Rightarrow> Inr (if rs_kind r = kind_number KindImage then picture r f else f)
      | EventNavigation n \<Rightarrow> Inr (f\<lparr>df_outline := pbv_toc n\<rparr>)
      | EventMediaOverlay ov \<Rightarrow> Inr (f\<lparr>df_overlays := df_overlays f @ [ov]\<rparr>)
      | EventStatus _ \<Rightarrow> Inr f
      | EventDocument _ \<Rightarrow> Inr f)"

definition chapter_target :: "string \<Rightarrow> (string \<Rightarrow> string option) \<Rightarrow> fine_ref option" where
  "chapter_target href chapters =
     (if href = [] then None
      else map_option (\<lambda>group_ref. \<lparr>fine_ref_ref = group_ref, fine_ref_range = None\<rparr>)
             (chapters (before CHR ''#'' href)))"

definition i32_or_max :: "nat \<Rightarrow> int" where
  "i32_or_max n = (if n < 2 ^ 31 then int n else 2 ^ 31 - 1)"

definition outline_entry_of ::
  "(string \<Rightarrow> string option) \<Rightarrow> string \<Rightarrow> string \<Rightarrow> u32 \<Rightarrow> outline_entry" where
  "outline_entry_of chapters label href depth =
     \<lparr>outline_entry_title = label, outline_entry_level = i32_or_max (unat depth),
      outline_entry_page_no = None, outline_entry_target = chapter_target href chapters\<rparr>"

fun outline_walk :: "(string \<Rightarrow> string option) \<Rightarrow> pb_nav_point \<Rightarrow> outline_entry list" where
  "outline_walk chapters (PbNavPoint label href depth children) =
     outline_entry_of chapters label href depth # concat (map (outline_walk chapters) children)"

definition project_outline :: "document_fold \<Rightarrow> document_fold" where
  "project_outline f =
     (let d = df_document f
      in f\<lparr>df_outline := [],
           df_document := d\<lparr>document_outline := document_outline d
             @ concat (map (outline_walk (df_chapter_refs f)) (df_outline f))\<rparr>\<rparr>)"

definition cue_value :: "pb_cue \<Rightarrow> pb_value" where
  "cue_value cue =
     pb_record (insert_text ''id'' (pbc_identifier cue)
       (Map.empty(''text_href'' \<mapsto> pb_text (pbc_text_href cue),
                  ''audio_href'' \<mapsto> pb_text (pbc_audio_href cue),
                  ''start_time'' \<mapsto> pb_number (pbc_start_time cue),
                  ''end_time'' \<mapsto> pb_number (pbc_end_time cue))))"

definition set_cues :: "pb_value \<Rightarrow> group_item \<Rightarrow> group_item" where
  "set_cues cues g =
     (case group_item_meta g of
        None \<Rightarrow> g
      | Some m \<Rightarrow>
          g\<lparr>group_item_meta := Some (m\<lparr>base_meta_custom_fields :=
              (base_meta_custom_fields m)(''epub.media_overlay_cues'' \<mapsto> cues)\<rparr>)\<rparr>)"

definition attach_cues ::
  "(string \<Rightarrow> string option) \<Rightarrow> pb_media_overlay \<Rightarrow> document \<Rightarrow> document" where
  "attach_cues chapters ov d =
     (case chapters (pbo_chapter_href ov) of
        None \<Rightarrow> d
      | Some group_ref \<Rightarrow> update_group group_ref (set_cues (pb_list (map cue_value (pbo_cues ov)))) d)"

definition narration_end :: "pb_media_overlay \<Rightarrow> f64" where
  "narration_end ov =
     f_mul (foldl f_max f_zero (map pbc_end_time (pbo_cues ov))) (Fin False 1000)"

definition project_overlays :: "document_fold \<Rightarrow> document_fold" where
  "project_overlays f =
     (let narration_ms = foldl (\<lambda>ms ov. f_max ms (narration_end ov)) f_zero (df_overlays f);
          d = fold (attach_cues (df_chapter_refs f)) (df_overlays f) (df_document f)
      in f\<lparr>df_overlays := [],
           df_document :=
             (if f_lt f_zero narration_ms
              then d\<lparr>document_media := Some \<lparr>media_meta_duration_ms = Some narration_ms,
                     media_meta_speakers = [], media_meta_codec = None\<rparr>\<rparr>
              else d)\<rparr>)"

definition take_document :: "document_fold \<Rightarrow> document \<times> document_fold" where
  "take_document f =
     (let f' = project_overlays (project_outline f)
      in (df_document f', f'\<lparr>df_cover_href := [], df_chapter_refs := Map.empty,
            df_document := skeleton\<rparr>))"


text \<open>The fold as the driver drives it.\<close>

definition document_projection :: "(document_fold, document) projection" where
  "document_projection =
     \<lparr>pj_consume = consume, pj_take = take_document, pj_set_source_hash = record_hash\<rparr>"

section \<open>The integrity check\<close>

record inventory =
  inv_errors :: "message list"
  inv_refs :: "string set"
  inv_down :: "(string \<times> string) list"
  inv_up :: "(string \<times> string) list"

definition no_inventory :: inventory where
  "no_inventory = \<lparr>inv_errors = [], inv_refs = {}, inv_down = [], inv_up = []\<rparr>"

definition inventory_error :: "message \<Rightarrow> inventory \<Rightarrow> inventory" where
  "inventory_error e iv = iv\<lparr>inv_errors := inv_errors iv @ [e]\<rparr>"

definition inventory_edges :: "string \<Rightarrow> ref_item list \<Rightarrow> inventory \<Rightarrow> inventory" where
  "inventory_edges parent_ref children iv =
     iv\<lparr>inv_down := inv_down iv @ map (\<lambda>child. (parent_ref, ref_item_ref child)) children\<rparr>"

definition inventory_ref :: "string \<Rightarrow> inventory \<Rightarrow> inventory" where
  "inventory_ref self_ref iv =
     (let iv' = iv\<lparr>inv_refs := insert self_ref (inv_refs iv)\<rparr>
      in if self_ref \<in> inv_refs iv
         then inventory_error [Lit ''duplicate self_ref '', Str self_ref] iv' else iv')"

definition inventory_parent :: "string \<Rightarrow> ref_item option \<Rightarrow> inventory \<Rightarrow> inventory" where
  "inventory_parent self_ref parent iv =
     (case parent of
        Some p \<Rightarrow> iv\<lparr>inv_up := inv_up iv @ [(self_ref, ref_item_ref p)]\<rparr>
      | None \<Rightarrow> inventory_error [Str self_ref, Lit '' has no parent, so nothing reaches it''] iv)"

type_synonym item_links = "string \<times> ref_item list \<times> ref_item option"

definition inventory_item :: "item_links \<Rightarrow> inventory \<Rightarrow> inventory" where
  "inventory_item = (\<lambda>(self_ref, children, parent) iv.
     if self_ref = [] then inventory_error [Lit ''item with an empty self_ref''] iv
     else inventory_parent self_ref parent
            (inventory_edges self_ref children (inventory_ref self_ref iv)))"

definition inventory_root :: "string \<times> group_item option \<Rightarrow> inventory \<Rightarrow> inventory" where
  "inventory_root = (\<lambda>(root_ref, group) iv.
     case group of
       None \<Rightarrow> inventory_error [Lit ''the document has no '', Str root_ref, Lit '' group''] iv
     | Some g \<Rightarrow>
         let inv1 = iv\<lparr>inv_refs := insert root_ref (inv_refs iv)\<rparr>;
             inv2 = (if group_item_self_ref g \<noteq> root_ref
                     then inventory_error [Lit ''the '', Str root_ref, Lit '' group calls itself '',
                            Dbg (group_item_self_ref g)] inv1
                     else inv1)
         in inventory_edges root_ref (group_item_children g) inv2)"

definition base_links :: "text_item_base option \<Rightarrow> item_links option" where
  "base_links = map_option (\<lambda>b.
     (text_item_base_self_ref b, text_item_base_children b, text_item_base_parent b))"

definition text_base :: "base_text_item \<Rightarrow> item_links option" where
  "text_base item =
     (case base_text_item_item item of
        None \<Rightarrow> None
      | Some (BaseTextItemTitle t) \<Rightarrow> base_links (title_item_base t)
      | Some (BaseTextItemSectionHeader t) \<Rightarrow> base_links (section_header_item_base t)
      | Some (BaseTextItemListItem t) \<Rightarrow> base_links (list_item_msg_base t)
      | Some (BaseTextItemFormula t) \<Rightarrow> base_links (formula_item_base t)
      | Some (BaseTextItemText t) \<Rightarrow> base_links (text_item_base t)
      | Some (BaseTextItemFieldHeading t) \<Rightarrow> base_links (field_heading_item_base t)
      | Some (BaseTextItemFieldValue t) \<Rightarrow> base_links (field_value_item_base t)
      | Some (BaseTextItemCode t) \<Rightarrow>
          Some (code_item_self_ref t, code_item_children t, code_item_parent t))"

definition inventory_text :: "base_text_item \<Rightarrow> inventory \<Rightarrow> inventory" where
  "inventory_text item iv =
     (case text_base item of
        None \<Rightarrow> inventory_error [Lit ''text item with an unset variant''] iv
      | Some links \<Rightarrow> inventory_item links iv)"

definition group_links :: "group_item \<Rightarrow> item_links" where
  "group_links g = (group_item_self_ref g, group_item_children g, group_item_parent g)"

definition picture_links :: "picture_item \<Rightarrow> item_links" where
  "picture_links p = (picture_item_self_ref p, picture_item_children p, picture_item_parent p)"

definition table_links :: "table_item \<Rightarrow> item_links" where
  "table_links t = (table_item_self_ref t, table_item_children t, table_item_parent t)"

definition down_errors :: "inventory \<Rightarrow> message list" where
  "down_errors iv =
     concat (map (\<lambda>(parent, child).
       if child \<notin> inv_refs iv
       then [[Lit ''child '', Str child, Lit '' of '', Str parent, Lit '' does not resolve'']]
       else []) (inv_down iv))"

definition up_errors :: "inventory \<Rightarrow> message list" where
  "up_errors iv =
     concat (map (\<lambda>(child, parent).
       if parent \<notin> inv_refs iv
       then [[Lit ''parent '', Str parent, Lit '' of '', Str child, Lit '' does not resolve'']]
       else if (parent, child) \<notin> set (inv_down iv)
       then [[Str parent, Lit '' does not list its child '', Str child]]
       else []) (inv_up iv))"

definition inventory_finish :: "inventory \<Rightarrow> message list" where
  "inventory_finish iv = inv_errors iv @ down_errors iv @ up_errors iv"

definition integrity_errors :: "document \<Rightarrow> message list" where
  "integrity_errors d =
     (let inv1 = fold inventory_root
            [(BODY_REF, document_body d), (FURNITURE_REF, document_furniture d)] no_inventory;
          inv2 = fold (inventory_item \<circ> group_links) (document_groups d) inv1;
          inv3 = fold inventory_text (document_texts d) inv2;
          inv4 = fold (inventory_item \<circ> picture_links) (document_pictures d) inv3;
          inv5 = fold (inventory_item \<circ> table_links) (document_tables d) inv4
      in inventory_finish inv5)"

end
