(* ===== verification/FoldIntegrity.thy ===== *)
theory FoldIntegrity imports DocumentFold begin

text \<open>
  What \<open>integrity_errors\<close> accepts, and that a folded document is accepted: the graph of references
  as a predicate, the invariant of the fold, and the arena a stream of events is folded into.
\<close>

section \<open>What the check accepts\<close>

definition text_links :: "base_text_item \<Rightarrow> item_links" where
  "text_links item = the (text_base item)"

definition links_of :: "document \<Rightarrow> item_links list" where
  "links_of d = map group_links (document_groups d) @ map text_links (document_texts d)
     @ map picture_links (document_pictures d) @ map table_links (document_tables d)"

definition root_links :: "document \<Rightarrow> item_links list" where
  "root_links d =
     (case document_body d of None \<Rightarrow> [] | Some g \<Rightarrow> [(BODY_REF, group_item_children g, None)])
     @ (case document_furniture d of None \<Rightarrow> [] | Some g \<Rightarrow> [(FURNITURE_REF, group_item_children g, None)])"

text \<open>
  A document is well linked when its two roots are there under their own names, every text has a
  variant, every item has a name of its own, what is listed as a child exists, and every item names
  a parent that exists and lists it.
\<close>

definition named_root :: "string \<Rightarrow> group_item option \<Rightarrow> bool" where
  "named_root name r \<longleftrightarrow> (\<exists>g. r = Some g \<and> group_item_self_ref g = name)"

definition well_linked :: "document \<Rightarrow> bool" where
  "well_linked d \<longleftrightarrow>
     named_root BODY_REF (document_body d) \<and> named_root FURNITURE_REF (document_furniture d)
     \<and> (\<forall>t\<in>set (document_texts d). text_base t \<noteq> None)
     \<and> distinct (map fst (root_links d @ links_of d))
     \<and> (\<forall>(self_ref, children, parent)\<in>set (links_of d). self_ref \<noteq> [])
     \<and> (\<forall>(self_ref, children, parent)\<in>set (root_links d @ links_of d).
          \<forall>child\<in>set children. ref_item_ref child \<in> fst ` set (root_links d @ links_of d))
     \<and> (\<forall>(self_ref, children, parent)\<in>set (links_of d).
          \<exists>(parent_ref, siblings, grandparent)\<in>set (root_links d @ links_of d).
            parent = Some (reference parent_ref) \<and> reference self_ref \<in> set siblings)"

definition clean :: "item_links list \<Rightarrow> string set \<Rightarrow> bool" where
  "clean links refs \<longleftrightarrow>
     distinct (map fst links) \<and> fst ` set links \<inter> refs = {} \<and> [] \<notin> fst ` set links
     \<and> (\<forall>l\<in>set links. snd (snd l) \<noteq> None)"

definition down_of :: "item_links \<Rightarrow> (string \<times> string) list" where
  "down_of = (\<lambda>(self_ref, children, parent). map (\<lambda>c. (self_ref, ref_item_ref c)) children)"

definition up_of :: "item_links \<Rightarrow> string \<times> string" where
  "up_of = (\<lambda>(self_ref, children, parent). (self_ref, ref_item_ref (the parent)))"

lemmas inventory_defs = inventory_item_def inventory_parent_def inventory_edges_def
  inventory_ref_def inventory_error_def Let_def

text \<open>One item adds errors, or its name and its links.\<close>

lemma item_clean:
  "inv_errors (inventory_item l iv) = [] \<longleftrightarrow>
     inv_errors iv = [] \<and> fst l \<noteq> [] \<and> fst l \<notin> inv_refs iv \<and> snd (snd l) \<noteq> None"
proof -
  obtain r cs p where l: "l = (r, cs, p)" by (cases l)
  show ?thesis by (cases p; cases "r \<in> inv_refs iv") (simp_all add: l inventory_defs)
qed

lemma item_effect:
  assumes "inv_errors (inventory_item l iv) = []"
  shows "inv_refs (inventory_item l iv) = insert (fst l) (inv_refs iv)
    \<and> inv_down (inventory_item l iv) = inv_down iv @ down_of l
    \<and> inv_up (inventory_item l iv) = inv_up iv @ [up_of l]"
proof -
  obtain r cs p where l: "l = (r, cs, p)" by (cases l)
  have "r \<noteq> []" "r \<notin> inv_refs iv" "p \<noteq> None" using assms by (simp_all add: item_clean l)
  then show ?thesis by (auto simp: l inventory_defs down_of_def up_of_def)
qed

lemma items_errors_stay: "inv_errors (fold inventory_item links iv) = [] \<Longrightarrow> inv_errors iv = []"
proof (induction links arbitrary: iv)
  case (Cons l links)
  have "inv_errors (inventory_item l iv) = []" by (rule Cons.IH) (use Cons.prems in simp)
  then show ?case by (simp add: item_clean)
qed simp

lemma texts_errors_stay: "inv_errors (fold inventory_text texts iv) = [] \<Longrightarrow> inv_errors iv = []"
proof (induction texts arbitrary: iv)
  case (Cons t texts)
  have "inv_errors (inventory_text t iv) = []" by (rule Cons.IH) (use Cons.prems in simp)
  then show ?case
    by (cases "text_base t") (simp_all add: inventory_text_def inventory_error_def item_clean)
qed simp

lemma clean_Cons:
  "clean (l # links) refs \<longleftrightarrow>
     fst l \<noteq> [] \<and> fst l \<notin> refs \<and> snd (snd l) \<noteq> None \<and> clean links (insert (fst l) refs)"
  by (auto simp: clean_def)

lemma items_clean:
  "inv_errors (fold inventory_item links iv) = [] \<longleftrightarrow> inv_errors iv = [] \<and> clean links (inv_refs iv)"
proof (induction links arbitrary: iv)
  case Nil
  then show ?case by (simp add: clean_def)
next
  case (Cons l links)
  show ?case
  proof (cases "inv_errors (inventory_item l iv) = []")
    case True
    then have "inv_errors (fold inventory_item (l # links) iv) = []
        \<longleftrightarrow> clean links (insert (fst l) (inv_refs iv))"
      using Cons.IH [of "inventory_item l iv"] item_effect [OF True] by simp
    with True item_clean [of l iv] show ?thesis unfolding clean_Cons by blast
  next
    case False
    then have "inv_errors (fold inventory_item (l # links) iv) \<noteq> []"
      using items_errors_stay [of links "inventory_item l iv"] by auto
    moreover have "\<not> (inv_errors iv = [] \<and> clean (l # links) (inv_refs iv))"
      using False item_clean [of l iv] unfolding clean_Cons by blast
    ultimately show ?thesis by blast
  qed
qed

lemma items_effect:
  assumes "inv_errors (fold inventory_item links iv) = []"
  shows "inv_refs (fold inventory_item links iv) = fst ` set links \<union> inv_refs iv
    \<and> inv_down (fold inventory_item links iv) = inv_down iv @ concat (map down_of links)
    \<and> inv_up (fold inventory_item links iv) = inv_up iv @ map up_of links"
  using assms
proof (induction links arbitrary: iv)
  case (Cons l links)
  have "inv_errors (inventory_item l iv) = []"
    using Cons.prems items_errors_stay [of links "inventory_item l iv"] by simp
  from item_effect [OF this] Cons show ?case by simp
qed simp

lemma texts_are_items:
  "\<forall>t\<in>set texts. text_base t \<noteq> None \<Longrightarrow>
     fold inventory_text texts iv = fold inventory_item (map text_links texts) iv"
  by (induction texts arbitrary: iv) (auto simp: inventory_text_def text_links_def)

lemma texts_have_variants:
  "inv_errors (fold inventory_text texts iv) = [] \<Longrightarrow> \<forall>t\<in>set texts. text_base t \<noteq> None"
proof (induction texts arbitrary: iv)
  case (Cons t texts)
  have "inv_errors (inventory_text t iv) = []"
    using texts_errors_stay [of texts "inventory_text t iv"] Cons.prems by simp
  then have "text_base t \<noteq> None"
    by (cases "text_base t") (simp_all add: inventory_text_def inventory_error_def)
  moreover have "\<forall>t\<in>set texts. text_base t \<noteq> None" by (rule Cons.IH) (use Cons.prems in simp)
  ultimately show ?case by simp
qed simp

lemma reference_ref [simp]: "ref_item_ref (reference r) = r" "reference (ref_item_ref x) = x"
  by (simp_all add: reference_def)

lemma reference_inj [simp]: "reference a = reference b \<longleftrightarrow> a = b"
  by (simp add: reference_def)

definition roots_inventory :: "document \<Rightarrow> inventory" where
  "roots_inventory d = fold inventory_root
     [(BODY_REF, document_body d), (FURNITURE_REF, document_furniture d)] no_inventory"

definition both_roots :: "document \<Rightarrow> bool" where
  "both_roots d \<longleftrightarrow>
     named_root BODY_REF (document_body d) \<and> named_root FURNITURE_REF (document_furniture d)"

lemma roots_clean: "inv_errors (roots_inventory d) = [] \<longleftrightarrow> both_roots d"
  by (cases "document_body d"; cases "document_furniture d")
    (simp_all add: roots_inventory_def inventory_root_def no_inventory_def inventory_defs
      both_roots_def named_root_def)

lemma roots_effect:
  assumes "both_roots d"
  shows "inv_refs (roots_inventory d) = fst ` set (root_links d)
    \<and> inv_down (roots_inventory d) = concat (map down_of (root_links d))
    \<and> inv_up (roots_inventory d) = []"
  using assms
  by (auto simp: roots_inventory_def inventory_root_def no_inventory_def inventory_defs both_roots_def
      named_root_def root_links_def down_of_def)

lemma root_names: "both_roots d \<Longrightarrow> map fst (root_links d) = [BODY_REF, FURNITURE_REF]"
  by (auto simp: both_roots_def named_root_def root_links_def)

text \<open>The inventory of the whole document, and what is left to check in it.\<close>

definition inventory_of :: "document \<Rightarrow> inventory" where
  "inventory_of d = fold inventory_item (links_of d) (roots_inventory d)"

lemma integrity_errors_inventory:
  assumes "\<forall>t\<in>set (document_texts d). text_base t \<noteq> None"
  shows "integrity_errors d = inventory_finish (inventory_of d)"
  unfolding integrity_errors_def inventory_of_def links_of_def Let_def roots_inventory_def [symmetric]
  by (simp add: fold_map texts_are_items [OF assms])

lemma integrity_errors_texts:
  assumes "integrity_errors d = []"
  shows "\<forall>t\<in>set (document_texts d). text_base t \<noteq> None"
proof -
  let ?iv2 = "fold (inventory_item \<circ> group_links) (document_groups d) (roots_inventory d)"
  let ?iv3 = "fold inventory_text (document_texts d) ?iv2"
  have "inv_errors (fold inventory_item (map table_links (document_tables d))
      (fold inventory_item (map picture_links (document_pictures d)) ?iv3)) = []"
    using assms unfolding integrity_errors_def Let_def roots_inventory_def [symmetric]
    by (simp add: inventory_finish_def fold_map)
  then have "inv_errors ?iv3 = []" by (blast dest: items_errors_stay)
  then show ?thesis by (rule texts_have_variants)
qed

lemma down_errors_iff: "down_errors iv = [] \<longleftrightarrow> (\<forall>(p, c)\<in>set (inv_down iv). c \<in> inv_refs iv)"
  by (auto simp: down_errors_def split: prod.splits if_splits)

lemma up_errors_iff:
  "up_errors iv = [] \<longleftrightarrow>
     (\<forall>(c, p)\<in>set (inv_up iv). p \<in> inv_refs iv \<and> (p, c) \<in> set (inv_down iv))"
  by (auto simp: up_errors_def split: if_splits)

lemma in_down_of:
  "(p, c) \<in> set (concat (map down_of links)) \<longleftrightarrow>
     (\<exists>(r, cs, q)\<in>set links. r = p \<and> reference c \<in> set cs)"
proof -
  have "(p, c) \<in> set (down_of l) \<longleftrightarrow> (case l of (r, cs, q) \<Rightarrow> r = p \<and> reference c \<in> set cs)" for l
    by (cases l) (force simp: down_of_def)
  then show ?thesis by auto
qed


lemma all_down:
  "(\<forall>(p, c)\<in>set (concat (map down_of links)). P p c) \<longleftrightarrow>
     (\<forall>(r, cs, q)\<in>set links. \<forall>c\<in>set cs. P r (ref_item_ref c))"
proof -
  have "(\<forall>(p, c)\<in>set (down_of l). P p c) \<longleftrightarrow> (case l of (r, cs, q) \<Rightarrow> \<forall>c\<in>set cs. P r (ref_item_ref c))"
    for l by (cases l) (simp add: down_of_def)
  then show ?thesis by (simp only: set_concat set_map ball_UN image_image)
qed

lemma listed_by_parent:
  assumes "q \<noteq> None"
  shows "ref_item_ref (the q) \<in> fst ` set nodes
      \<and> (ref_item_ref (the q), r) \<in> set (concat (map down_of nodes))
    \<longleftrightarrow> (\<exists>(p, ss, g)\<in>set nodes. q = Some (reference p) \<and> reference r \<in> set ss)"
proof -
  obtain x where q: "q = Some x" using assms by blast
  have eq: "q = Some (reference p) \<longleftrightarrow> p = ref_item_ref x" for p by (auto simp: q)
  have the: "the q = x" by (simp add: q)
  have named: "ref_item_ref x \<in> fst ` set nodes"
    if "\<exists>(p, ss, g)\<in>set nodes. p = ref_item_ref x \<and> reference r \<in> set ss"
    using that by (auto intro: rev_image_eqI)
  show ?thesis
    unfolding eq the in_down_of by (rule iffI, erule conjunct2, rule conjI, erule named, assumption)
qed

lemma no_errors_iff: "integrity_errors d = [] \<longleftrightarrow> well_linked d"
proof (cases "(\<forall>t\<in>set (document_texts d). text_base t \<noteq> None) \<and> both_roots d")
  case False
  have "integrity_errors d \<noteq> []"
  proof
    assume none: "integrity_errors d = []"
    then have texts: "\<forall>t\<in>set (document_texts d). text_base t \<noteq> None"
      by (rule integrity_errors_texts)
    have "inv_errors (inventory_of d) = []"
      using none by (simp add: integrity_errors_inventory [OF texts] inventory_finish_def)
    then have "inv_errors (roots_inventory d) = []"
      unfolding inventory_of_def by (rule items_errors_stay)
    with False texts roots_clean [of d] show False by blast
  qed
  with False show ?thesis by (auto simp: well_linked_def both_roots_def)
next
  case True
  let ?nodes = "root_links d @ links_of d" and ?iv = "inventory_of d"
  have roots: "both_roots d" using True by simp
  have errors: "inv_errors ?iv = [] \<longleftrightarrow> clean (links_of d) {BODY_REF, FURNITURE_REF}"
    using roots_effect [OF roots] root_names [OF roots]
    by (simp add: inventory_of_def items_clean roots_clean roots flip: set_map)
  have names: "clean (links_of d) {BODY_REF, FURNITURE_REF} \<longleftrightarrow>
      distinct (map fst ?nodes) \<and> (\<forall>(r, cs, q)\<in>set (links_of d). r \<noteq> [])
      \<and> (\<forall>(r, cs, q)\<in>set (links_of d). q \<noteq> None)"
    by (auto simp: clean_def root_names [OF roots] BODY_REF_def FURNITURE_REF_def image_iff)
  have finished: "integrity_errors d = [] \<longleftrightarrow>
      clean (links_of d) {BODY_REF, FURNITURE_REF} \<and> down_errors ?iv = [] \<and> up_errors ?iv = []"
    using True errors by (simp add: integrity_errors_inventory inventory_finish_def)
  show ?thesis
  proof (cases "clean (links_of d) {BODY_REF, FURNITURE_REF}")
    case False
    then have "\<not> well_linked d" using names by (fastforce simp: well_linked_def)
    with False finished show ?thesis by simp
  next
    case clean: True
    have effect: "inv_refs ?iv = fst ` set ?nodes"
      "inv_down ?iv = concat (map down_of ?nodes)" "inv_up ?iv = map up_of (links_of d)"
      using items_effect [of "links_of d" "roots_inventory d"] errors clean roots_effect [OF roots]
      by (auto simp: inventory_of_def)
    have down: "down_errors ?iv = [] \<longleftrightarrow>
        (\<forall>(r, cs, q)\<in>set ?nodes. \<forall>c\<in>set cs. ref_item_ref c \<in> fst ` set ?nodes)"
      unfolding down_errors_iff effect by (rule all_down)
    have some: "\<forall>(r, cs, q)\<in>set (links_of d). q \<noteq> None" using names clean by blast
    have "up_errors ?iv = [] \<longleftrightarrow>
        (\<forall>(r, cs, q)\<in>set (links_of d). ref_item_ref (the q) \<in> fst ` set ?nodes
           \<and> (ref_item_ref (the q), r) \<in> set (concat (map down_of ?nodes)))"
      unfolding up_errors_iff effect by (simp add: up_of_def case_prod_beta)
    also have "\<dots> \<longleftrightarrow> (\<forall>(r, cs, q)\<in>set (links_of d). \<exists>(p, ss, g)\<in>set ?nodes.
           q = Some (reference p) \<and> reference r \<in> set ss)"
    proof (rule ball_cong [OF refl])
      fix l assume l: "l \<in> set (links_of d)"
      obtain r cs q where eq: "l = (r, cs, q)" by (cases l)
      have "q \<noteq> None" using some l by (auto simp: eq)
      then show "(case l of (r, cs, q) \<Rightarrow> ref_item_ref (the q) \<in> fst ` set ?nodes
            \<and> (ref_item_ref (the q), r) \<in> set (concat (map down_of ?nodes)))
          = (case l of (r, cs, q) \<Rightarrow> \<exists>(p, ss, g)\<in>set ?nodes.
              q = Some (reference p) \<and> reference r \<in> set ss)"
        unfolding eq prod.case by (rule listed_by_parent)
    qed
    finally have up: "up_errors ?iv = [] \<longleftrightarrow> \<dots>" .
    show ?thesis
      using True clean names by (simp add: finished down up well_linked_def both_roots_def)
  qed
qed


text \<open>
  Property C36.  A document has no integrity error exactly when it is well linked: the check is
  complete for what it is to check, and refuses nothing that is well linked.
\<close>

theorem integrity_errors_iff: "integrity_errors d = [] \<longleftrightarrow> well_linked d"
  by (rule no_errors_iff)

section \<open>The shelf: where a stream of events puts its chapters and pictures\<close>

text \<open>
  The references of a folded document, without the items: what the body lists, what each chapter
  group lists, and which parent each picture has.  \<open>place\<close> says what an event does to it.
\<close>

record shelf =
  sf_body :: "string list"
  sf_groups :: "string list list"
  sf_pictures :: "string list"

definition bare_shelf :: shelf where
  "bare_shelf = \<lparr>sf_body = [], sf_groups = [], sf_pictures = []\<rparr>"

definition group_name :: "nat \<Rightarrow> string" where
  "group_name i = GROUPS @ nat_str i"

definition picture_name :: "nat \<Rightarrow> string" where
  "picture_name j = PICTURES @ nat_str j"

definition place_chapter :: "bool \<Rightarrow> shelf \<Rightarrow> shelf" where
  "place_chapter pictured s =
     (let group_ref = group_name (length (sf_groups s));
          picture_ref = picture_name (length (sf_pictures s))
      in if pictured
         then s\<lparr>sf_body := sf_body s @ [group_ref], sf_groups := sf_groups s @ [[picture_ref]],
                sf_pictures := sf_pictures s @ [group_ref]\<rparr>
         else s\<lparr>sf_body := sf_body s @ [group_ref], sf_groups := sf_groups s @ [[]]\<rparr>)"

definition place_picture :: "shelf \<Rightarrow> shelf" where
  "place_picture s = s\<lparr>sf_body := sf_body s @ [picture_name (length (sf_pictures s))],
     sf_pictures := sf_pictures s @ [BODY_REF]\<rparr>"

definition place :: "'doc event \<Rightarrow> shelf \<Rightarrow> shelf" where
  "place ev s =
     (case ev of
        EventChapter c \<Rightarrow> place_chapter (is_image (ch_media_type c)) s
      | EventResource r \<Rightarrow> if rs_kind r = kind_number KindImage then place_picture s else s
      | _ \<Rightarrow> s)"

text \<open>A shelf is sound when everything on it exists and is where it says it is.\<close>

definition on_shelf :: "shelf \<Rightarrow> string \<Rightarrow> bool" where
  "on_shelf s r \<longleftrightarrow>
     (\<exists>i<length (sf_groups s). r = group_name i) \<or> (\<exists>j<length (sf_pictures s). r = picture_name j)"

definition housed :: "shelf \<Rightarrow> nat \<Rightarrow> bool" where
  "housed s j \<longleftrightarrow>
     (sf_pictures s ! j = BODY_REF \<and> picture_name j \<in> set (sf_body s))
     \<or> (\<exists>i<length (sf_groups s). sf_pictures s ! j = group_name i
          \<and> picture_name j \<in> set (sf_groups s ! i))"

definition sound_shelf :: "shelf \<Rightarrow> bool" where
  "sound_shelf s \<longleftrightarrow>
     (\<forall>r\<in>set (sf_body s). on_shelf s r) \<and> (\<forall>cs\<in>set (sf_groups s). \<forall>r\<in>set cs. on_shelf s r)
     \<and> (\<forall>i<length (sf_groups s). group_name i \<in> set (sf_body s))
     \<and> (\<forall>j<length (sf_pictures s). housed s j)"

lemma sound_bare: "sound_shelf bare_shelf"
  by (simp add: sound_shelf_def bare_shelf_def)

text \<open>What only grows: names stay on the shelf and pictures stay housed.\<close>

definition extends :: "shelf \<Rightarrow> shelf \<Rightarrow> bool" where
  "extends s s' \<longleftrightarrow>
     (\<exists>more. sf_body s' = sf_body s @ more) \<and> (\<exists>more. sf_groups s' = sf_groups s @ more)
     \<and> (\<exists>more. sf_pictures s' = sf_pictures s @ more)"

lemma on_shelf_extends: "extends s s' \<Longrightarrow> on_shelf s r \<Longrightarrow> on_shelf s' r"
  unfolding extends_def on_shelf_def by (metis length_append trans_less_add1)

lemma housed_extends:
  assumes "extends s s'" and "housed s j" and "j < length (sf_pictures s)"
  shows "housed s' j"
proof -
  obtain bs gs ps where eq: "sf_body s' = sf_body s @ bs" "sf_groups s' = sf_groups s @ gs"
    "sf_pictures s' = sf_pictures s @ ps" using assms(1) by (auto simp: extends_def)
  have "(sf_groups s @ gs) ! i = sf_groups s ! i" if "i < length (sf_groups s)" for i
    using that by (simp add: nth_append)
  with assms(2,3) show ?thesis
    unfolding housed_def eq by (simp add: nth_append) (metis trans_less_add1)
qed

lemma sound_extends:
  assumes "sound_shelf s" and "extends s s'"
    and "\<And>r. r \<in> set (drop (length (sf_body s)) (sf_body s')) \<Longrightarrow> on_shelf s' r"
    and "\<And>cs r. cs \<in> set (drop (length (sf_groups s)) (sf_groups s')) \<Longrightarrow> r \<in> set cs \<Longrightarrow> on_shelf s' r"
    and "\<And>i. length (sf_groups s) \<le> i \<Longrightarrow> i < length (sf_groups s') \<Longrightarrow> group_name i \<in> set (sf_body s')"
    and "\<And>j. length (sf_pictures s) \<le> j \<Longrightarrow> j < length (sf_pictures s') \<Longrightarrow> housed s' j"
  shows "sound_shelf s'"
proof -
  obtain bs gs where eq: "sf_body s' = sf_body s @ bs" "sf_groups s' = sf_groups s @ gs"
    using assms(2) by (auto simp: extends_def)
  have "\<forall>r\<in>set (sf_body s'). on_shelf s' r"
    using assms(1,3) on_shelf_extends [OF assms(2)] by (auto simp: eq sound_shelf_def)
  moreover have "\<forall>cs\<in>set (sf_groups s'). \<forall>r\<in>set cs. on_shelf s' r"
    using assms(1,4) on_shelf_extends [OF assms(2)] by (auto simp: eq sound_shelf_def)
  moreover have "\<forall>i<length (sf_groups s'). group_name i \<in> set (sf_body s')"
  proof (intro allI impI)
    fix i assume "i < length (sf_groups s')"
    then show "group_name i \<in> set (sf_body s')"
      using assms(1) assms(5) [of i] by (cases "i < length (sf_groups s)") (auto simp: eq sound_shelf_def)
  qed
  moreover have "\<forall>j<length (sf_pictures s'). housed s' j"
  proof (intro allI impI)
    fix j assume "j < length (sf_pictures s')"
    then show "housed s' j"
      using assms(1) assms(6) [of j] housed_extends [OF assms(2)]
      by (cases "j < length (sf_pictures s)") (auto simp: sound_shelf_def)
  qed
  ultimately show ?thesis by (simp add: sound_shelf_def)
qed

lemma last_index: "n \<le> i \<Longrightarrow> i < Suc n \<Longrightarrow> i = n"
  by simp

lemma sound_place_chapter:
  assumes "sound_shelf s"
  shows "sound_shelf (place_chapter pictured s)"
proof (cases pictured)
  case True
  show ?thesis
    by (rule sound_extends [OF assms])
      (use True in \<open>auto simp: place_chapter_def Let_def extends_def on_shelf_def housed_def
        dest!: last_index\<close>)
next
  case False
  show ?thesis
    by (rule sound_extends [OF assms])
      (use False in \<open>auto simp: place_chapter_def Let_def extends_def on_shelf_def dest!: last_index\<close>)
qed

lemma sound_place_picture: "sound_shelf s \<Longrightarrow> sound_shelf (place_picture s)"
  by (erule sound_extends)
    (auto simp: place_picture_def extends_def on_shelf_def housed_def dest!: last_index)

lemma sound_place: "sound_shelf s \<Longrightarrow> sound_shelf (place ev s)"
  by (cases ev) (simp_all add: place_def sound_place_chapter sound_place_picture)

lemma sound_places: "sound_shelf s \<Longrightarrow> sound_shelf (fold place evs s)"
  by (induction evs arbitrary: s) (simp_all add: sound_place)


section \<open>The fold follows the shelf\<close>

definition row_of :: "item_links \<Rightarrow> string \<times> string list \<times> string option" where
  "row_of = (\<lambda>(self_ref, children, parent).
     (self_ref, map ref_item_ref children, map_option ref_item_ref parent))"

definition root_row :: "string \<Rightarrow> string list \<Rightarrow> group_item option \<Rightarrow> bool" where
  "root_row name children r \<longleftrightarrow>
     (\<exists>g. r = Some g \<and> group_item_self_ref g = name
        \<and> map ref_item_ref (group_item_children g) = children)"

definition shaped :: "document \<Rightarrow> shelf \<Rightarrow> bool" where
  "shaped d s \<longleftrightarrow>
     root_row BODY_REF (sf_body s) (document_body d) \<and> root_row FURNITURE_REF [] (document_furniture d)
     \<and> document_texts d = [] \<and> document_tables d = []
     \<and> map (row_of \<circ> group_links) (document_groups d)
         = map (\<lambda>(i, cs). (group_name i, cs, Some BODY_REF)) (enumerate 0 (sf_groups s))
     \<and> map (row_of \<circ> picture_links) (document_pictures d)
         = map (\<lambda>(j, p). (picture_name j, [], Some p)) (enumerate 0 (sf_pictures s))"

lemma shaped_lengths:
  assumes "shaped d s"
  shows "length (document_groups d) = length (sf_groups s)"
    "length (document_pictures d) = length (sf_pictures s)"
proof -
  have "length (map (row_of \<circ> group_links) (document_groups d)) = length (sf_groups s)"
    "length (map (row_of \<circ> picture_links) (document_pictures d)) = length (sf_pictures s)"
    using assms unfolding shaped_def by (metis length_map length_enumerate)+
  then show "length (document_groups d) = length (sf_groups s)"
    "length (document_pictures d) = length (sf_pictures s)" by simp_all
qed

lemma shaped_skeleton: "shaped skeleton bare_shelf"
  by (simp add: shaped_def skeleton_def bare_shelf_def root_row_def root_group_def
      default_document_def default_group_item_def)

text \<open>Which group a reference of the fold updates.\<close>

lemma group_index_body [simp]: "group_index BODY_REF d = None"
  by (simp add: group_index_def strip_prefix_def GROUPS_def BODY_REF_def)

lemma group_index_name:
  "i < length (document_groups d) \<Longrightarrow> i < 2 ^ 64 \<Longrightarrow> group_index (group_name i) d = Some i"
  using parse_nat_str [of i "2 ^ 64"]
  by (simp add: group_index_def strip_prefix_def group_name_def)

lemma group_name_not_root [simp]: "group_name i \<noteq> FURNITURE_REF" "group_name i \<noteq> BODY_REF"
  by (simp_all add: group_name_def GROUPS_def FURNITURE_REF_def BODY_REF_def)

lemma body_not_furniture [simp]: "BODY_REF \<noteq> FURNITURE_REF"
  by (simp add: BODY_REF_def FURNITURE_REF_def)

lemma update_group_body:
  "document_body d = Some b \<Longrightarrow> update_group BODY_REF f d = d\<lparr>document_body := Some (f b)\<rparr>"
  by (simp add: update_group_def)

lemma update_group_name:
  "i < length (document_groups d) \<Longrightarrow> i < 2 ^ 64 \<Longrightarrow>
     update_group (group_name i) f d = d\<lparr>document_groups := (document_groups d)[i := f (document_groups d ! i)]\<rparr>"
  by (simp add: update_group_def group_index_name)

lemma shaped_update:
  assumes "shaped d s" and "\<And>g. group_links (f g) = group_links g"
  shows "shaped (update_group r f d) s"
proof -
  have self: "group_item_self_ref (f g) = group_item_self_ref g"
    and children: "group_item_children (f g) = group_item_children g" for g
    using assms(2) [of g] by (simp_all add: group_links_def)
  show ?thesis
  proof (cases "group_index r d")
    case None
    then show ?thesis
      using assms(1) by (auto simp: shaped_def update_group_def root_row_def opt_or_def self children)
  next
    case (Some i)
    have "map (row_of \<circ> group_links) ((document_groups d)[i := f (document_groups d ! i)])
        = map (row_of \<circ> group_links) (document_groups d)"
      by (simp add: map_update assms(2)) (metis comp_apply list_update_id map_update)
    with Some assms(1) show ?thesis
      by (auto simp: shaped_def update_group_def root_row_def opt_or_def self children)
  qed
qed


lemma picture_row:
  "row_of (picture_links (picture_of f self_ref parent_ref href manifest_id media_type))
     = (self_ref, [], Some parent_ref)"
  by (simp add: picture_of_def picture_links_def row_of_def default_picture_item_def Let_def)

lemma shaped_add_picture_body:
  assumes "shaped (df_document f) s"
  shows "shaped (df_document (add_picture BODY_REF href manifest_id media_type f)) (place_picture s)"
proof -
  obtain b where b: "document_body (df_document f) = Some b" "group_item_self_ref b = BODY_REF"
    "map ref_item_ref (group_item_children b) = sf_body s"
    using assms by (auto simp: shaped_def root_row_def)
  let ?d = "df_document f"
  let ?pic = "picture_of f (PICTURES @ nat_str (length (document_pictures ?d))) BODY_REF
    href manifest_id media_type"
  have "document_body (?d\<lparr>document_pictures := document_pictures ?d @ [?pic]\<rparr>) = Some b" by (simp add: b)
  from update_group_body [OF this] show ?thesis
    using assms b shaped_lengths [OF assms]
    by (simp add: add_picture_def Let_def link_child_def shaped_def place_picture_def root_row_def
        enumerate_append_eq picture_row picture_name_def)
qed

lemma linked_row:
  "row_of (group_links (g\<lparr>group_item_children := group_item_children g @ [reference r]\<rparr>)) =
     (case row_of (group_links g) of (n, cs, p) \<Rightarrow> (n, cs @ [r], p))"
  by (simp add: row_of_def group_links_def)

text \<open>A group that was just added is the last one.\<close>

lemma shaped_add_picture_last:
  assumes "shaped (df_document f) s" and "sf_groups s = gs @ [cs]" and "length gs < 2 ^ 64"
  shows "shaped (df_document (add_picture (group_name (length gs)) href manifest_id media_type f))
    (s\<lparr>sf_groups := gs @ [cs @ [picture_name (length (sf_pictures s))]],
       sf_pictures := sf_pictures s @ [group_name (length gs)]\<rparr>)"
proof -
  let ?d = "df_document f" and ?name = "group_name (length gs)"
  note len = shaped_lengths [OF assms(1)]
  have "length (document_groups ?d) = Suc (length gs)" using len assms(2) by simp
  then obtain groups g where d: "document_groups ?d = groups @ [g]" "length groups = length gs"
    by (metis length_append_singleton length_Suc_conv_rev)
  let ?pic = "picture_of f (PICTURES @ nat_str (length (document_pictures ?d))) ?name
    href manifest_id media_type"
  let ?d' = "?d\<lparr>document_pictures := document_pictures ?d @ [?pic]\<rparr>"
  have "length gs < length (document_groups ?d')" by (simp add: d)
  from update_group_name [OF this assms(3)] show ?thesis
    using assms(1,2) len d
    by (simp add: add_picture_def Let_def link_child_def shaped_def enumerate_append_eq picture_row
        picture_name_def list_update_append nth_append linked_row)
qed

lemma chapter_row: "row_of (group_links (chapter_group f self_ref c)) = (self_ref, [], Some BODY_REF)"
  by (simp add: chapter_group_def group_links_def row_of_def default_group_item_def)

lemma shaped_fold_chapter:
  assumes "shaped (df_document f) s" and "length (sf_groups s) < 2 ^ 64"
  shows "shaped (df_document (fold_chapter c f)) (place_chapter (is_image (ch_media_type c)) s)"
proof -
  let ?d = "df_document f" and ?n = "length (sf_groups s)"
  let ?name = "group_name ?n"
  note len = shaped_lengths [OF assms(1)]
  let ?d' = "?d\<lparr>document_groups := document_groups ?d @ [chapter_group f ?name c]\<rparr>"
  let ?f1 = "f\<lparr>df_document := link_child BODY_REF ?name ?d'\<rparr>"
  let ?s1 = "s\<lparr>sf_body := sf_body s @ [?name], sf_groups := sf_groups s @ [[]]\<rparr>"
  obtain b where b: "document_body ?d = Some b" "group_item_self_ref b = BODY_REF"
    "map ref_item_ref (group_item_children b) = sf_body s"
    using assms by (auto simp: shaped_def root_row_def)
  have "document_body ?d' = Some b" by (simp add: b)
  from update_group_body [OF this] have shaped1: "shaped (df_document ?f1) ?s1"
    using assms(1) b
    by (simp add: link_child_def shaped_def root_row_def enumerate_append_eq chapter_row)
  have "GROUPS @ nat_str (length (document_groups ?d)) = ?name" by (simp add: len group_name_def)
  then have eq: "df_document (fold_chapter c f) =
      (if is_image (ch_media_type c)
       then df_document (add_picture ?name (ch_href c) (ch_idref c) (ch_media_type c) ?f1)
       else df_document ?f1)"
    by (simp add: fold_chapter_def Let_def)
  show ?thesis
  proof (cases "is_image (ch_media_type c)")
    case True
    have "sf_groups ?s1 = sf_groups s @ [[]]" by simp
    from shaped_add_picture_last [OF shaped1 this assms(2)] True show ?thesis
      unfolding eq by (simp add: place_chapter_def Let_def)
  next
    case False
    then show ?thesis unfolding eq using shaped1 by (simp add: place_chapter_def Let_def)
  qed
qed


section \<open>Folding a stream\<close>

lemma place_groups:
  "length (sf_groups (fold place evs s)) = length (sf_groups s) + length (chapters_of evs)"
proof (induction evs arbitrary: s)
  case (Cons ev evs)
  then show ?case
    by (cases ev) (simp_all add: place_def place_chapter_def place_picture_def Let_def)
qed simp

fun is_chapter_event :: "'doc event \<Rightarrow> bool" where
  "is_chapter_event (EventChapter _) = True"
| "is_chapter_event _ = False"

lemma fold_info_document:
  assumes "fold_info info f = Inr f'"
  shows "\<exists>about. df_document f' = update_group BODY_REF (\<lambda>g. g\<lparr>group_item_meta := Some (body_meta info)\<rparr>)
      ((df_document f)\<lparr>document_name := inf_title info, document_origin := Some (origin_of f),
         document_source_meta := Some about\<rparr>)
    \<and> df_chapter_refs f' = df_chapter_refs f \<and> df_outline f' = df_outline f
    \<and> df_overlays f' = df_overlays f \<and> df_source_hash f' = df_source_hash f"
  using assms by (auto simp: fold_info_def Let_def and_then_eq_Inr)

lemma shaped_consume:
  assumes "consume ev f = Inr f'" and "shaped (df_document f) s"
    and "is_chapter_event ev \<Longrightarrow> length (sf_groups s) < 2 ^ 64"
  shows "shaped (df_document f') (place ev s)"
proof (cases ev)
  case (EventInfo info)
  with assms(1) have "fold_info info f = Inr f'" by (simp add: consume_def)
  from fold_info_document [OF this] obtain about where d:
    "df_document f' = update_group BODY_REF (\<lambda>g. g\<lparr>group_item_meta := Some (body_meta info)\<rparr>)
      ((df_document f)\<lparr>document_name := inf_title info, document_origin := Some (origin_of f),
         document_source_meta := Some about\<rparr>)" by blast
  have "shaped (df_document f') s"
    unfolding d by (rule shaped_update) (use assms(2) in \<open>simp_all add: shaped_def group_links_def\<close>)
  then show ?thesis by (simp add: EventInfo place_def)
next
  case (EventChapter c)
  with assms shaped_fold_chapter [OF assms(2), of c] show ?thesis
    by (simp add: consume_def place_def)
next
  case (EventResource r)
  with assms shaped_add_picture_body [OF assms(2)] show ?thesis
    by (auto simp: consume_def place_def picture_def)
qed (use assms in \<open>auto simp: consume_def place_def\<close>)

lemma shaped_feed:
  assumes "feed document_projection evs f = Inr f'" and "shaped (df_document f) s"
    and "length (sf_groups s) + length (chapters_of evs) \<le> 2 ^ 64"
  shows "shaped (df_document f') (fold place evs s)"
  using assms
proof (induction evs arbitrary: f s)
  case (Cons ev evs)
  then obtain f1 where step: "consume ev f = Inr f1" and rest: "feed document_projection evs f1 = Inr f'"
    by (auto simp: document_projection_def and_then_eq_Inr)
  have room: "length (sf_groups (place ev s)) + length (chapters_of evs) \<le> 2 ^ 64"
    using Cons.prems(3) place_groups [of "[ev]" s] by (cases ev) simp_all
  have "is_chapter_event ev \<Longrightarrow> length (sf_groups s) < 2 ^ 64"
    using Cons.prems(3) by (cases ev) simp_all
  with shaped_consume [OF step Cons.prems(2)] have "shaped (df_document f1) (place ev s)" by blast
  from Cons.IH [OF rest this room] show ?case by simp
qed simp


lemma shaped_attach_cues: "shaped d s \<Longrightarrow> shaped (fold (attach_cues chapters) overlays d) s"
proof (induction overlays arbitrary: d)
  case (Cons ov overlays)
  have "group_links (set_cues cues g) = group_links g" for cues g
    by (simp add: set_cues_def group_links_def split: option.splits)
  then have "shaped (attach_cues chapters ov d) s"
    using Cons.prems by (simp add: attach_cues_def shaped_update split: option.splits)
  then show ?case by (simp add: Cons.IH)
qed simp

lemma shaped_take:
  assumes "shaped (df_document f) s"
  shows "shaped (fst (take_document f)) s"
proof -
  have outlined: "shaped (df_document (project_outline f)) s"
    using assms by (simp add: project_outline_def shaped_def Let_def)
  have "shaped (fold (attach_cues (df_chapter_refs f)) (df_overlays f) (df_document (project_outline f))) s"
    using outlined by (rule shaped_attach_cues)
  then show ?thesis
    by (simp add: take_document_def project_overlays_def project_outline_def shaped_def Let_def)
qed

text \<open>A document of the shape of a sound shelf is well linked.\<close>

lemma name_inj [simp]:
  "group_name i = group_name j \<longleftrightarrow> i = j" "picture_name i = picture_name j \<longleftrightarrow> i = j"
  "group_name i \<noteq> picture_name j" "picture_name j \<noteq> group_name i"
  "picture_name j \<noteq> BODY_REF" "picture_name j \<noteq> FURNITURE_REF"
  "group_name i \<noteq> []" "picture_name j \<noteq> []"
  by (simp_all add: group_name_def picture_name_def GROUPS_def PICTURES_def BODY_REF_def FURNITURE_REF_def)

lemma rows_nth:
  assumes "map f xs = map (\<lambda>(i, y). g i y) (enumerate 0 ys)"
  shows "length xs = length ys" "i < length ys \<Longrightarrow> f (xs ! i) = g i (ys ! i)"
proof -
  have len: "length (map f xs) = length (map (\<lambda>(i, y). g i y) (enumerate 0 ys))" using assms by simp
  then show "length xs = length ys" by simp
  assume "i < length ys"
  with arg_cong [OF assms, of "\<lambda>zs. zs ! i"] len show "f (xs ! i) = g i (ys ! i)"
    by (simp add: nth_enumerate_eq)
qed

lemma shaped_nodes:
  assumes "shaped d s"
  shows "map row_of (root_links d @ links_of d) =
      [(BODY_REF, sf_body s, None), (FURNITURE_REF, [], None)]
      @ map (\<lambda>(i, cs). (group_name i, cs, Some BODY_REF)) (enumerate 0 (sf_groups s))
      @ map (\<lambda>(j, p). (picture_name j, [], Some p)) (enumerate 0 (sf_pictures s))"
proof -
  have root: "row_of (n, cs, None) = (n, map ref_item_ref cs, None)" for n cs by (simp add: row_of_def)
  show ?thesis
    using assms by (auto simp: shaped_def root_row_def root_links_def links_of_def root)
qed

text \<open>Being well linked, in terms of the rows alone.\<close>

definition linked_rows :: "(string \<times> string list \<times> string option) list \<Rightarrow> bool" where
  "linked_rows rows \<longleftrightarrow>
     distinct (map fst rows) \<and> (\<forall>(n, cs, p)\<in>set rows. \<forall>c\<in>set cs. c \<in> fst ` set rows)
     \<and> (\<forall>(n, cs, p)\<in>set (drop 2 rows). n \<noteq> []
          \<and> (\<exists>(m, siblings, q)\<in>set rows. p = Some m \<and> n \<in> set siblings))"

lemma linked_rowsD:
  "linked_rows rows \<Longrightarrow> (n, cs, p) \<in> set rows \<Longrightarrow> c \<in> set cs \<Longrightarrow> c \<in> fst ` set rows"
  "linked_rows rows \<Longrightarrow> (n, cs, p) \<in> set (drop 2 rows) \<Longrightarrow>
     n \<noteq> [] \<and> (\<exists>(m, siblings, q)\<in>set rows. p = Some m \<and> n \<in> set siblings)"
proof -
  assume rows: "linked_rows rows"
  { assume "(n, cs, p) \<in> set rows"
    with rows have "case (n, cs, p) of (n, cs, p) \<Rightarrow> \<forall>c\<in>set cs. c \<in> fst ` set rows"
      unfolding linked_rows_def by (elim conjE) (rule bspec)
    then show "c \<in> set cs \<Longrightarrow> c \<in> fst ` set rows" by simp }
  { assume "(n, cs, p) \<in> set (drop 2 rows)"
    with rows have "case (n, cs, p) of (n, cs, p) \<Rightarrow> n \<noteq> []
        \<and> (\<exists>(m, siblings, q)\<in>set rows. p = Some m \<and> n \<in> set siblings)"
      unfolding linked_rows_def by (elim conjE) (rule bspec)
    then show "n \<noteq> [] \<and> (\<exists>(m, siblings, q)\<in>set rows. p = Some m \<and> n \<in> set siblings)"
      unfolding prod.case . }
qed

lemma well_linked_rows:
  assumes "shaped d s" and "linked_rows (map row_of (root_links d @ links_of d))"
  shows "well_linked d"
proof -
  let ?nodes = "root_links d @ links_of d"
  have roots: "length (root_links d) = 2"
    using assms(1) by (auto simp: shaped_def root_row_def root_links_def)
  have first: "map fst (map row_of ?nodes) = map fst ?nodes"
    by (simp add: row_of_def case_prod_beta)
  have items: "drop 2 (map row_of ?nodes) = map row_of (links_of d)" using roots by simp
  have names: "fst ` set (map row_of ?nodes) = fst ` set ?nodes"
    using first by (metis list.set_map)
  have children: "ref_item_ref c \<in> fst ` set ?nodes"
    if "(r, cs, q) \<in> set ?nodes" "c \<in> set cs" for r cs q c
  proof -
    have "(r, map ref_item_ref cs, map_option ref_item_ref q) \<in> set (map row_of ?nodes)"
      using that(1) by (force simp: row_of_def)
    from linked_rowsD(1) [OF assms(2) this] that(2) show ?thesis unfolding names by simp
  qed
  have parents: "r \<noteq> [] \<and> (\<exists>(p, ss, g)\<in>set ?nodes. q = Some (reference p) \<and> reference r \<in> set ss)"
    if "(r, cs, q) \<in> set (links_of d)" for r cs q
  proof -
    have "(r, map ref_item_ref cs, map_option ref_item_ref q) \<in> set (drop 2 (map row_of ?nodes))"
      unfolding items using that by (force simp: row_of_def)
    from linked_rowsD(2) [OF assms(2) this]
    obtain m siblings g where r: "r \<noteq> []" and row: "(m, siblings, g) \<in> set (map row_of ?nodes)"
      and q: "map_option ref_item_ref q = Some m" and listed: "r \<in> set siblings" by blast
    obtain l where l: "l \<in> set ?nodes" "row_of l = (m, siblings, g)"
      using row unfolding set_map by (metis imageE)
    obtain p ss h where eq: "l = (p, ss, h)" by (cases l)
    have "p = m" "siblings = map ref_item_ref ss" using l(2) by (simp_all add: eq row_of_def)
    moreover have "q = Some (reference m)" using q by (cases q) auto
    ultimately show ?thesis using r listed l(1) eq by (force simp: image_iff)
  qed
  show ?thesis
    unfolding well_linked_def
  proof (intro conjI)
    show "named_root BODY_REF (document_body d)" "named_root FURNITURE_REF (document_furniture d)"
      "\<forall>t\<in>set (document_texts d). text_base t \<noteq> None"
      using assms(1) by (auto simp: shaped_def root_row_def named_root_def)
    show "distinct (map fst ?nodes)" using conjunct1 [OF assms(2) [unfolded linked_rows_def]] unfolding first .
    show "\<forall>(r, cs, q)\<in>set (links_of d). r \<noteq> []" using parents by blast
    show "\<forall>(r, cs, q)\<in>set ?nodes. \<forall>c\<in>set cs. ref_item_ref c \<in> fst ` set ?nodes"
      using children by blast
    show "\<forall>(r, cs, q)\<in>set (links_of d). \<exists>(p, ss, g)\<in>set ?nodes.
        q = Some (reference p) \<and> reference r \<in> set ss"
      using parents by blast
  qed
qed

lemma shelf_rows_set:
  "set (map (\<lambda>(i, cs). (group_name i, cs, Some BODY_REF)) (enumerate 0 gs)) =
     (\<lambda>i. (group_name i, gs ! i, Some BODY_REF)) ` {..<length gs}"
  "set (map (\<lambda>(j, p). (picture_name j, [], Some p)) (enumerate 0 ps)) =
     (\<lambda>j. (picture_name j, [], Some (ps ! j))) ` {..<length ps}"
  by (force simp: in_set_enumerate_eq image_iff)+

lemma sound_rows:
  assumes "sound_shelf s"
  shows "linked_rows
    ([(BODY_REF, sf_body s, None), (FURNITURE_REF, [], None)]
      @ map (\<lambda>(i, cs). (group_name i, cs, Some BODY_REF)) (enumerate 0 (sf_groups s))
      @ map (\<lambda>(j, p). (picture_name j, [], Some p)) (enumerate 0 (sf_pictures s)))"
    (is "linked_rows ?rows")
proof -
  have names: "map fst ?rows =
      [BODY_REF, FURNITURE_REF] @ map group_name [0..<length (sf_groups s)]
      @ map picture_name [0..<length (sf_pictures s)]"
    by (simp add: comp_def case_prod_beta flip: map_map [of group_name fst, unfolded comp_def]
        map_map [of picture_name fst, unfolded comp_def])
  have distinct: "distinct (map fst ?rows)"
    unfolding names by (auto simp: distinct_map inj_on_def dest: sym)
  have rows: "set ?rows = {(BODY_REF, sf_body s, None), (FURNITURE_REF, [], None)}
      \<union> (\<lambda>i. (group_name i, sf_groups s ! i, Some BODY_REF)) ` {..<length (sf_groups s)}
      \<union> (\<lambda>j. (picture_name j, [], Some (sf_pictures s ! j))) ` {..<length (sf_pictures s)}"
    unfolding set_append shelf_rows_set by simp
  have items: "set (drop 2 ?rows) =
      (\<lambda>i. (group_name i, sf_groups s ! i, Some BODY_REF)) ` {..<length (sf_groups s)}
      \<union> (\<lambda>j. (picture_name j, [], Some (sf_pictures s ! j))) ` {..<length (sf_pictures s)}"
    by (simp only: set_append shelf_rows_set append_Cons append_Nil drop_Suc_Cons numeral_2_eq_2 drop_0)
  have known: "on_shelf s c \<Longrightarrow> c \<in> fst ` set ?rows" for c
    unfolding rows on_shelf_def by force
  have groups_known: "c \<in> fst ` set ?rows" if "i < length (sf_groups s)" "c \<in> set (sf_groups s ! i)" for i c
    using that assms by (intro known) (auto simp: sound_shelf_def)
  have body_known: "c \<in> fst ` set ?rows" if "c \<in> set (sf_body s)" for c
    using that assms by (intro known) (auto simp: sound_shelf_def)
  have children: "\<forall>(n, cs, p)\<in>set ?rows. \<forall>c\<in>set cs. c \<in> fst ` set ?rows"
    by (subst rows) (use groups_known body_known in auto)
  have homes: "\<exists>(m, siblings, q)\<in>set ?rows. Some (sf_pictures s ! j) = Some m \<and> picture_name j \<in> set siblings"
    if "j < length (sf_pictures s)" for j
    using that assms unfolding sound_shelf_def housed_def rows by fastforce
  have bodies: "\<exists>(m, siblings, q)\<in>set ?rows. Some BODY_REF = Some m \<and> group_name i \<in> set siblings"
    if "i < length (sf_groups s)" for i
    using that assms unfolding sound_shelf_def rows by fastforce
  have parents: "case l of (n, cs, p) \<Rightarrow> n \<noteq> []
      \<and> (\<exists>(m, siblings, q)\<in>set ?rows. p = Some m \<and> n \<in> set siblings)" if "l \<in> set (drop 2 ?rows)" for l
    using that unfolding items
  proof (elim UnE imageE)
    fix i assume "l = (group_name i, sf_groups s ! i, Some BODY_REF)" "i \<in> {..<length (sf_groups s)}"
    with bodies [of i] show ?thesis by (simp only: prod.case lessThan_iff name_inj) simp
  next
    fix j assume "l = (picture_name j, [], Some (sf_pictures s ! j))" "j \<in> {..<length (sf_pictures s)}"
    with homes [of j] show ?thesis by (simp only: prod.case lessThan_iff name_inj) simp
  qed
  show ?thesis using distinct children parents unfolding linked_rows_def by blast
qed

section \<open>The chapters, the pictures and the outline\<close>

lemma feed_snoc:
  "feed pj (evs @ [ev]) f = Inr f' \<longleftrightarrow> (\<exists>f1. feed pj evs f = Inr f1 \<and> pj_consume pj ev f1 = Inr f')"
  by (induction evs arbitrary: f) (auto simp: and_then_eq_Inr)

definition group_face :: "group_item \<Rightarrow> string option \<times> int \<times> int" where
  "group_face g = (group_item_name g, group_item_label g, group_item_content_layer g)"

definition picture_face :: "picture_item \<Rightarrow> (string \<times> string) option" where
  "picture_face p = map_option (\<lambda>im. (image_ref_uri im, image_ref_mimetype im)) (picture_item_image p)"

definition images_of :: "'doc event list \<Rightarrow> (string \<times> string) list" where
  "images_of evs = List.map_filter (\<lambda>ev.
     case ev of
       EventChapter c \<Rightarrow> if is_image (ch_media_type c) then Some (ch_href c, ch_media_type c) else None
     | EventResource r \<Rightarrow>
         if rs_kind r = kind_number KindImage then Some (rs_href r, rs_media_type r) else None
     | _ \<Rightarrow> None) evs"

definition chapter_face :: "chapter_msg \<Rightarrow> string option \<times> int \<times> int" where
  "chapter_face c =
     (Some (ch_href c), group_label_number LabelChapter, content_layer_number LayerBody)"

definition image_face :: "string \<times> string \<Rightarrow> (string \<times> string) option" where
  "image_face = (\<lambda>(href, media_type). Some (URI_SCHEME @ href, media_type))"

text \<open>What an update through a reference leaves as it was.\<close>

lemma update_group_keeps:
  assumes "\<And>g. group_face (f g) = group_face g"
  shows "map group_face (document_groups (update_group r f d)) = map group_face (document_groups d)"
    and "document_pictures (update_group r f d) = document_pictures d"
    and "document_outline (update_group r f d) = document_outline d"
    and "document_origin (update_group r f d) = document_origin d"
    and "document_name (update_group r f d) = document_name d"
proof -
  have "map group_face ((document_groups d)[i := f (document_groups d ! i)])
      = map group_face (document_groups d)" for i
    by (simp add: map_update assms) (metis list_update_id map_update)
  then show "map group_face (document_groups (update_group r f d)) = map group_face (document_groups d)"
    by (simp add: update_group_def split: option.splits)
qed (simp_all add: update_group_def split: option.splits)

lemma link_child_keeps [simp]:
  "map group_face (document_groups (link_child p c d)) = map group_face (document_groups d)"
  "document_pictures (link_child p c d) = document_pictures d"
  "document_outline (link_child p c d) = document_outline d"
  "document_origin (link_child p c d) = document_origin d"
  "document_name (link_child p c d) = document_name d"
  unfolding link_child_def by (rule update_group_keeps; simp add: group_face_def)+

lemma set_cues_face [simp]: "group_face (set_cues cues g) = group_face g"
  by (simp add: set_cues_def group_face_def split: option.splits)

lemma attach_cues_keeps:
  "map group_face (document_groups (fold (attach_cues chapters) overlays d)) = map group_face (document_groups d)
   \<and> document_pictures (fold (attach_cues chapters) overlays d) = document_pictures d
   \<and> document_outline (fold (attach_cues chapters) overlays d) = document_outline d
   \<and> document_origin (fold (attach_cues chapters) overlays d) = document_origin d
   \<and> document_name (fold (attach_cues chapters) overlays d) = document_name d"
  by (induction overlays arbitrary: d)
    (simp_all add: attach_cues_def update_group_keeps split: option.splits)

lemma picture_of_face:
  "picture_face (picture_of f self_ref parent_ref href manifest_id media_type)
     = image_face (href, media_type)"
  by (simp add: picture_of_def picture_face_def image_face_def default_picture_item_def
      default_image_ref_def Let_def)

lemma chapter_group_face: "group_face (chapter_group f self_ref c) = chapter_face c"
  by (simp add: chapter_group_def group_face_def chapter_face_def default_group_item_def)

lemma add_picture_keeps [simp]:
  "map group_face (document_groups (df_document (add_picture p href manifest_id media_type f)))
     = map group_face (document_groups (df_document f))"
  "map picture_face (document_pictures (df_document (add_picture p href manifest_id media_type f)))
     = map picture_face (document_pictures (df_document f)) @ [image_face (href, media_type)]"
  "document_outline (df_document (add_picture p href manifest_id media_type f)) = document_outline (df_document f)"
  "document_origin (df_document (add_picture p href manifest_id media_type f)) = document_origin (df_document f)"
  "document_name (df_document (add_picture p href manifest_id media_type f)) = document_name (df_document f)"
  "df_outline (add_picture p href manifest_id media_type f) = df_outline f"
  "df_chapter_refs (add_picture p href manifest_id media_type f) = df_chapter_refs f"
  by (simp_all add: add_picture_def Let_def picture_of_face)

lemma fold_chapter_keeps [simp]:
  "map group_face (document_groups (df_document (fold_chapter c f)))
     = map group_face (document_groups (df_document f)) @ [chapter_face c]"
  "map picture_face (document_pictures (df_document (fold_chapter c f)))
     = map picture_face (document_pictures (df_document f))
       @ (if is_image (ch_media_type c) then [image_face (ch_href c, ch_media_type c)] else [])"
  "document_outline (df_document (fold_chapter c f)) = document_outline (df_document f)"
  "document_origin (df_document (fold_chapter c f)) = document_origin (df_document f)"
  "document_name (df_document (fold_chapter c f)) = document_name (df_document f)"
  "df_outline (fold_chapter c f) = df_outline f"
  "df_chapter_refs (fold_chapter c f)
     = (df_chapter_refs f)(ch_href c \<mapsto> group_name (length (document_groups (df_document f))))"
  by (simp_all add: fold_chapter_def Let_def chapter_group_face group_name_def)


text \<open>The table of contents folded last, and the last chapter stored under a path.\<close>

definition last_toc :: "'doc event list \<Rightarrow> pb_nav_point list" where
  "last_toc evs =
     fold (\<lambda>ev toc. case ev of EventNavigation n \<Rightarrow> pbv_toc n | _ \<Rightarrow> toc) evs []"

definition last_chapter :: "'doc event list \<Rightarrow> string \<Rightarrow> nat option" where
  "last_chapter evs path =
     find (\<lambda>i. ch_href (chapters_of evs ! i) = path) (rev [0..<length (chapters_of evs)])"

lemma last_chapter_snoc:
  "last_chapter (evs @ [EventChapter c]) path =
     (if path = ch_href c then Some (length (chapters_of evs)) else last_chapter evs path)"
proof -
  have "find (\<lambda>i. ch_href ((chapters_of evs @ [c]) ! i) = path) (rev [0..<length (chapters_of evs)])
      = find (\<lambda>i. ch_href (chapters_of evs ! i) = path) (rev [0..<length (chapters_of evs)])"
    by (rule find_cong) (auto simp: nth_append)
  then show ?thesis by (simp add: last_chapter_def nth_append)
qed

lemma last_chapter_Some:
  "last_chapter evs path = Some i \<Longrightarrow>
     i < length (chapters_of evs) \<and> ch_href (chapters_of evs ! i) = path"
  by (auto simp: last_chapter_def find_Some_iff rev_nth)

definition start_fold :: "string \<Rightarrow> u64 \<Rightarrow> document_fold" where
  "start_fold version hash = record_hash hash (new_fold version)"

lemma start_fold_fields [simp]:
  "df_document (start_fold version hash) = skeleton" "df_outline (start_fold version hash) = []"
  "df_chapter_refs (start_fold version hash) = Map.empty"
  "df_source_hash (start_fold version hash) = hash"
  by (simp_all add: start_fold_def record_hash_def new_fold_def)

lemma fold_state:
  assumes "feed document_projection evs (start_fold version hash) = Inr f"
  shows "df_outline f = last_toc evs \<and> document_outline (df_document f) = []
    \<and> map group_face (document_groups (df_document f)) = map chapter_face (chapters_of evs)
    \<and> map picture_face (document_pictures (df_document f)) = map image_face (images_of evs)
    \<and> df_chapter_refs f = (\<lambda>path. map_option group_name (last_chapter evs path))"
  using assms
proof (induction evs arbitrary: f rule: rev_induct)
  case Nil
  then show ?case
    by (auto simp: last_toc_def skeleton_def default_document_def images_of_def
        last_chapter_def map_filter_def)
next
  case (snoc ev evs)
  then obtain f1 where before: "feed document_projection evs (start_fold version hash) = Inr f1"
    and step: "consume ev f1 = Inr f"
    by (auto simp: feed_snoc document_projection_def)
  note ih = snoc.IH [OF before]
  have count: "length (document_groups (df_document f1)) = length (chapters_of evs)"
    using ih by (metis length_map)
  have images: "images_of (evs @ [ev]) = images_of evs @ images_of [ev]"
    by (simp add: images_of_def map_filter_def)
  have toc: "last_toc (evs @ [ev]) = (case ev of EventNavigation n \<Rightarrow> pbv_toc n | _ \<Rightarrow> last_toc evs)"
    by (simp add: last_toc_def split: event.splits)
  show ?case
  proof (cases ev)
    case (EventInfo info)
    with step have "fold_info info f1 = Inr f" by (simp add: consume_def)
    from fold_info_document [OF this] obtain about where d:
      "df_document f = update_group BODY_REF (\<lambda>g. g\<lparr>group_item_meta := Some (body_meta info)\<rparr>)
        ((df_document f1)\<lparr>document_name := inf_title info, document_origin := Some (origin_of f1),
           document_source_meta := Some about\<rparr>)"
      and rest: "df_chapter_refs f = df_chapter_refs f1" "df_outline f = df_outline f1" by blast
    have "group_face (g\<lparr>group_item_meta := m\<rparr>) = group_face g" for g m by (simp add: group_face_def)
    then show ?thesis
      using ih EventInfo toc rest
      by (simp add: d update_group_keeps images images_of_def map_filter_def last_chapter_def)
  next
    case (EventChapter c)
    with step have f: "f = fold_chapter c f1" by (simp add: consume_def)
    have refs: "df_chapter_refs f = (\<lambda>path. map_option group_name (last_chapter (evs @ [ev]) path))"
      using ih by (auto simp: f count EventChapter last_chapter_snoc fun_eq_iff)
    show ?thesis
      using ih toc refs
      by (simp add: EventChapter f images) (simp add: images_of_def map_filter_def)
  next
    case (EventResource r)
    with step ih toc show ?thesis
      by (auto simp: consume_def picture_def images last_chapter_def images_of_def map_filter_def)
  qed (use step ih toc in \<open>auto simp: consume_def images last_chapter_def images_of_def map_filter_def\<close>)
qed

definition shelf_of :: "document \<Rightarrow> shelf" where
  "shelf_of d = \<lparr>
     sf_body = (case document_body d of
                  None \<Rightarrow> [] | Some g \<Rightarrow> map ref_item_ref (group_item_children g)),
     sf_groups = map (\<lambda>g. map ref_item_ref (group_item_children g)) (document_groups d),
     sf_pictures = map (\<lambda>p. case picture_item_parent p of None \<Rightarrow> [] | Some r \<Rightarrow> ref_item_ref r)
                     (document_pictures d)\<rparr>"

lemma shelf_of_shaped:
  assumes "shaped d s"
  shows "shelf_of d = s"
proof -
  note len = shaped_lengths [OF assms]
  note groups = rows_nth(2) [OF conjunct1 [OF conjunct2 [OF conjunct2 [OF conjunct2 [OF conjunct2
    [OF assms [unfolded shaped_def]]]]]]]
  note pictures = rows_nth(2) [OF conjunct2 [OF conjunct2 [OF conjunct2 [OF conjunct2 [OF conjunct2
    [OF assms [unfolded shaped_def]]]]]]]
  have "map (\<lambda>g. map ref_item_ref (group_item_children g)) (document_groups d) = sf_groups s"
    by (rule nth_equalityI)
      (use len groups in \<open>auto simp: row_of_def group_links_def\<close>)
  moreover have "map (\<lambda>p. case picture_item_parent p of None \<Rightarrow> [] | Some r \<Rightarrow> ref_item_ref r)
      (document_pictures d) = sf_pictures s"
  proof (rule nth_equalityI)
    fix j assume "j < length (map (\<lambda>p. case picture_item_parent p of
      None \<Rightarrow> [] | Some r \<Rightarrow> ref_item_ref r) (document_pictures d))"
    then have j: "j < length (sf_pictures s)" by (simp add: len)
    from pictures [OF this] show "map (\<lambda>p. case picture_item_parent p of
        None \<Rightarrow> [] | Some r \<Rightarrow> ref_item_ref r) (document_pictures d) ! j = sf_pictures s ! j"
      using j by (auto simp: len row_of_def picture_links_def)
  qed (simp add: len)
  ultimately show ?thesis
    using assms by (cases s) (auto simp: shelf_of_def shaped_def root_row_def)
qed

section \<open>Properties of the folded document\<close>

lemma shaped_document:
  assumes "feed document_projection evs (start_fold version hash) = Inr f"
    and "length (chapters_of evs) \<le> 2 ^ 64"
  shows "shaped (fst (take_document f)) (fold place evs bare_shelf)"
proof -
  have "shaped (df_document (start_fold version hash)) bare_shelf" by (simp add: shaped_skeleton)
  from shaped_feed [OF assms(1) this] assms(2) have "shaped (df_document f) (fold place evs bare_shelf)"
    by (simp add: bare_shelf_def)
  then show ?thesis by (rule shaped_take)
qed

lemma sound_document:
  assumes "feed document_projection evs (start_fold version hash) = Inr f"
    and "length (chapters_of evs) \<le> 2 ^ 64"
  shows "integrity_errors (fst (take_document f)) = []"
proof -
  let ?s = "fold place evs bare_shelf"
  note shaped = shaped_document [OF assms]
  have "sound_shelf ?s" by (rule sound_places [OF sound_bare])
  from sound_rows [OF this] have "linked_rows
      (map row_of (root_links (fst (take_document f)) @ links_of (fst (take_document f))))"
    unfolding shaped_nodes [OF shaped] .
  with shaped have "well_linked (fst (take_document f))" by (rule well_linked_rows)
  then show ?thesis by (simp add: no_errors_iff)
qed

text \<open>
  Property C37.  Whatever events are folded, the document has no integrity error: every group and
  picture has a parent that exists and lists it, names are distinct and nothing dangles.
\<close>

theorem folded_document_is_sound:
  assumes "feed document_projection evs (start_fold version hash) = Inr f"
    and "length (chapters_of evs) \<le> 2 ^ 64"
  shows "integrity_errors (fst (take_document f)) = []"
  using assms by (rule sound_document)


lemma take_document_faces:
  "map group_face (document_groups (fst (take_document f))) = map group_face (document_groups (df_document f))
   \<and> document_pictures (fst (take_document f)) = document_pictures (df_document f)
   \<and> document_outline (fst (take_document f)) = document_outline (df_document f)
       @ concat (map (outline_walk (df_chapter_refs f)) (df_outline f))
   \<and> document_origin (fst (take_document f)) = document_origin (df_document f)"
  by (simp add: take_document_def project_overlays_def project_outline_def Let_def attach_cues_keeps)

text \<open>
  Property C38.  What the arena of the document is: one group for each chapter event, in order, under
  the chapter's archive path; one picture for each image, resource or chapter, in order, with a
  pointer to its bytes; and the references between them are those of the shelf, so chapters and
  loose images are listed by the body as they arrived and an image that is a chapter is in its group.
\<close>

theorem stream_becomes_arena:
  assumes "feed document_projection evs (start_fold version hash) = Inr f"
    and "length (chapters_of evs) \<le> 2 ^ 64"
  shows "map group_face (document_groups (fst (take_document f))) = map chapter_face (chapters_of evs)
    \<and> map picture_face (document_pictures (fst (take_document f))) = map image_face (images_of evs)
    \<and> shelf_of (fst (take_document f)) = fold place evs bare_shelf"
  using fold_state [OF assms(1)] take_document_faces [of f]
    shelf_of_shaped [OF shaped_document [OF assms]] by simp

lemma i32_or_max_min: "i32_or_max n = min (int n) (2 ^ 31 - 1)"
  by (auto simp: i32_or_max_def)

fun preorder :: "pb_nav_point \<Rightarrow> (string \<times> string \<times> u32) list" where
  "preorder (PbNavPoint label href depth children) = (label, href, depth) # concat (map preorder children)"

lemma outline_walk_preorder:
  "outline_walk chapters p = map (\<lambda>(label, href, depth). outline_entry_of chapters label href depth) (preorder p)"
proof (induction p)
  case (PbNavPoint label href depth children)
  then have "map (outline_walk chapters) children
      = map (\<lambda>p. map (\<lambda>(label, href, depth). outline_entry_of chapters label href depth) (preorder p)) children"
    by (intro map_cong refl)
  then show ?case by (simp only: outline_walk.simps preorder.simps list.map map_concat map_map comp_def prod.case)
qed

text \<open>
  Property C39.  The outline is the table of contents read in preorder: each entry keeps its label
  and its depth, and points at the last chapter group under the path of its link, fragment dropped,
  when the stream had such a chapter, and at nothing otherwise.  The reference never has a range, so
  the fragment is lost altogether, where the comment of \<open>chapter_target\<close> has it kept there.
\<close>

theorem outline_points_at_chapters:
  assumes "feed document_projection evs (start_fold version hash) = Inr f"
  shows "document_outline (fst (take_document f)) =
    map (\<lambda>(label, href, depth).
           \<lparr>outline_entry_title = label, outline_entry_level = min (int (unat depth)) (2 ^ 31 - 1),
            outline_entry_page_no = None,
            outline_entry_target =
              (if href = [] then None
               else map_option (\<lambda>i. \<lparr>fine_ref_ref = group_name i, fine_ref_range = None\<rparr>)
                      (last_chapter evs (before CHR ''#'' href)))\<rparr>)
      (concat (map preorder (last_toc evs)))"
proof -
  have walk: "concat (map (outline_walk chapters) ps) =
      map (\<lambda>(label, href, depth). outline_entry_of chapters label href depth) (concat (map preorder ps))"
    for chapters and ps :: "pb_nav_point list"
    by (simp only: map_concat map_map comp_def outline_walk_preorder [abs_def])
  have entry: "outline_entry_of (\<lambda>path. map_option group_name (last_chapter evs path)) label href depth =
      \<lparr>outline_entry_title = label, outline_entry_level = min (int (unat depth)) (2 ^ 31 - 1),
       outline_entry_page_no = None,
       outline_entry_target =
         (if href = [] then None
          else map_option (\<lambda>i. \<lparr>fine_ref_ref = group_name i, fine_ref_range = None\<rparr>)
                 (last_chapter evs (before CHR ''#'' href)))\<rparr>" for label href depth
    by (simp only: outline_entry_of_def chapter_target_def i32_or_max_min option.map_comp comp_def)
  show ?thesis
    using fold_state [OF assms] take_document_faces [of f] by (simp only: walk entry) simp
qed


section \<open>Panics and the hash\<close>

definition foreign_date :: "epub_info \<Rightarrow> bool" where
  "foreign_date info \<longleftrightarrow> (\<exists>c\<in>set (declared_creation info @ inf_modified info). 128 \<le> ord c)"

lemma parse_date_Inl: "parse_date raw = Inl p \<Longrightarrow> \<exists>c\<in>set raw. 128 \<le> ord c"
proof (rule ccontr)
  assume "parse_date raw = Inl p" and "\<not> (\<exists>c\<in>set raw. 128 \<le> ord c)"
  then have "list_all (\<lambda>c. ord c < 128) raw" by (auto simp: list_all_iff not_le)
  from parse_date_ascii [OF this] \<open>parse_date raw = Inl p\<close> show False by simp
qed

lemma consume_Inl:
  assumes "consume ev f = Inl p"
  shows "\<exists>info. ev = EventInfo info \<and> foreign_date info"
proof -
  obtain info where ev: "ev = EventInfo info" and "source_meta info = Inl p"
    using assms
    by (auto simp: consume_def fold_info_def Let_def and_then_def split: event.splits sum.splits)
  then have "parse_date (declared_creation info) = Inl p \<or> parse_date (inf_modified info) = Inl p"
    by (auto simp: source_meta_def Let_def and_then_def split: sum.splits)
  then show ?thesis using parse_date_Inl ev by (force simp: foreign_date_def)
qed

interpretation document: raising_at_info document_projection foreign_date
  by unfold_locales (simp add: document_projection_def consume_Inl)

lemma hash_step_inj:
  fixes h h' :: u64
  assumes "xor h a * FNV_PRIME = xor h' b * FNV_PRIME"
  shows "xor h a = xor h' b"
proof -
  have "FNV_PRIME * 0xce965057aff6957b = (1 :: u64)" by (simp add: FNV_PRIME_def)
  then have "x = x * FNV_PRIME * 0xce965057aff6957b" for x :: u64 by (simp add: mult.assoc)
  with assms show ?thesis by metis
qed

lemma xor_cancel: "xor h a = xor h b \<longleftrightarrow> a = b" for h :: u64
proof
  assume "xor h a = xor h b"
  then have "xor h (xor h a) = xor h (xor h b)" by simp
  then show "a = b" by (simp flip: xor.assoc)
qed simp

lemma hash_tail_inj:
  "fold (\<lambda>b hash. xor hash (of_nat (ord b)) * FNV_PRIME) bytes h =
   fold (\<lambda>b hash. xor hash (of_nat (ord b)) * FNV_PRIME) bytes h' \<longleftrightarrow> h = h'" for h h' :: u64
proof (induction bytes arbitrary: h h')
  case (Cons c bytes)
  have "xor h (of_nat (ord c)) * FNV_PRIME = xor h' (of_nat (ord c)) * FNV_PRIME \<longleftrightarrow> h = h'"
    using hash_step_inj [of h "of_nat (ord c)" h' "of_nat (ord c)"]
    by (auto simp: xor.commute [of _ "of_nat (ord c)"] xor_cancel)
  then show ?case by (simp add: Cons.IH)
qed simp

text \<open>
  Archives that differ in one byte have different integrity keys: every step of the
  hash is a bijection of the state for each byte.
\<close>

theorem one_byte_changes_hash:
  assumes "a \<noteq> b"
  shows "source_hash (pre @ a # post) \<noteq> source_hash (pre @ b # post)"
proof -
  have "of_nat (ord a) \<noteq> (of_nat (ord b) :: u64)"
  proof
    assume "of_nat (ord a) = (of_nat (ord b) :: u64)"
    then have "unat (of_nat (ord a) :: u64) = unat (of_nat (ord b) :: u64)" by simp
    moreover have "ord c < 2 ^ 64" for c by (rule less_trans [of _ 256]) (simp_all add: ord_def)
    ultimately have "ord a = ord b" by (simp add: unat_of_nat take_bit_nat_eq_self)
    with assms show False by (simp add: ord_def)
  qed
  then have "xor h (of_nat (ord a)) \<noteq> xor h (of_nat (ord b) :: u64)" for h
    by (simp add: xor_cancel)
  then have "xor h (of_nat (ord a)) * FNV_PRIME \<noteq> xor h (of_nat (ord b)) * FNV_PRIME" for h
    using hash_step_inj by blast
  then show ?thesis by (simp add: source_hash_def hash_tail_inj)
qed

theorem one_byte_changes_hash_witness:
  "source_hash (''PK'' @ CHR ''a'' # []) \<noteq> source_hash (''PK'' @ CHR ''b'' # [])"
  by (rule one_byte_changes_hash) simp


section \<open>Where facts end up\<close>

text \<open>A link to a chapter whose own archive path has a \<open>#\<close> is cut at it and finds nothing.\<close>

lemma hash_in_path_loses_target:
  "chapter_target ''a#1.xhtml'' (Map.empty(''a#1.xhtml'' \<mapsto> r)) = None"
  by (simp add: chapter_target_def before_def)

text \<open>The schema has typed slots for a description and for identifiers; the fold leaves them empty.\<close>

lemma typed_slots_left_empty:
  assumes "source_meta info = Inr about"
  shows "document_meta_description about = None \<and> document_meta_identifiers about = []
    \<and> document_meta_extra about = meta_extra info"
  using assms by (auto simp: source_meta_def Let_def and_then_eq_Inr default_document_meta_def)

lemma parse_date_empty: "parse_date [] = Inr None"
  by (simp add: parse_date_def trim_def trim_start.simps trim_back.simps)

text \<open>
  A typed date never stands without the book's own spelling: the twin is there exactly
  when the book states a date, and the instant, when there is one, is the one the twin reads as.
\<close>

theorem dates_keep_their_spelling:
  assumes "source_meta info = Inr about"
  shows "document_meta_created_raw about = stated (declared_creation info)
    \<and> document_meta_modified_raw about = stated (inf_modified info)
    \<and> (\<forall>t. document_meta_created about = Some t \<longrightarrow>
         (\<exists>raw. document_meta_created_raw about = Some raw \<and> parse_date raw = Inr (Some t)))
    \<and> (\<forall>t. document_meta_modified about = Some t \<longrightarrow>
         (\<exists>raw. document_meta_modified_raw about = Some raw \<and> parse_date raw = Inr (Some t)))"
  using assms parse_date_empty
  by (auto simp: source_meta_def Let_def and_then_eq_Inr stated_def)

section \<open>A small stream\<close>

lemma feed_total:
  assumes "\<And>info. EventInfo info \<in> set evs \<Longrightarrow> \<not> foreign_date info"
  shows "\<exists>f'. feed document_projection evs f = Inr f'"
  using assms
proof (induction evs arbitrary: f)
  case (Cons ev evs)
  have "consume ev f \<noteq> Inl p" for p
  proof
    assume "consume ev f = Inl p"
    from consume_Inl [OF this] obtain info where "ev = EventInfo info" "foreign_date info" by blast
    then show False using Cons.prems by simp
  qed
  then obtain f1 where step: "consume ev f = Inr f1" by (cases "consume ev f") auto
  have "\<exists>f'. feed document_projection evs f1 = Inr f'"
    by (rule Cons.IH) (use Cons.prems in simp)
  with step show ?case by (simp add: document_projection_def)
qed simp

definition sample_chapter :: "string \<Rightarrow> string \<Rightarrow> chapter_msg" where
  "sample_chapter href media_type = \<lparr>ch_spine_index = 0, ch_idref = ''c'', ch_href = href,
     ch_media_type = media_type, ch_content = [], ch_linear = True, ch_properties = [],
     ch_media_overlay_href = [], ch_primary_href = []\<rparr>"

definition sample_image :: resource_msg where
  "sample_image = \<lparr>rs_href = ''i.png'', rs_media_type = ''image/png'', rs_kind = 2, rs_content = [],
     rs_manifest_id = ''i'', rs_properties = [], rs_media_overlay_href = []\<rparr>"

text \<open>A loose image, a chapter the contents point into, and a page that is an image.\<close>

definition sample_stream :: "document event list" where
  "sample_stream =
     [EventNavigation \<lparr>pbv_source_href = ''nav.xhtml'',
        pbv_toc = [PbNavPoint ''One'' ''a.xhtml#x'' 0 []], pbv_from_ncx = False\<rparr>,
      EventResource sample_image,
      EventChapter (sample_chapter ''a.xhtml'' ''application/xhtml+xml''),
      EventChapter (sample_chapter ''p.png'' ''image/png'')]"

lemma sample_stream_feeds:
  "\<exists>f. feed document_projection sample_stream (start_fold ''1'' 7) = Inr f"
  by (rule feed_total) (simp add: sample_stream_def)

lemma sample_stream_chapters: "length (chapters_of sample_stream) \<le> 2 ^ 64"
  by (simp add: sample_stream_def)

theorem folded_document_is_sound_witness:
  "\<exists>f. feed document_projection sample_stream (start_fold ''1'' 7) = Inr f
     \<and> integrity_errors (fst (take_document f)) = []"
  using sample_stream_feeds folded_document_is_sound [OF _ sample_stream_chapters] by blast

lemma sample_images: "is_image ''image/png''" "\<not> is_image ''application/xhtml+xml''"
  by (simp_all add: is_image_def plain_text get_to_def is_cont_def eq_ignore_ascii_case_def)

theorem stream_becomes_arena_witness:
  "\<exists>f. feed document_projection sample_stream (start_fold ''1'' 7) = Inr f
     \<and> shelf_of (fst (take_document f)) =
         \<lparr>sf_body = [''#/pictures/0'', ''#/groups/0'', ''#/groups/1''],
          sf_groups = [[], [''#/pictures/1'']], sf_pictures = [''#/body'', ''#/groups/1'']\<rparr>"
proof -
  have "fold place sample_stream bare_shelf =
      \<lparr>sf_body = [''#/pictures/0'', ''#/groups/0'', ''#/groups/1''],
       sf_groups = [[], [''#/pictures/1'']], sf_pictures = [''#/body'', ''#/groups/1'']\<rparr>"
    by (simp add: sample_stream_def bare_shelf_def place_def place_chapter_def place_picture_def
        sample_images sample_image_def sample_chapter_def group_name_def picture_name_def GROUPS_def
        PICTURES_def BODY_REF_def Let_def nat_str_small)
  then show ?thesis
    using sample_stream_feeds stream_becomes_arena [OF _ sample_stream_chapters] by metis
qed

theorem outline_points_at_chapters_witness:
  "\<exists>f. feed document_projection sample_stream (start_fold ''1'' 7) = Inr f
     \<and> document_outline (fst (take_document f)) =
         [\<lparr>outline_entry_title = ''One'', outline_entry_level = 0, outline_entry_page_no = None,
           outline_entry_target = Some \<lparr>fine_ref_ref = ''#/groups/0'', fine_ref_range = None\<rparr>\<rparr>]"
proof -
  have "last_toc sample_stream = [PbNavPoint ''One'' ''a.xhtml#x'' 0 []]"
    by (simp add: last_toc_def sample_stream_def)
  moreover have "last_chapter sample_stream (before CHR ''#'' ''a.xhtml#x'') = Some 0"
    by (simp add: last_chapter_def sample_stream_def before_def sample_chapter_def)
  moreover have "group_name 0 = ''#/groups/0''"
    by (simp add: group_name_def GROUPS_def nat_str_small)
  moreover obtain f where f: "feed document_projection sample_stream (start_fold ''1'' 7) = Inr f"
    using sample_stream_feeds by blast
  ultimately show ?thesis
    using outline_points_at_chapters [OF f] by (intro exI [of _ f]) (simp add: f)
qed


definition sample_info :: epub_info where
  "sample_info = \<lparr>inf_title = ''Carol'', inf_creators = [], inf_contributors = [], inf_language = ''en'',
     inf_identifiers = [], inf_unique_identifier = [], inf_publisher = [], inf_description = [],
     inf_date = ''1843-12-19'', inf_subjects = [], inf_spine_item_count = 1, inf_opf_href = ''b.opf'',
     inf_epub_version = ''3.0'', inf_cover_href = [], inf_metadata = [], inf_modified = [],
     inf_nav_href = [], inf_ncx_href = []\<rparr>"

theorem dates_keep_their_spelling_witness:
  "\<exists>about. source_meta sample_info = Inr about
     \<and> document_meta_created_raw about = Some ''1843-12-19'' \<and> document_meta_modified_raw about = None"
proof -
  have "\<not> isl (parse_date ''1843-12-19'')"
    using parse_date_ascii [of "''1843-12-19''"] by (simp add: byte_defs)
  then have "\<exists>about. source_meta sample_info = Inr about"
    by (cases "parse_date ''1843-12-19''")
      (simp_all add: source_meta_def sample_info_def declared_creation_def first_value_def
        parse_date_empty Let_def)
  then obtain about where about: "source_meta sample_info = Inr about" by blast
  from dates_keep_their_spelling [OF this] show ?thesis
    using about
    by (simp add: sample_info_def declared_creation_def first_value_def stated_def Let_def)
qed

end
