(* ===== verification/Service.thy ===== *)
theory Service imports Driver begin

text \<open>
  \<open>src/service.rs\<close>: receiving an upload under its clocks and under the process-wide budget, the parse
  slots, the supervisor, and the service description.

  Time is \<open>nat\<close>, nanoseconds.  \<open>inbound\<close> is what the transport answers to successive reads of the
  request stream, each with the instant it is there; \<open>instant_max\<close> is the latest instant the
  platform can express.  The two tokio semaphores are counters of free permits, whose documented
  behaviour is written out: a non-waiting acquisition takes all the permits or none, and dropping
  a permit gives its share back.

  A \<open>world\<close> is the process: what is shared and the calls in progress.  \<open>step\<close> is its transition
  relation, one transition for each stretch of a handler between two awaits, so interleaved calls
  are sequences of its steps.
\<close>

section \<open>The service\<close>

definition OUTBOUND_BUFFER :: usize where
  "OUTBOUND_BUFFER = 4"

definition nanos_per_milli :: nat where
  "nanos_per_milli = 1000000"

definition seconds_long :: "nat \<Rightarrow> nat" where
  "seconds_long n = n * 1000000000"

definition CONSUMER_STALL :: nat where
  "CONSUMER_STALL = seconds_long 30"

definition DEFAULT_IDLE_TIMEOUT :: nat where
  "DEFAULT_IDLE_TIMEOUT = seconds_long 30"

definition DEFAULT_UPLOAD_TIMEOUT :: nat where
  "DEFAULT_UPLOAD_TIMEOUT = seconds_long 300"

definition FOREVER :: nat where
  "FOREVER = seconds_long (365 * 24 * 60 * 60)"

definition BUDGET_UNIT :: usize where
  "BUDGET_UNIT = 1024"

text \<open>\<open>Semaphore::MAX_PERMITS\<close>, \<open>usize::MAX >> 3\<close>; \<open>Semaphore::new\<close> panics above it.\<close>

definition MAX_PERMITS :: nat where
  "MAX_PERMITS = 2 ^ 61 - 1"

definition new_semaphore :: "nat \<Rightarrow> panic + nat" where
  "new_semaphore permits =
     (if permits > MAX_PERMITS then Inl (Panic ''Semaphore::new'') else Inr permits)"

definition div_ceil :: "nat \<Rightarrow> nat \<Rightarrow> nat" where
  "div_ceil n d = (if n mod d = 0 then n div d else n div d + 1)"

record service =
  sv_limits :: limits
  sv_slots :: nat
  sv_budget :: nat
  sv_idle_timeout :: nat
  sv_upload_timeout :: nat

definition with_metrics :: "limits \<Rightarrow> panic + service" where
  "with_metrics given =
     (let l = given\<lparr>max_buffered_upload_bytes :=
                max (max_buffered_upload_bytes given) (max_document_bytes given)\<rparr>
      in and_then (new_semaphore (max_concurrent_parses l)) (\<lambda>slots.
         and_then (new_semaphore
             (min (div_ceil (unat (max_buffered_upload_bytes l)) BUDGET_UNIT) MAX_PERMITS)) (\<lambda>pool.
         Inr \<lparr>sv_limits = l, sv_slots = slots, sv_budget = pool,
              sv_idle_timeout = DEFAULT_IDLE_TIMEOUT, sv_upload_timeout = DEFAULT_UPLOAD_TIMEOUT\<rparr>)))"

definition with_idle_timeout :: "nat \<Rightarrow> service \<Rightarrow> service" where
  "with_idle_timeout t sv = sv\<lparr>sv_idle_timeout := max t nanos_per_milli\<rparr>"

definition with_upload_timeout :: "nat \<Rightarrow> service \<Rightarrow> service" where
  "with_upload_timeout t sv = sv\<lparr>sv_upload_timeout := max t nanos_per_milli\<rparr>"

definition decoding_backstop :: "service \<Rightarrow> u64" where
  "decoding_backstop sv = saturating_mul (max_chunk_bytes (sv_limits sv)) 2"

definition get_service_info :: "string \<Rightarrow> service \<Rightarrow> service_info" where
  "get_service_info version sv =
     \<lparr>si_name = ''grpc-epub'', si_version = version, si_limits = Some (to_proto (sv_limits sv)),
      si_features = [''diskless'', ''spine-stream'', ''zip-bomb-guard'', ''document-fold'',
        ''navigation'', ''media-overlays'', ''health'', ''reflection''],
      si_ui = Some \<lparr>ui_title = ''EPUB'', ui_path = ''/ui/epub'',
        ui_description = ''Unpacks EPUB archives in memory and streams the spine''\<rparr>\<rparr>"

section \<open>The upload clock\<close>

record upload_clock =
  uc_idle :: nat
  uc_total :: nat
  uc_deadline :: nat

text \<open>The later sum is not checked: with it the code panics where even \<open>FOREVER\<close> does not fit.\<close>

definition after :: "nat \<Rightarrow> nat \<Rightarrow> nat \<Rightarrow> nat" where
  "after instant_max now wait = (if now + wait \<le> instant_max then now + wait else now + FOREVER)"

definition start_clock :: "nat \<Rightarrow> nat \<Rightarrow> nat \<Rightarrow> nat \<Rightarrow> upload_clock" where
  "start_clock instant_max now idle whole =
     \<lparr>uc_idle = idle, uc_total = whole, uc_deadline = after instant_max now whole\<rparr>"

datatype inbound = Message parse_request | EndOfStream | Broken status

definition idle_expired :: "upload_clock \<Rightarrow> status" where
  "idle_expired c = Status DeadlineExceeded
     [Lit ''no request frame arrived for '', Num (uc_idle c div nanos_per_milli),
      Lit '' ms; an idle stream may not hold server memory'']"

definition upload_expired :: "upload_clock \<Rightarrow> status" where
  "upload_expired c = Status DeadlineExceeded
     [Lit ''the upload was not complete within '', Num (uc_total c div nanos_per_milli),
      Lit '' ms; send the book faster or raise the server's upload timeout'']"

text \<open>\<open>timeout_at\<close>: what is there by the instant is delivered, and a stream with nothing more never is.\<close>

definition timeout_at ::
  "nat \<Rightarrow> status \<Rightarrow> nat \<Rightarrow> (nat \<times> inbound) list
     \<Rightarrow> status + parse_request option \<times> nat \<times> (nat \<times> inbound) list" where
  "timeout_at limit late now arrivals =
     (case arrivals of
        [] \<Rightarrow> Inl late
      | (t, item) # rest \<Rightarrow>
          if t > limit then Inl late
          else (case item of
                  Message rq \<Rightarrow> Inr (Some rq, max now t, rest)
                | EndOfStream \<Rightarrow> Inr (None, max now t, rest)
                | Broken e \<Rightarrow> Inl e))"

definition next_frame ::
  "nat \<Rightarrow> upload_clock \<Rightarrow> nat \<Rightarrow> (nat \<times> inbound) list
     \<Rightarrow> status + parse_request option \<times> nat \<times> (nat \<times> inbound) list" where
  "next_frame instant_max c now arrivals =
     (let idle_at = after instant_max now (uc_idle c)
      in if idle_at < uc_deadline c then timeout_at idle_at (idle_expired c) now arrivals
         else timeout_at (uc_deadline c) (upload_expired c) now arrivals)"

section \<open>The upload\<close>

record upload =
  up_bytes :: string
  up_capacity :: usize
  up_held :: nat

definition no_upload :: upload where
  "no_upload = \<lparr>up_bytes = [], up_capacity = 0, up_held = 0\<rparr>"

record shared =
  sh_available :: nat
  sh_slots :: nat
  sh_metrics :: metrics

definition release_share :: "nat \<Rightarrow> shared \<Rightarrow> shared" where
  "release_share share sh = sh\<lparr>sh_available := sh_available sh + share\<rparr>"

definition over_budget :: "limits \<Rightarrow> status" where
  "over_budget l = Status ResourceExhausted
     [Lit ''the server is already holding the '', Num (unat (max_buffered_upload_bytes l div MIB)),
      Lit '' MiB of uploads it allows across all calls; retry once calls in progress have finished'']"

definition reserve_upload ::
  "limits \<Rightarrow> nat \<Rightarrow> nat \<Rightarrow> shared \<Rightarrow> (status + nat) \<times> shared" where
  "reserve_upload l share capacity sh =
     (let more = div_ceil capacity BUDGET_UNIT - share
      in if more = 0 then (Inr share, sh)
         else if more < 2 ^ 32 \<and> more \<le> sh_available sh
         then (Inr (share + more), sh\<lparr>sh_available := sh_available sh - more\<rparr>)
         else (Inl (over_budget l), sh))"

text \<open>
  Growing the buffer to hold \<open>needed\<close> bytes.  \<open>reserve_exact\<close> is taken at its word: the capacity
  becomes the target.
\<close>

definition grow ::
  "limits \<Rightarrow> nat \<Rightarrow> nat \<Rightarrow> upload \<Rightarrow> shared \<Rightarrow> (status + upload) \<times> shared" where
  "grow l cap needed up sh =
     (let doubled = min (max (up_capacity up * 2) needed) cap
      in case reserve_upload l (up_held up) doubled sh of
           (Inr share, sh') \<Rightarrow> (Inr (up\<lparr>up_capacity := doubled, up_held := share\<rparr>), sh')
         | (Inl _, sh') \<Rightarrow>
             (case reserve_upload l (up_held up) needed sh' of
                (Inr share, sh'') \<Rightarrow> (Inr (up\<lparr>up_capacity := needed, up_held := share\<rparr>), sh'')
              | (Inl e, sh'') \<Rightarrow> (Inl e, sh'')))"

definition count_uploaded :: "string \<Rightarrow> shared \<Rightarrow> shared" where
  "count_uploaded bytes sh = sh\<lparr>sh_metrics := uploaded (of_nat (length bytes)) (sh_metrics sh)\<rparr>"

definition receive_chunk ::
  "limits \<Rightarrow> u64 \<Rightarrow> string \<Rightarrow> upload \<Rightarrow> shared \<Rightarrow> (status + upload) \<times> shared" where
  "receive_chunk l max_document chunk up sh =
     (if length chunk > unat (max_chunk_bytes l) then
        (Inl (Status InvalidArgument
           [Lit ''chunk of '', Num (length chunk), Lit '' bytes exceeds the '',
            Num (unat (max_chunk_bytes l)),
            Lit '' byte frame limit; split the upload into more, smaller chunks'']), sh)
      else if length (up_bytes up) + length chunk > unat max_document then
        (Inl (Status ResourceExhausted
           [Lit ''the upload passed its '', Num (unat max_document),
            Lit '' byte limit; raise max_document_mib if the book is genuinely this large'']),
         count_uploaded (up_bytes up) sh)
      else
        let needed = length (up_bytes up) + length chunk
        in case (if needed > up_capacity up then grow l (unat max_document) needed up sh
                 else (Inr up, sh)) of
             (Inl e, sh') \<Rightarrow> (Inl e, sh')
           | (Inr up', sh') \<Rightarrow> (Inr (up'\<lparr>up_bytes := up_bytes up' @ chunk\<rparr>), sh'))"

definition receive_frame ::
  "limits \<Rightarrow> u64 \<Rightarrow> parse_request \<Rightarrow> upload \<Rightarrow> shared \<Rightarrow> (status + upload) \<times> shared" where
  "receive_frame l max_document rq up sh =
     (case rq_frame rq of
        Some (Chunk chunk) \<Rightarrow> receive_chunk l max_document chunk up sh
      | Some (Options _) \<Rightarrow>
          (Inl (Status InvalidArgument
             [Lit ''`options` may only be sent once, as the first frame'']), sh)
      | None \<Rightarrow> (Inr up, sh))"


lemma next_frame_shorter: "next_frame im c now as = Inr (rq, now', rest) \<Longrightarrow> length rest < length as"
  by (auto simp: next_frame_def timeout_at_def Let_def split: if_splits list.splits prod.splits inbound.splits)

text \<open>
  The loop of \<open>receive\<close> for one call on its own.  Every early return drops the permit it holds.
\<close>

function receive ::
  "nat \<Rightarrow> upload_clock \<Rightarrow> limits \<Rightarrow> u64 \<Rightarrow> nat \<Rightarrow> (nat \<times> inbound) list \<Rightarrow> upload \<Rightarrow> shared
     \<Rightarrow> (status + upload) \<times> shared" where
  "receive im c l max_document now arrivals up sh =
     (case next_frame im c now arrivals of
        Inl e \<Rightarrow> (Inl e, release_share (up_held up) sh)
      | Inr (None, now', rest) \<Rightarrow> (Inr up, count_uploaded (up_bytes up) sh)
      | Inr (Some rq, now', rest) \<Rightarrow>
          (case receive_frame l max_document rq up sh of
             (Inl e, sh') \<Rightarrow> (Inl e, release_share (up_held up) sh')
           | (Inr up', sh') \<Rightarrow> receive im c l max_document now' rest up' sh'))"
  by pat_completeness auto
termination
  by (relation "measure (\<lambda>(_, _, _, _, _, arrivals, _, _). length arrivals)")
    (auto dest: next_frame_shorter)

declare receive.simps [simp del]

definition read_options ::
  "nat \<Rightarrow> upload_clock \<Rightarrow> nat \<Rightarrow> (nat \<times> inbound) list
     \<Rightarrow> status + parse_options \<times> nat \<times> (nat \<times> inbound) list" where
  "read_options im c now arrivals =
     and_then (next_frame im c now arrivals) (\<lambda>(rq, now', rest).
       case rq of
         None \<Rightarrow> Inl (Status InvalidArgument
           [Lit ''the request stream closed before sending `options`''])
       | Some r \<Rightarrow>
           (case rq_frame r of
              Some (Options options) \<Rightarrow> Inr (options, now', rest)
            | _ \<Rightarrow> Inl (Status InvalidArgument [Lit ''the first frame must carry `options`''])))"

text \<open>\<open>parse_epub\<close> up to the wait for a parse slot.\<close>

definition admit ::
  "nat \<Rightarrow> service \<Rightarrow> nat \<Rightarrow> (nat \<times> inbound) list \<Rightarrow> shared
     \<Rightarrow> (status + effective \<times> upload) \<times> shared" where
  "admit im sv now arrivals sh =
     (let c = start_clock im now (sv_idle_timeout sv) (sv_upload_timeout sv)
      in case read_options im c now arrivals of
           Inl e \<Rightarrow> (Inl e, sh)
         | Inr (options, now', rest) \<Rightarrow>
             let eff = resolve_options (sv_limits sv) options
             in case receive im c (sv_limits sv) (eff_max_document_bytes eff) now' rest no_upload sh of
                  (Inl e, sh') \<Rightarrow> (Inl e, sh')
                | (Inr up, sh') \<Rightarrow> (Inr (eff, up), sh'))"

section \<open>The supervisor\<close>

datatype join = Joined outcome | Panicked "string option" | Cancelled

definition panic_detail :: "join \<Rightarrow> message" where
  "panic_detail j =
     (case j of
        Panicked raised \<Rightarrow>
          [Lit ''the parser panicked, which is a bug in grpc-epub: '',
           Str (opt_or raised ''unknown panic'')]
      | _ \<Rightarrow> [Lit ''the parse task was cancelled''])"

definition count_call :: "(metrics \<Rightarrow> metrics) \<Rightarrow> shared \<Rightarrow> shared" where
  "count_call f sh = sh\<lparr>sh_metrics := f (sh_metrics sh)\<rparr>"

text \<open>How a call ends: what the supervisor sends after the events, and what it counts.\<close>

definition supervise :: "join \<Rightarrow> shared \<Rightarrow> status option \<times> shared" where
  "supervise j sh =
     (case j of
        Joined Complete \<Rightarrow> (None, count_call parse_succeeded sh)
      | Joined Abandoned \<Rightarrow> (None, count_call parse_failed sh)
      | Joined (CallFailed e) \<Rightarrow> (Some e, count_call parse_failed sh)
      | _ \<Rightarrow> (Some (Status Internal (panic_detail j)), count_call parse_failed sh))"

definition take_slot :: "shared \<Rightarrow> shared" where
  "take_slot sh = sh\<lparr>sh_slots := sh_slots sh - 1\<rparr>"

definition release_slot :: "shared \<Rightarrow> shared" where
  "release_slot sh = sh\<lparr>sh_slots := sh_slots sh + 1\<rparr>"

section \<open>The process\<close>

datatype call_phase = Uploading effective upload | Waiting effective upload | Parsing effective upload

record world =
  wd_shared :: shared
  wd_calls :: "nat \<Rightarrow> call_phase option"

definition start_world :: "service \<Rightarrow> metrics \<Rightarrow> world" where
  "start_world sv m =
     \<lparr>wd_shared = \<lparr>sh_available = sv_budget sv, sh_slots = sv_slots sv, sh_metrics = m\<rparr>,
      wd_calls = Map.empty\<rparr>"

definition set_call :: "nat \<Rightarrow> call_phase \<Rightarrow> shared \<Rightarrow> world \<Rightarrow> world" where
  "set_call i phase sh w = w\<lparr>wd_shared := sh, wd_calls := (wd_calls w)(i \<mapsto> phase)\<rparr>"

definition end_call :: "nat \<Rightarrow> shared \<Rightarrow> world \<Rightarrow> world" where
  "end_call i sh w = w\<lparr>wd_shared := sh, wd_calls := (wd_calls w)(i := None)\<rparr>"

text \<open>What a parse counts while it runs: one chapter, one resource, or the bytes of an entry.\<close>

definition counts_work :: "(metrics \<Rightarrow> metrics) \<Rightarrow> bool" where
  "counts_work f \<longleftrightarrow> f = chapter_emitted \<or> f = resource_emitted \<or> (\<exists>n. f = inflated n)"

text \<open>
  A call opens when its options are in; receives frames; ends early when a frame is refused, or
  when a clock runs out or the stream breaks (\<open>Cut\<close>); waits for a slot once its upload is whole; and
  parses with a slot, counting what it sends and inflates, until the supervisor has counted its end.
\<close>

inductive step :: "service \<Rightarrow> world \<Rightarrow> world \<Rightarrow> bool" for sv where
  Opens: "wd_calls w i = None \<Longrightarrow>
    step sv w (set_call i (Uploading (resolve_options (sv_limits sv) options) no_upload) (wd_shared w) w)"
| Receives: "wd_calls w i = Some (Uploading eff up) \<Longrightarrow>
    receive_frame (sv_limits sv) (eff_max_document_bytes eff) rq up (wd_shared w) = (Inr up', sh) \<Longrightarrow>
    step sv w (set_call i (Uploading eff up') sh w)"
| Refuses: "wd_calls w i = Some (Uploading eff up) \<Longrightarrow>
    receive_frame (sv_limits sv) (eff_max_document_bytes eff) rq up (wd_shared w) = (Inl e, sh) \<Longrightarrow>
    step sv w (end_call i (release_share (up_held up) sh) w)"
| Cut: "wd_calls w i = Some (Uploading eff up) \<Longrightarrow>
    step sv w (end_call i (release_share (up_held up) (wd_shared w)) w)"
| Uploads: "wd_calls w i = Some (Uploading eff up) \<Longrightarrow>
    step sv w (set_call i (Waiting eff up) (count_uploaded (up_bytes up) (wd_shared w)) w)"
| Starts: "wd_calls w i = Some (Waiting eff up) \<Longrightarrow> sh_slots (wd_shared w) > 0 \<Longrightarrow>
    step sv w (set_call i (Parsing eff up) (count_call parse_started (take_slot (wd_shared w))) w)"
| Counts: "wd_calls w i = Some (Parsing eff up) \<Longrightarrow> counts_work f \<Longrightarrow>
    step sv w (set_call i (Parsing eff up) (count_call f (wd_shared w)) w)"
| Leaves: "wd_calls w i = Some (Waiting eff up) \<Longrightarrow>
    step sv w (end_call i (release_share (up_held up) (wd_shared w)) w)"
| Ends: "wd_calls w i = Some (Parsing eff up) \<Longrightarrow> supervise j (wd_shared w) = (st, sh) \<Longrightarrow>
    step sv w (end_call i (release_share (up_held up) (release_slot sh)) w)"

definition reachable :: "service \<Rightarrow> metrics \<Rightarrow> world \<Rightarrow> bool" where
  "reachable sv m w \<longleftrightarrow> rtranclp (step sv) (start_world sv m) w"

section \<open>Sums over the calls\<close>

text \<open>What the calls in progress hold together, by a weight of their phase.\<close>

definition total_of :: "('p \<Rightarrow> nat) \<Rightarrow> (nat \<Rightarrow> 'p option) \<Rightarrow> nat" where
  "total_of f calls = (\<Sum>i\<in>dom calls. f (the (calls i)))"

lemma total_of_empty [simp]: "total_of f Map.empty = 0"
  by (simp add: total_of_def)

lemma total_of_delete:
  assumes "finite (dom calls)" and "calls i = Some q"
  shows "total_of f calls = total_of f (calls(i := None)) + f q"
proof -
  have "i \<in> dom calls" using assms(2) by auto
  from sum.remove [OF assms(1) this, of "\<lambda>i. f (the (calls i))"] assms(2)
  show ?thesis by (simp add: total_of_def)
qed

lemma total_of_insert:
  assumes "finite (dom calls)" and "calls i = None"
  shows "total_of f (calls(i \<mapsto> p)) = total_of f calls + f p"
proof -
  have "i \<notin> dom calls" using assms(2) by auto
  moreover have "(\<Sum>x\<in>dom calls. f (the ((calls(i \<mapsto> p)) x))) = (\<Sum>x\<in>dom calls. f (the (calls x)))"
    by (rule sum.cong) (use assms(2) in auto)
  ultimately show ?thesis using assms(1) by (simp add: total_of_def)
qed

lemma total_of_replace:
  assumes "finite (dom calls)" and "calls i = Some q"
  shows "total_of f (calls(i \<mapsto> p)) + f q = total_of f calls + f p"
  using total_of_insert [of "calls(i := None)" i f p] total_of_delete [OF assms, of f] assms(1)
  by simp

lemma total_of_mono:
  assumes "\<And>i p. calls i = Some p \<Longrightarrow> f p \<le> g p"
  shows "total_of f calls \<le> total_of g calls"
  unfolding total_of_def by (rule sum_mono) (use assms in auto)

lemma total_of_times: "total_of (\<lambda>p. f p * k) calls = total_of f calls * k"
  by (simp add: total_of_def sum_distrib_right)

section \<open>The budget of one upload\<close>

lemma div_ceil_covers: "0 < d \<Longrightarrow> n \<le> div_ceil n d * d"
proof -
  assume "0 < d"
  have n: "n = n div d * d + n mod d" by (rule div_mult_mod_eq [symmetric])
  have less: "n mod d \<le> d" using \<open>0 < d\<close> by (simp add: less_imp_le)
  show ?thesis
  proof (cases "n mod d = 0")
    case True
    with n show ?thesis by (simp add: div_ceil_def)
  next
    case False
    have "n \<le> n div d * d + d" using n less by linarith
    with False show ?thesis by (simp add: div_ceil_def)
  qed
qed

lemma div_ceil_least: "0 < d \<Longrightarrow> n \<le> k * d \<Longrightarrow> div_ceil n d \<le> k"
proof -
  assume d: "0 < d" and "n \<le> k * d"
  show ?thesis
  proof (cases "n mod d = 0")
    case True
    then show ?thesis using \<open>n \<le> k * d\<close> d by (simp add: div_ceil_def) (metis div_le_mono nonzero_mult_div_cancel_right less_not_refl)
  next
    case False
    then have "n < k * d" using \<open>n \<le> k * d\<close> by (metis le_neq_implies_less mod_mult_self2_is_0)
    then have "n div d < k" using d by (simp add: less_mult_imp_div_less)
    with False show ?thesis by (simp add: div_ceil_def)
  qed
qed

text \<open>Reserving takes exactly what the share is short of, from what is free.\<close>

lemma reserve_upload_Inr:
  "reserve_upload l share capacity sh = (Inr share', sh') \<Longrightarrow>
     capacity \<le> share' * BUDGET_UNIT \<and> share \<le> share'
     \<and> sh_available sh' + share' = sh_available sh + share
     \<and> sh_slots sh' = sh_slots sh \<and> sh_metrics sh' = sh_metrics sh"
  using div_ceil_covers [of BUDGET_UNIT capacity]
  by (auto simp: reserve_upload_def Let_def BUDGET_UNIT_def split: if_splits
      intro: order_trans mult_le_mono1)

lemma reserve_upload_Inl:
  "reserve_upload l share capacity sh = (Inl e, sh') \<Longrightarrow> sh' = sh \<and> e = over_budget l"
  by (auto simp: reserve_upload_def Let_def split: if_splits)

text \<open>What is true of an upload under a call's cap.\<close>

definition upload_ok :: "nat \<Rightarrow> upload \<Rightarrow> bool" where
  "upload_ok cap up \<longleftrightarrow>
     length (up_bytes up) \<le> up_capacity up \<and> up_capacity up \<le> cap
     \<and> up_capacity up \<le> up_held up * BUDGET_UNIT"

lemma upload_ok_none [simp]: "upload_ok cap no_upload"
  by (simp add: upload_ok_def no_upload_def)

text \<open>A frame moves permits between the pool and the call's share and keeps every other count.\<close>

definition kept_pool :: "upload \<Rightarrow> shared \<Rightarrow> upload \<Rightarrow> shared \<Rightarrow> bool" where
  "kept_pool up sh up' sh' \<longleftrightarrow>
     sh_available sh' + up_held up' = sh_available sh + up_held up \<and> sh_slots sh' = sh_slots sh
     \<and> parses_started (sh_metrics sh') = parses_started (sh_metrics sh)
     \<and> parses_succeeded (sh_metrics sh') = parses_succeeded (sh_metrics sh)
     \<and> parses_failed (sh_metrics sh') = parses_failed (sh_metrics sh)"

lemma grow_Inr:
  assumes "grow l cap needed up sh = (Inr up', sh')" and "upload_ok cap up" and "needed \<le> cap"
  shows "up_bytes up' = up_bytes up \<and> needed \<le> up_capacity up' \<and> up_capacity up' \<le> cap
    \<and> up_capacity up' \<le> up_held up' * BUDGET_UNIT \<and> kept_pool up sh up' sh'"
proof -
  let ?doubled = "min (max (up_capacity up * 2) needed) cap"
  obtain r sh1 where first: "reserve_upload l (up_held up) ?doubled sh = (r, sh1)"
    by (cases "reserve_upload l (up_held up) ?doubled sh")
  show ?thesis
  proof (cases r)
    case (Inr share)
    then show ?thesis
      using assms first reserve_upload_Inr [OF first [unfolded Inr]]
      by (auto simp: grow_def Let_def kept_pool_def)
  next
    case (Inl e)
    then have "sh1 = sh" using reserve_upload_Inl first by blast
    with Inl first assms show ?thesis
      by (auto simp: grow_def Let_def kept_pool_def split: prod.splits sum.splits
          dest!: reserve_upload_Inr)
  qed
qed

lemma grow_Inl:
  "grow l cap needed up sh = (Inl e, sh') \<Longrightarrow> sh' = sh \<and> e = over_budget l"
  by (auto simp: grow_def Let_def split: prod.splits sum.splits dest!: reserve_upload_Inl)

lemma receive_frame_Inr:
  assumes "receive_frame l max_document rq up sh = (Inr up', sh')" and "upload_ok (unat max_document) up"
  shows "upload_ok (unat max_document) up' \<and> kept_pool up sh up' sh'"
  using assms
  by (auto simp: receive_frame_def receive_chunk_def Let_def upload_ok_def kept_pool_def
      split: option.splits frame.splits if_splits prod.splits sum.splits dest!: grow_Inr)

lemma receive_frame_Inl:
  "receive_frame l max_document rq up sh = (Inl e, sh') \<Longrightarrow> kept_pool up sh up sh'"
  by (auto simp: receive_frame_def receive_chunk_def Let_def kept_pool_def count_uploaded_def uploaded_def
      split: option.splits frame.splits if_splits prod.splits sum.splits dest!: grow_Inl)


section \<open>Machines and their invariants\<close>

text \<open>What a transition relation needs for a predicate to hold wherever it can get to.\<close>

locale machine =
  fixes start :: 'w
    and nxt :: "'w \<Rightarrow> 'w \<Rightarrow> bool"
    and inv :: "'w \<Rightarrow> bool"
  assumes inv_start: "inv start"
    and inv_next: "inv w \<Longrightarrow> nxt w w' \<Longrightarrow> inv w'"
begin

lemma always: "rtranclp nxt start w \<Longrightarrow> inv w"
  by (induction rule: rtranclp_induct) (auto intro: inv_start inv_next)

lemma stays: "rtranclp nxt w w' \<Longrightarrow> inv w \<Longrightarrow> inv w'"
  by (induction rule: rtranclp_induct) (auto intro: inv_next)

end

fun share_of :: "call_phase \<Rightarrow> nat" where
  "share_of (Uploading eff up) = up_held up"
| "share_of (Waiting eff up) = up_held up"
| "share_of (Parsing eff up) = up_held up"

fun upload_of :: "call_phase \<Rightarrow> upload" where
  "upload_of (Uploading eff up) = up"
| "upload_of (Waiting eff up) = up"
| "upload_of (Parsing eff up) = up"

fun cap_of :: "call_phase \<Rightarrow> u64" where
  "cap_of (Uploading eff up) = eff_max_document_bytes eff"
| "cap_of (Waiting eff up) = eff_max_document_bytes eff"
| "cap_of (Parsing eff up) = eff_max_document_bytes eff"

fun slots_of :: "call_phase \<Rightarrow> nat" where
  "slots_of (Parsing eff up) = 1"
| "slots_of _ = 0"

text \<open>
  The invariant of the process: permits are in the pool or in some call's share, slots are free or
  with a parsing call, every upload is within its share and its cap, and every parse started has
  been counted as succeeded or failed or is still parsing.
\<close>

definition process_inv :: "service \<Rightarrow> metrics \<Rightarrow> world \<Rightarrow> bool" where
  "process_inv sv m w \<longleftrightarrow>
     finite (dom (wd_calls w))
     \<and> sh_available (wd_shared w) + total_of share_of (wd_calls w) = sv_budget sv
     \<and> sh_slots (wd_shared w) + total_of slots_of (wd_calls w) = sv_slots sv
     \<and> (\<forall>i p. wd_calls w i = Some p \<longrightarrow>
          upload_ok (unat (cap_of p)) (upload_of p)
          \<and> cap_of p \<le> max_document_bytes (sv_limits sv))
     \<and> (let now = sh_metrics (wd_shared w)
        in parses_started now - parses_started m =
             (parses_succeeded now - parses_succeeded m) + (parses_failed now - parses_failed m)
             + of_nat (total_of slots_of (wd_calls w)))"

lemmas process_step_simps = process_inv_def set_call_def end_call_def release_share_def
  release_slot_def count_uploaded_def count_call_def uploaded_def kept_pool_def Let_def
  parse_started_def parse_succeeded_def parse_failed_def

lemma process_inv_start: "process_inv sv m (start_world sv m)"
  by (simp add: process_inv_def start_world_def)

text \<open>A call in progress changes phase: its weights are exchanged, the others are as they were.\<close>

lemma process_inv_set:
  assumes "process_inv sv m w" and "wd_calls w i = Some q"
    and "sh_available sh + share_of p = sh_available (wd_shared w) + share_of q"
    and "sh_slots sh + slots_of p = sh_slots (wd_shared w) + slots_of q"
    and "upload_ok (unat (cap_of p)) (upload_of p)" and "cap_of p = cap_of q"
    and "parses_succeeded (sh_metrics sh) = parses_succeeded (sh_metrics (wd_shared w))"
    and "parses_failed (sh_metrics sh) = parses_failed (sh_metrics (wd_shared w))"
    and "parses_started (sh_metrics sh) + of_nat (slots_of q)
      = parses_started (sh_metrics (wd_shared w)) + of_nat (slots_of p)"
  shows "process_inv sv m (set_call i p sh w)"
proof -
  let ?calls = "wd_calls w" and ?calls' = "(wd_calls w)(i \<mapsto> p)"
  have fin: "finite (dom ?calls)" using assms(1) by (simp add: process_inv_def)
  note shares = total_of_replace [OF fin assms(2), of share_of p]
    and slots = total_of_replace [OF fin assms(2), of slots_of p]
  have started: "parses_started (sh_metrics sh) = parses_started (sh_metrics (wd_shared w))
      + of_nat (slots_of p) - of_nat (slots_of q)"
    using assms(9) by (metis add_diff_cancel)
  have "of_nat (total_of slots_of ?calls') + of_nat (slots_of q)
      = of_nat (total_of slots_of ?calls) + (of_nat (slots_of p) :: u64)"
    using slots by (metis of_nat_add)
  then have word: "(of_nat (total_of slots_of ?calls') :: u64) =
      of_nat (total_of slots_of ?calls) + of_nat (slots_of p) - of_nat (slots_of q)"
    by (metis add_diff_cancel)
  have "parses_started (sh_metrics sh) - parses_started m =
      (parses_succeeded (sh_metrics sh) - parses_succeeded m)
      + (parses_failed (sh_metrics sh) - parses_failed m) + of_nat (total_of slots_of ?calls')"
    using assms(1) unfolding started word assms(7,8)
    by (simp add: process_inv_def Let_def algebra_simps)
  moreover have "sh_available sh + total_of share_of ?calls' = sv_budget sv"
    "sh_slots sh + total_of slots_of ?calls' = sv_slots sv"
    using assms(1,3,4) shares slots by (simp_all add: process_inv_def)
  ultimately show ?thesis
    using assms(1,2,5,6) fin by (auto simp: process_inv_def set_call_def Let_def)
qed

text \<open>A call ends: its weights are given back.\<close>

lemma process_inv_end:
  assumes "process_inv sv m w" and "wd_calls w i = Some q"
    and "sh_available sh = sh_available (wd_shared w) + share_of q"
    and "sh_slots sh = sh_slots (wd_shared w) + slots_of q"
    and "parses_started (sh_metrics sh) = parses_started (sh_metrics (wd_shared w))"
    and "parses_succeeded (sh_metrics sh) + parses_failed (sh_metrics sh)
      = parses_succeeded (sh_metrics (wd_shared w)) + parses_failed (sh_metrics (wd_shared w))
        + of_nat (slots_of q)"
  shows "process_inv sv m (end_call i sh w)"
proof -
  let ?calls = "wd_calls w" and ?calls' = "(wd_calls w)(i := None)"
  have fin: "finite (dom ?calls)" using assms(1) by (simp add: process_inv_def)
  note shares = total_of_delete [OF fin assms(2), of share_of]
    and slots = total_of_delete [OF fin assms(2), of slots_of]
  have ended: "parses_succeeded (sh_metrics sh) = parses_succeeded (sh_metrics (wd_shared w))
      + parses_failed (sh_metrics (wd_shared w)) + of_nat (slots_of q) - parses_failed (sh_metrics sh)"
    using assms(6) by (metis add_diff_cancel)
  have word: "(of_nat (total_of slots_of ?calls) :: u64) =
      of_nat (total_of slots_of ?calls') + of_nat (slots_of q)"
    using slots by (metis of_nat_add)
  have "parses_started (sh_metrics sh) - parses_started m =
      (parses_succeeded (sh_metrics sh) - parses_succeeded m)
      + (parses_failed (sh_metrics sh) - parses_failed m) + of_nat (total_of slots_of ?calls')"
    using assms(1) unfolding ended assms(5)
    by (simp add: process_inv_def Let_def word algebra_simps)
  moreover have "sh_available sh + total_of share_of ?calls' = sv_budget sv"
    "sh_slots sh + total_of slots_of ?calls' = sv_slots sv"
    using assms(1,3,4) shares slots by (simp_all add: process_inv_def)
  ultimately show ?thesis
    using assms(1,2) fin by (auto simp: process_inv_def end_call_def Let_def split: if_splits)
qed


lemma process_inv_open:
  assumes "process_inv sv m w" and "wd_calls w i = None"
  shows "process_inv sv m
    (set_call i (Uploading (resolve_options (sv_limits sv) options) no_upload) (wd_shared w) w)"
proof -
  let ?p = "Uploading (resolve_options (sv_limits sv) options) no_upload"
  have fin: "finite (dom (wd_calls w))" using assms(1) by (simp add: process_inv_def)
  note totals = total_of_insert [OF fin assms(2), of share_of ?p]
    total_of_insert [OF fin assms(2), of slots_of ?p]
  have "cap_of ?p \<le> max_document_bytes (sv_limits sv)"
    by (simp add: resolve_options_def narrow_def)
  then show ?thesis
    using assms fin totals
    by (auto simp: process_inv_def set_call_def Let_def no_upload_def upload_ok_def split: if_splits)
qed

lemma supervise_counts:
  "supervise j sh = (st, sh') \<Longrightarrow>
     sh_available sh' = sh_available sh \<and> sh_slots sh' = sh_slots sh
     \<and> parses_started (sh_metrics sh') = parses_started (sh_metrics sh)
     \<and> parses_succeeded (sh_metrics sh') + parses_failed (sh_metrics sh')
         = parses_succeeded (sh_metrics sh) + parses_failed (sh_metrics sh) + 1"
  by (auto simp: supervise_def count_call_def parse_succeeded_def parse_failed_def
      split: join.splits outcome.splits)

lemma counts_work_keeps:
  "counts_work f \<Longrightarrow> parses_started (f m) = parses_started m
     \<and> parses_succeeded (f m) = parses_succeeded m \<and> parses_failed (f m) = parses_failed m
     \<and> bytes_uploaded (f m) = bytes_uploaded m"
  by (auto simp: counts_work_def chapter_emitted_def resource_emitted_def inflated_def)

lemma process_inv_step:
  assumes "step sv w w'" and inv: "process_inv sv m w"
  shows "process_inv sv m w'"
  using assms(1)
proof cases
  case (Opens i options)
  then show ?thesis using process_inv_open [OF inv] by simp
next
  case (Receives i eff up rq up' sh)
  have "upload_ok (unat (eff_max_document_bytes eff)) up"
    using inv Receives(2) by (fastforce simp: process_inv_def)
  from receive_frame_Inr [OF Receives(3) this] show ?thesis
    unfolding Receives(1)
    by (intro process_inv_set [OF inv Receives(2)]) (simp_all add: kept_pool_def)
next
  case (Refuses i eff up rq e sh)
  from receive_frame_Inl [OF Refuses(3)] show ?thesis
    unfolding Refuses(1)
    by (intro process_inv_end [OF inv Refuses(2)]) (simp_all add: kept_pool_def release_share_def)
next
  case (Cut i eff up)
  show ?thesis
    unfolding Cut(1)
    by (intro process_inv_end [OF inv Cut(2)]) (simp_all add: release_share_def)
next
  case (Uploads i eff up)
  have "upload_ok (unat (eff_max_document_bytes eff)) up"
    using inv Uploads(2) by (fastforce simp: process_inv_def)
  then show ?thesis
    unfolding Uploads(1)
    by (intro process_inv_set [OF inv Uploads(2)]) (simp_all add: count_uploaded_def uploaded_def)
next
  case (Starts i eff up)
  have "upload_ok (unat (eff_max_document_bytes eff)) up"
    using inv Starts(2) by (fastforce simp: process_inv_def)
  with Starts(3) show ?thesis
    unfolding Starts(1)
    by (intro process_inv_set [OF inv Starts(2)])
      (simp_all add: count_call_def parse_started_def take_slot_def)
next
  case (Counts i eff up f)
  have "upload_ok (unat (eff_max_document_bytes eff)) up"
    using inv Counts(2) by (fastforce simp: process_inv_def)
  with counts_work_keeps [OF Counts(3)] show ?thesis
    unfolding Counts(1)
    by (intro process_inv_set [OF inv Counts(2)]) (simp_all add: count_call_def)
next
  case (Leaves i eff up)
  show ?thesis
    unfolding Leaves(1)
    by (intro process_inv_end [OF inv Leaves(2)]) (simp_all add: release_share_def)
next
  case (Ends i eff up j st sh)
  from supervise_counts [OF Ends(3)] show ?thesis
    unfolding Ends(1)
    by (intro process_inv_end [OF inv Ends(2)])
      (simp_all add: release_share_def release_slot_def)
qed

interpretation process: machine "start_world sv m" "step sv" "process_inv sv m" for sv m
  by unfold_locales (rule process_inv_start, rule process_inv_step)

section \<open>Properties\<close>

text \<open>The bytes of upload buffer the process holds, and how many calls parse.\<close>

definition buffered :: "world \<Rightarrow> nat" where
  "buffered w = total_of (\<lambda>p. up_capacity (upload_of p)) (wd_calls w)"

definition parsing :: "world \<Rightarrow> nat" where
  "parsing w = total_of slots_of (wd_calls w)"

text \<open>
  Property C31.  Across all calls, however they are interleaved and however they end, the buffers
  the process holds are within the budget, no more calls parse than there are slots, every call
  holds what it was sent within its own cap, and no permit or slot is lost: when no call is left
  all of them are free again.
\<close>

theorem uploads_within_budget:
  assumes "reachable sv m w"
  shows "buffered w \<le> sv_budget sv * BUDGET_UNIT \<and> parsing w \<le> sv_slots sv
    \<and> (\<forall>i p. wd_calls w i = Some p \<longrightarrow>
         length (up_bytes (upload_of p)) \<le> unat (cap_of p)
         \<and> cap_of p \<le> max_document_bytes (sv_limits sv))
    \<and> (wd_calls w = Map.empty \<longrightarrow>
         sh_available (wd_shared w) = sv_budget sv \<and> sh_slots (wd_shared w) = sv_slots sv)"
proof -
  have inv: "process_inv sv m w" using assms unfolding reachable_def by (rule process.always)
  have "upload_ok (unat (cap_of p)) (upload_of p)" if "wd_calls w i = Some p" for i p
    using inv that by (simp add: process_inv_def)
  moreover have "up_held (upload_of p) = share_of p" for p by (cases p) simp_all
  ultimately have fits: "up_capacity (upload_of p) \<le> share_of p * BUDGET_UNIT"
    "length (up_bytes (upload_of p)) \<le> unat (cap_of p)" if "wd_calls w i = Some p" for i p
    using that by (fastforce simp: upload_ok_def)+
  have "buffered w \<le> total_of (\<lambda>p. share_of p * BUDGET_UNIT) (wd_calls w)"
    unfolding buffered_def by (rule total_of_mono) (rule fits)
  also have "\<dots> = total_of share_of (wd_calls w) * BUDGET_UNIT" by (rule total_of_times)
  also have "\<dots> \<le> sv_budget sv * BUDGET_UNIT" using inv by (simp add: process_inv_def)
  finally show ?thesis using inv fits by (auto simp: process_inv_def parsing_def)
qed

text \<open>
  Every parse that was started is accounted for: in the counters, modulo their width,
  those started are those succeeded, those failed and those still parsing.
\<close>

theorem started_parses_are_accounted:
  assumes "reachable sv new_metrics w"
  shows "parses_started (sh_metrics (wd_shared w)) =
    parses_succeeded (sh_metrics (wd_shared w)) + parses_failed (sh_metrics (wd_shared w))
    + of_nat (parsing w)"
proof -
  have "process_inv sv new_metrics w" using assms unfolding reachable_def by (rule process.always)
  then show ?thesis by (simp add: process_inv_def new_metrics_def parsing_def Let_def)
qed


section \<open>One upload on its own\<close>

definition frame_limit :: "nat \<Rightarrow> upload_clock \<Rightarrow> nat \<Rightarrow> nat" where
  "frame_limit im c now = min (after im now (uc_idle c)) (uc_deadline c)"

fun on_time :: "nat \<Rightarrow> upload_clock \<Rightarrow> nat \<Rightarrow> (nat \<times> inbound) list \<Rightarrow> bool" where
  "on_time im c now [] = True"
| "on_time im c now ((t, item) # rest) \<longleftrightarrow>
     t \<le> frame_limit im c now \<and> on_time im c (max now t) rest"

text \<open>What a frame adds to the upload, when it may be part of one.\<close>

definition frame_bytes :: "inbound \<Rightarrow> string option" where
  "frame_bytes item =
     (case item of
        Message rq \<Rightarrow>
          (case rq_frame rq of
             Some (Chunk chunk) \<Rightarrow> Some chunk | Some (Options _) \<Rightarrow> None | None \<Rightarrow> Some [])
      | _ \<Rightarrow> None)"

lemma next_frame_limit:
  "next_frame im c now ((t, item) # rest) =
     (if t > frame_limit im c now
      then Inl (if after im now (uc_idle c) < uc_deadline c then idle_expired c else upload_expired c)
      else case item of
             Message rq \<Rightarrow> Inr (Some rq, max now t, rest)
           | EndOfStream \<Rightarrow> Inr (None, max now t, rest)
           | Broken e \<Rightarrow> Inl e)"
  by (auto simp: next_frame_def timeout_at_def frame_limit_def Let_def min_def)

lemma receive_frame_bytes:
  assumes "receive_frame l max_document rq up sh = (Inr up', sh')" and "upload_ok (unat max_document) up"
  shows "\<exists>bytes. frame_bytes (Message rq) = Some bytes \<and> up_bytes up' = up_bytes up @ bytes"
  using assms
  by (auto simp: receive_frame_def receive_chunk_def frame_bytes_def Let_def
      split: option.splits frame.splits if_splits prod.splits sum.splits dest!: grow_Inr)

lemma receive_Inr:
  assumes "receive im c l max_document now arrivals up sh = (Inr up', sh')"
    and "upload_ok (unat max_document) up"
  shows "\<exists>frames t rest. arrivals = frames @ (t, EndOfStream) # rest
    \<and> on_time im c now (frames @ [(t, EndOfStream)])
    \<and> list_all (\<lambda>f. frame_bytes (snd f) \<noteq> None) frames
    \<and> up_bytes up' = up_bytes up @ concat (map (\<lambda>f. the (frame_bytes (snd f))) frames)
    \<and> upload_ok (unat max_document) up'"
  using assms
proof (induction arrivals arbitrary: now up sh)
  case Nil
  then show ?case by (simp add: receive.simps next_frame_def timeout_at_def Let_def split: if_splits)
next
  case (Cons a arrivals)
  obtain t item where a: "a = (t, item)" by (cases a)
  have now: "t \<le> frame_limit im c now"
    using Cons.prems(1) by (rule contrapos_pp) (simp add: a receive.simps next_frame_limit)
  show ?case
  proof (cases item)
    case (Message rq)
    then obtain up1 sh1 where frame: "receive_frame l max_document rq up sh = (Inr up1, sh1)"
      and rest: "receive im c l max_document (max now t) arrivals up1 sh1 = (Inr up', sh')"
      using Cons.prems(1) now
      by (auto simp: a receive.simps [of im c l max_document now] next_frame_limit
          split: prod.splits sum.splits)
    have ok: "upload_ok (unat max_document) up1"
      using receive_frame_Inr [OF frame Cons.prems(2)] by blast
    obtain bytes where bytes: "frame_bytes item = Some bytes" "up_bytes up1 = up_bytes up @ bytes"
      using receive_frame_bytes [OF frame Cons.prems(2)] Message by auto
    from Cons.IH [OF rest ok] obtain frames t' more
      where ih: "arrivals = frames @ (t', EndOfStream) # more"
        "on_time im c (max now t) (frames @ [(t', EndOfStream)])"
        "list_all (\<lambda>f. frame_bytes (snd f) \<noteq> None) frames"
        "up_bytes up' = up_bytes up1 @ concat (map (\<lambda>f. the (frame_bytes (snd f))) frames)"
        "upload_ok (unat max_document) up'"
      by blast
    then show ?thesis
      using a now bytes by (intro exI [of _ "a # frames"] exI [of _ t'] exI [of _ more]) simp
  next
    case EndOfStream
    with Cons.prems a now show ?thesis
      by (intro exI [of _ "[]"] exI [of _ t] exI [of _ arrivals])
        (simp add: receive.simps next_frame_limit)
  next
    case (Broken e)
    with Cons.prems a now show ?thesis by (simp add: receive.simps next_frame_limit)
  qed
qed

text \<open>Where the pool can hold a whole upload, no chunk of it is refused for want of budget.\<close>

lemma reserve_upload_possible:
  assumes "div_ceil capacity BUDGET_UNIT \<le> sh_available sh + share"
    and "div_ceil capacity BUDGET_UNIT < 2 ^ 32"
  shows "\<exists>share' sh'. reserve_upload l share capacity sh = (Inr share', sh')"
  using assms by (auto simp: reserve_upload_def Let_def)

lemma div_ceil_mono: "0 < d \<Longrightarrow> m \<le> n \<Longrightarrow> div_ceil m d \<le> div_ceil n d"
  using div_ceil_least [of d m "div_ceil n d"] div_ceil_covers [of d n] by linarith

definition roomy :: "nat \<Rightarrow> nat \<Rightarrow> shared \<Rightarrow> bool" where
  "roomy cap share sh \<longleftrightarrow>
     div_ceil cap BUDGET_UNIT \<le> sh_available sh + share \<and> div_ceil cap BUDGET_UNIT < 2 ^ 32"

lemma grow_possible:
  assumes "roomy cap (up_held up) sh" and "needed \<le> cap"
  shows "\<exists>up' sh'. grow l cap needed up sh = (Inr up', sh')"
proof -
  let ?doubled = "min (max (up_capacity up * 2) needed) cap"
  have "div_ceil ?doubled BUDGET_UNIT \<le> div_ceil cap BUDGET_UNIT"
    by (rule div_ceil_mono) (simp_all add: BUDGET_UNIT_def)
  then obtain share sh' where "reserve_upload l (up_held up) ?doubled sh = (Inr share, sh')"
    using reserve_upload_possible [of ?doubled sh "up_held up" l] assms(1) by (auto simp: roomy_def)
  then show ?thesis by (simp add: grow_def Let_def)
qed

lemma receive_frame_possible:
  assumes "frame_bytes (Message rq) = Some bytes" and "roomy (unat max_document) (up_held up) sh"
    and "length bytes \<le> unat (max_chunk_bytes l)"
    and "length (up_bytes up) + length bytes \<le> unat max_document"
  shows "\<exists>up' sh'. receive_frame l max_document rq up sh = (Inr up', sh')"
  using assms grow_possible [OF assms(2,4), of l]
  by (auto simp: receive_frame_def receive_chunk_def frame_bytes_def Let_def
      split: option.splits frame.splits prod.splits sum.splits)


lemma roomy_kept: "kept_pool up sh up' sh' \<Longrightarrow> roomy cap (up_held up) sh \<Longrightarrow> roomy cap (up_held up') sh'"
  by (simp add: kept_pool_def roomy_def)

lemma receive_possible:
  assumes "on_time im c now (frames @ [(t, EndOfStream)])"
    and "list_all (\<lambda>f. \<exists>bytes. frame_bytes (snd f) = Some bytes
           \<and> length bytes \<le> unat (max_chunk_bytes l)) frames"
    and "length (up_bytes up) + length (concat (map (\<lambda>f. the (frame_bytes (snd f))) frames))
           \<le> unat max_document"
    and "roomy (unat max_document) (up_held up) sh" and "upload_ok (unat max_document) up"
  shows "\<exists>up' sh'. receive im c l max_document now (frames @ (t, EndOfStream) # rest) up sh = (Inr up', sh')"
  using assms
proof (induction frames arbitrary: now up sh)
  case Nil
  then show ?case by (simp add: receive.simps next_frame_limit)
next
  case (Cons f frames)
  obtain u item where f: "f = (u, item)" by (cases f)
  obtain bytes where bytes: "frame_bytes item = Some bytes" "length bytes \<le> unat (max_chunk_bytes l)"
    using Cons.prems(2) by (auto simp: f)
  then obtain rq where rq: "item = Message rq"
    by (cases item) (simp_all add: frame_bytes_def)
  have "length (up_bytes up) + length bytes \<le> unat max_document"
    using Cons.prems(3) by (simp add: f bytes)
  from receive_frame_possible [OF bytes(1) [unfolded rq] Cons.prems(4) bytes(2) this]
  obtain up1 sh1 where frame: "receive_frame l max_document rq up sh = (Inr up1, sh1)" by blast
  note next_ok = receive_frame_Inr [OF frame Cons.prems(5)]
  have b1: "up_bytes up1 = up_bytes up @ bytes"
    using receive_frame_bytes [OF frame Cons.prems(5)] bytes(1) rq by auto
  have "\<exists>up' sh'. receive im c l max_document (max now u) (frames @ (t, EndOfStream) # rest) up1 sh1
      = (Inr up', sh')"
    by (rule Cons.IH)
      (use Cons.prems f bytes(1) b1 next_ok in \<open>auto intro: roomy_kept\<close>)
  then show ?case
    using Cons.prems(1) frame by (auto simp: f rq receive.simps [of im c l max_document now] next_frame_limit)
qed

text \<open>
  Property C32.  An upload that is received is exactly its frames: every frame was a chunk or empty
  and came in time, the end of the stream no later than the upload deadline, and the bytes are the
  chunks in order, within the call's cap and within the budget the call reserved for them.
\<close>

theorem received_upload_is_its_frames:
  assumes "receive im c l max_document now arrivals no_upload sh = (Inr up, sh')"
  shows "\<exists>frames t rest. arrivals = frames @ (t, EndOfStream) # rest
    \<and> on_time im c now (frames @ [(t, EndOfStream)]) \<and> t \<le> uc_deadline c
    \<and> list_all (\<lambda>f. frame_bytes (snd f) \<noteq> None) frames
    \<and> up_bytes up = concat (map (\<lambda>f. the (frame_bytes (snd f))) frames)
    \<and> length (up_bytes up) \<le> unat max_document
    \<and> length (up_bytes up) \<le> up_held up * BUDGET_UNIT"
proof -
  from receive_Inr [OF assms] obtain frames t rest
    where facts: "arrivals = frames @ (t, EndOfStream) # rest"
      "on_time im c now (frames @ [(t, EndOfStream)])"
      "list_all (\<lambda>f. frame_bytes (snd f) \<noteq> None) frames"
      "up_bytes up = concat (map (\<lambda>f. the (frame_bytes (snd f))) frames)"
      "upload_ok (unat max_document) up"
    by (auto simp: no_upload_def upload_ok_def)
  have "t \<le> uc_deadline c"
    using facts(2) by (induction frames arbitrary: now) (auto simp: frame_limit_def)
  with facts show ?thesis by (force simp: upload_ok_def)
qed

text \<open>
  Property C33.  The upload a client may send is accepted: chunks within the frame limit, together
  within the call's cap and all in time, are received whole whenever the pool can still hold one
  upload of that cap, however they are cut.  (The cap is below \<open>2 ^ 42\<close> bytes, since one
  reservation is a 32-bit count of KiB.)
\<close>

theorem allowed_upload_is_received:
  assumes "on_time im c now (frames @ [(t, EndOfStream)])"
    and "list_all (\<lambda>f. \<exists>bytes. frame_bytes (snd f) = Some bytes
           \<and> length bytes \<le> unat (max_chunk_bytes l)) frames"
    and "length (concat (map (\<lambda>f. the (frame_bytes (snd f))) frames)) \<le> unat max_document"
    and "div_ceil (unat max_document) BUDGET_UNIT \<le> sh_available sh"
    and "div_ceil (unat max_document) BUDGET_UNIT < 2 ^ 32"
  shows "\<exists>up sh'. receive im c l max_document now (frames @ (t, EndOfStream) # rest) no_upload sh
       = (Inr up, sh')
     \<and> up_bytes up = concat (map (\<lambda>f. the (frame_bytes (snd f))) frames)"
proof -
  have "\<exists>up sh'. receive im c l max_document now (frames @ (t, EndOfStream) # rest) no_upload sh
      = (Inr up, sh')"
    by (rule receive_possible [OF assms(1,2)])
      (use assms(3-5) in \<open>simp_all add: no_upload_def roomy_def upload_ok_def\<close>)
  then obtain up sh' where run:
    "receive im c l max_document now (frames @ (t, EndOfStream) # rest) no_upload sh = (Inr up, sh')"
    by blast
  from receive_Inr [OF run] obtain frames' t' rest'
    where other: "frames @ (t, EndOfStream) # rest = frames' @ (t', EndOfStream) # rest'"
      "list_all (\<lambda>f. frame_bytes (snd f) \<noteq> None) frames'"
      "up_bytes up = concat (map (\<lambda>f. the (frame_bytes (snd f))) frames')"
    by (auto simp: no_upload_def upload_ok_def)
  have ends: "frame_bytes (snd f) \<noteq> None" if "f \<in> set frames \<or> f \<in> set frames'" for f
    using that assms(2) other(2) by (auto simp: list_all_iff)
  have "takeWhile (\<lambda>f. frame_bytes (snd f) \<noteq> None) (frames @ (t, EndOfStream) # rest) = frames"
    using ends by (simp add: takeWhile_append frame_bytes_def)
  moreover have "takeWhile (\<lambda>f. frame_bytes (snd f) \<noteq> None) (frames' @ (t', EndOfStream) # rest') = frames'"
    using ends by (simp add: takeWhile_append frame_bytes_def)
  ultimately have "frames = frames'" using other(1) by metis
  with run other(3) show ?thesis by blast
qed


section \<open>The service that is built\<close>

lemma max_permits_enough: "div_ceil (unat (n :: u64)) BUDGET_UNIT \<le> MAX_PERMITS"
proof -
  have "unat n < 2 ^ 64" using unat_bound64 [of n] by simp
  also have "(2::nat) ^ 64 = 2 ^ 54 * BUDGET_UNIT" by (simp add: BUDGET_UNIT_def)
  finally have "div_ceil (unat n) BUDGET_UNIT \<le> 2 ^ 54"
    by (intro div_ceil_least) (simp_all add: BUDGET_UNIT_def)
  then show ?thesis by (simp add: MAX_PERMITS_def)
qed

text \<open>
  A service is built unless the parse slots are more than a semaphore can hold, which
  panics; and the pool of one that is built holds the largest upload a call may send, whatever the
  limits say of the budget.
\<close>

theorem built_pool_holds_an_upload:
  "case with_metrics l of
     Inl p \<Rightarrow> max_concurrent_parses l > MAX_PERMITS
   | Inr sv \<Rightarrow>
       max_concurrent_parses l \<le> MAX_PERMITS \<and> sv_slots sv = max_concurrent_parses l
       \<and> max_document_bytes (sv_limits sv) = max_document_bytes l
       \<and> (\<forall>options. div_ceil (unat (eff_max_document_bytes (resolve_options (sv_limits sv) options)))
              BUDGET_UNIT \<le> sv_budget sv)
       \<and> sv_budget sv * BUDGET_UNIT < unat (max_buffered_upload_bytes (sv_limits sv)) + BUDGET_UNIT"
proof -
  let ?l = "l\<lparr>max_buffered_upload_bytes := max (max_buffered_upload_bytes l) (max_document_bytes l)\<rparr>"
  let ?n = "unat (max (max_buffered_upload_bytes l) (max_document_bytes l))"
  have pool: "min (div_ceil ?n BUDGET_UNIT) MAX_PERMITS = div_ceil ?n BUDGET_UNIT"
    using max_permits_enough by (simp add: min_def)
  have cap: "unat (eff_max_document_bytes (resolve_options ?l options)) \<le> ?n" for options
  proof -
    have "eff_max_document_bytes (resolve_options ?l options) \<le> max_document_bytes l"
      by (simp add: resolve_options_def narrow_def)
    then show ?thesis by (simp add: word_le_nat_alt unat_max)
  qed
  have above: "div_ceil n BUDGET_UNIT * BUDGET_UNIT < n + BUDGET_UNIT" for n
  proof -
    have n: "n div BUDGET_UNIT * BUDGET_UNIT + n mod BUDGET_UNIT = n" by (rule div_mult_mod_eq)
    show ?thesis
    proof (cases "n mod BUDGET_UNIT = 0")
      case True
      with n show ?thesis by (simp add: div_ceil_def) (simp add: BUDGET_UNIT_def)
    next
      case False
      then have "div_ceil n BUDGET_UNIT * BUDGET_UNIT = n div BUDGET_UNIT * BUDGET_UNIT + BUDGET_UNIT"
        by (simp add: div_ceil_def)
      also have "\<dots> < n + BUDGET_UNIT" using n False by linarith
      finally show ?thesis .
    qed
  qed
  have permits: "\<not> MAX_PERMITS < div_ceil ?n BUDGET_UNIT"
    using max_permits_enough [of "max (max_buffered_upload_bytes l) (max_document_bytes l)"] by simp
  have fits: "div_ceil (unat (eff_max_document_bytes (resolve_options ?l options))) BUDGET_UNIT
      \<le> div_ceil ?n BUDGET_UNIT" for options
    by (rule div_ceil_mono [OF _ cap]) (simp add: BUDGET_UNIT_def)
  show ?thesis
  proof (cases "MAX_PERMITS < max_concurrent_parses l")
    case True
    then show ?thesis by (simp add: with_metrics_def new_semaphore_def Let_def and_then_def)
  next
    case False
    with permits have "with_metrics l = Inr \<lparr>sv_limits = ?l, sv_slots = max_concurrent_parses l,
        sv_budget = div_ceil ?n BUDGET_UNIT, sv_idle_timeout = DEFAULT_IDLE_TIMEOUT,
        sv_upload_timeout = DEFAULT_UPLOAD_TIMEOUT\<rparr>"
      by (simp add: with_metrics_def new_semaphore_def Let_def and_then_def pool)
    with False fits above [of ?n] show ?thesis by simp
  qed
qed

section \<open>A small service\<close>

definition sample_service :: service where
  "sample_service = \<lparr>sv_limits = default_limits, sv_slots = 2, sv_budget = 4,
     sv_idle_timeout = DEFAULT_IDLE_TIMEOUT, sv_upload_timeout = DEFAULT_UPLOAD_TIMEOUT\<rparr>"

definition sample_shared :: shared where
  "sample_shared = \<lparr>sh_available = 4, sh_slots = 2, sh_metrics = new_metrics\<rparr>"

definition sample_frame :: parse_request where
  "sample_frame = \<lparr>rq_frame = Some (Chunk ''PK'')\<rparr>"

definition sample_upload :: upload where
  "sample_upload = \<lparr>up_bytes = ''PK'', up_capacity = 2, up_held = 1\<rparr>"

definition sample_clock :: upload_clock where
  "sample_clock = \<lparr>uc_idle = 10, uc_total = 100, uc_deadline = 100\<rparr>"

definition sample_frames :: "(nat \<times> inbound) list" where
  "sample_frames = [(3, Message sample_frame), (9, Message \<lparr>rq_frame = None\<rparr>),
     (19, Message \<lparr>rq_frame = Some (Chunk ''34'')\<rparr>)]"

lemmas sample_simps = sample_clock_def sample_frames_def sample_frame_def sample_shared_def
  sample_upload_def no_upload_def receive_frame_def receive_chunk_def grow_def reserve_upload_def
  count_uploaded_def frame_limit_def after_def div_ceil_def BUDGET_UNIT_def default_effective_def
  resolve_options_def narrow_def default_options_def default_limits_def
  DEFAULT_MAX_DOCUMENT_MIB_def DEFAULT_MAX_CHUNK_BYTES_def MIB_def u64_of_u32_def

lemma sample_received:
  "receive_frame default_limits (eff_max_document_bytes default_effective) sample_frame no_upload sample_shared
     = (Inr sample_upload, sample_shared\<lparr>sh_available := 3\<rparr>)"
  by (simp add: sample_simps)

lemma sample_reachable:
  "reachable sample_service new_metrics
     (set_call 7 (Uploading default_effective sample_upload) (sample_shared\<lparr>sh_available := 3\<rparr>)
       (start_world sample_service new_metrics))"
proof -
  let ?w0 = "start_world sample_service new_metrics"
  let ?w1 = "set_call 7 (Uploading default_effective no_upload) sample_shared ?w0"
  have "wd_shared ?w0 = sample_shared" by (simp add: start_world_def sample_shared_def sample_service_def)
  then have "step sample_service ?w0 ?w1"
    using step.Opens [of ?w0 7 sample_service default_options]
    by (simp add: start_world_def sample_service_def default_effective_def)
  moreover have "step sample_service ?w1
      (set_call 7 (Uploading default_effective sample_upload) (sample_shared\<lparr>sh_available := 3\<rparr>) ?w1)"
    by (rule step.Receives [where rq = sample_frame and up = no_upload])
      (simp_all add: set_call_def sample_service_def sample_received)
  ultimately show ?thesis
    by (simp add: reachable_def set_call_def)
qed

theorem uploads_within_budget_witness:
  "\<exists>w. reachable sample_service new_metrics w \<and> wd_calls w 7 \<noteq> None
     \<and> buffered w \<le> sv_budget sample_service * BUDGET_UNIT"
proof -
  have "wd_calls (set_call i p sh w) i \<noteq> None" for i p sh w by (simp add: set_call_def)
  then show ?thesis
    using sample_reachable uploads_within_budget [OF sample_reachable] by blast
qed

theorem started_parses_are_accounted_witness:
  "\<exists>w. reachable sample_service new_metrics w \<and> wd_calls w 7 \<noteq> None
     \<and> parses_started (sh_metrics (wd_shared w)) =
         parses_succeeded (sh_metrics (wd_shared w)) + parses_failed (sh_metrics (wd_shared w))
         + of_nat (parsing w)"
proof -
  have "wd_calls (set_call i p sh w) i \<noteq> None" for i p sh w by (simp add: set_call_def)
  then show ?thesis
    using sample_reachable started_parses_are_accounted [OF sample_reachable] by blast
qed

lemma sample_receive:
  "receive 1000 sample_clock default_limits 1500 0 (sample_frames @ [(20, EndOfStream)]) no_upload sample_shared
     = (Inr \<lparr>up_bytes = ''PK34'', up_capacity = 4, up_held = 1\<rparr>,
        \<lparr>sh_available = 3, sh_slots = 2, sh_metrics = uploaded 4 new_metrics\<rparr>)"
  by (simp add: receive.simps next_frame_limit sample_simps)

theorem received_upload_is_its_frames_witness:
  "\<exists>up sh'. receive 1000 sample_clock default_limits 1500 0 (sample_frames @ [(20, EndOfStream)])
       no_upload sample_shared = (Inr up, sh')
     \<and> length (up_bytes up) \<le> up_held up * BUDGET_UNIT"
  using received_upload_is_its_frames [OF sample_receive] sample_receive by blast

theorem allowed_upload_is_received_witness:
  "\<exists>up sh'. receive 1000 sample_clock default_limits 1500 0 (sample_frames @ (20, EndOfStream) # [])
       no_upload sample_shared = (Inr up, sh') \<and> up_bytes up = ''PK34''"
proof -
  have "on_time 1000 sample_clock 0 (sample_frames @ [(20, EndOfStream)])"
    "list_all (\<lambda>f. \<exists>bytes. frame_bytes (snd f) = Some bytes
       \<and> length bytes \<le> unat (max_chunk_bytes default_limits)) sample_frames"
    "length (concat (map (\<lambda>f. the (frame_bytes (snd f))) sample_frames)) \<le> unat (1500 :: u64)"
    "div_ceil (unat (1500 :: u64)) BUDGET_UNIT \<le> sh_available sample_shared"
    "div_ceil (unat (1500 :: u64)) BUDGET_UNIT < 2 ^ 32"
    by (simp_all add: sample_frames_def sample_frame_def sample_clock_def sample_shared_def
        frame_limit_def after_def frame_bytes_def default_limits_def DEFAULT_MAX_CHUNK_BYTES_def
        MIB_def div_ceil_def BUDGET_UNIT_def)
  from allowed_upload_is_received [OF this, of "[]"] show ?thesis
    by (simp add: sample_frames_def sample_frame_def frame_bytes_def)
qed

end
