(* ===== verification/SampleCall.thy ===== *)
theory SampleCall imports Counters FoldIntegrity Service begin

text \<open>
  A small book and the call that sends it, evaluated: three entries (container, package, one chapter),
  a reader that knows their events, and an archive laid out record after record.  With a date that
  reads, the call completes; with the date of \<open>Datetime\<close> that panics, it panics at its first event.
  The properties of whole calls are applied to it.
\<close>

section \<open>The book\<close>

definition sample_start :: "string \<Rightarrow> (string \<times> string) list \<Rightarrow> xml_start" where
  "sample_start name attributes = \<lparr>st_local = name, st_attributes =
     map (\<lambda>(key, v). Inr \<lparr>at_key = key, at_local = key, at_raw = v, at_normalized = Some v\<rparr>) attributes\<rparr>"

definition sample_container :: "xml_event list" where
  "sample_container =
    [EvStart (sample_start ''container'' []), EvStart (sample_start ''rootfiles'' []),
     EvEmpty (sample_start ''rootfile''
       [(''full-path'', ''p.opf''), (''media-type'', ''application/oebps-package+xml'')]),
     EvEnd ''rootfiles'', EvEnd ''container'']"

definition sample_package :: "string \<Rightarrow> xml_event list" where
  "sample_package date =
    [EvStart (sample_start ''package'' [(''version'', ''3.0'')]),
     EvStart (sample_start ''metadata'' []), EvStart (sample_start ''date'' []), EvText date,
     EvEnd ''date'', EvEnd ''metadata'',
     EvStart (sample_start ''manifest'' []),
     EvEmpty (sample_start ''item'' [(''id'', ''c''), (''href'', ''c.xhtml''),
       (''media-type'', ''application/xhtml+xml'')]), EvEnd ''manifest'',
     EvStart (sample_start ''spine'' []), EvEmpty (sample_start ''itemref'' [(''idref'', ''c'')]),
     EvEnd ''spine'', EvEnd ''package'']"

definition sample_reader :: "string \<Rightarrow> xml_reader" where
  "sample_reader date _ bytes =
     map Inr (if bytes = ''C'' then sample_container
              else if bytes = ''P'' then sample_package date else [])"

definition sample_entry :: "string \<Rightarrow> nat \<Rightarrow> nat \<Rightarrow> zip_entry" where
  "sample_entry name sz start = \<lparr>ze_name = Inr name, ze_encrypted = False, ze_compression = Stored,
     ze_size = of_nat sz, ze_compressed_size = of_nat sz, ze_central_header_start = start\<rparr>"

definition sample_row :: "char \<Rightarrow> string \<Rightarrow> string" where
  "sample_row len name = replicate 28 CHR 0x00 @ [len] @ replicate 17 CHR 0x00 @ name"

definition sample_bytes :: string where
  "sample_bytes = replicate 8 CHR 0x20 @ sample_row CHR 0x16 ''META-INF/container.xml''
     @ sample_row CHR 0x05 ''p.opf'' @ sample_row CHR 0x07 ''c.xhtml''"

definition sample_archive :: memory_archive where
  "sample_archive = \<lparr>za_headers = [Inr (sample_entry ''META-INF/container.xml'' 1 8),
      Inr (sample_entry ''p.opf'' 1 76), Inr (sample_entry ''c.xhtml'' 5 127)],
     za_directory_start = 8,
     za_reads = (\<lambda>i. Inr [Inr (if i = 0 then ''C'' else if i = 1 then ''P'' else ''Hello'')])\<rparr>"

definition sample_effective :: effective where
  "sample_effective = \<lparr>eff_max_document_bytes = 1000, eff_max_uncompressed_bytes = 100, eff_max_entries = 10,
     eff_max_compression_ratio = 20, eff_compression_ratio_floor_bytes = 64, eff_include_images = True,
     eff_include_stylesheets = False, eff_include_all_resources = False, eff_emit_document = True,
     eff_parse_navigation = True, eff_parse_media_overlays = False\<rparr>"


section \<open>Opening it\<close>

definition sample_zip :: "string \<Rightarrow> zip_error + memory_archive" where
  "sample_zip = (\<lambda>_. Inr sample_archive)"

lemma count_windows_absent: "b \<notin> set bs \<Longrightarrow> count_windows (b # sig) bs = 0"
  by (induction bs) auto

lemma sample_length: "length sample_bytes = 180"
  by (simp add: sample_bytes_def sample_row_def)

lemma sample_record_walk:
  "walk_step sample_bytes [8,76,127] 8 = Inr 76" "walk_step sample_bytes [8,76,127] 76 = Inr 127"
  by (simp_all add: walk_step_def u16_field_def get_range_def CENTRAL_RECORD_FIXED_def sample_bytes_def sample_row_def replicate_two ord_def)

lemma sample_opens: "open_archive sample_zip sample_bytes sample_effective = Inr sample_archive"
proof -
  have "count_windows CENTRAL_RECORD_SIGNATURE sample_bytes = 0"
    unfolding CENTRAL_RECORD_SIGNATURE_def
    by (rule count_windows_absent) (simp add: sample_bytes_def sample_row_def)
  moreover have "refuse_merged_records sample_bytes sample_archive = Inr ()"
    by (simp add: refuse_merged_records_def sample_archive_def sample_entry_def walk_records.simps
        sample_record_walk)
  moreover have "sample_bytes \<noteq> []" by (simp add: sample_bytes_def)
  ultimately show ?thesis
    by (simp add: open_archive_def Let_def sample_zip_def sample_archive_def [THEN arg_cong, of za_headers]
        u32_or_max_def u32_try_from_def sample_effective_def)
qed

definition sample_infos :: "entry_info list" where
  "sample_infos = [\<lparr>ei_index = 0, ei_name = ''META-INF/container.xml'', ei_declared_size = 1,
      ei_compressed_size = 1\<rparr>,
    \<lparr>ei_index = 1, ei_name = ''p.opf'', ei_declared_size = 1, ei_compressed_size = 1\<rparr>,
    \<lparr>ei_index = 2, ei_name = ''c.xhtml'', ei_declared_size = 5, ei_compressed_size = 5\<rparr>]"

lemma sample_scan: "scan sample_archive = Inr \<lparr>scan_entries = sample_infos, scan_unusable = []\<rparr>"
  by (simp add: scan_def sample_archive_def sample_infos_def sample_entry_def Let_def stored_cap_def
      check_entry_name_def suffix_to_prefix Href.normalize_def MAX_PATH_BYTES_def replace_byte_def
      base_segments_def)

lemma sample_parse_container: "parse_container (sample_reader date) ''C'' = Inr ''p.opf''"
  by (simp add: sample_reader_def [abs_def] parse_container_def sample_container_def
      sample_start_def Let_def attribute_def attribute_value_def)


definition sample_meta :: "string \<Rightarrow> metadata" where
  "sample_meta date = empty_metadata\<lparr>md_date := date,
     md_entries := [\<lparr>me_element = ''date'', me_value = date, me_id = [], me_scheme = [], me_refinements = []\<rparr>]\<rparr>"

definition sample_pack :: "string \<Rightarrow> package" where
  "sample_pack date = \<lparr>pk_version = ''3.0'', pk_unique_identifier_id = [], pk_metadata = sample_meta date,
     pk_manifest = [\<lparr>mi_id = ''c'', mi_href = ''c.xhtml'', mi_media_type = ''application/xhtml+xml'',
       mi_properties = [], mi_media_overlay = [], mi_fallback = []\<rparr>],
     pk_spine = [\<lparr>si_idref = ''c'', si_linear = True\<rparr>], pk_toc_idref = []\<rparr>"

definition fair_date :: string where
  "fair_date = ''1843-12-19''"

definition foul_date :: string where
  "foul_date = ''2026-08-25T12:00+a'' @ [CHR 0xC3, CHR 0xA9] @ ''b''"

text \<open>Evaluating from the left: the continuation is not rewritten before its argument is there.\<close>

lemma and_then_weak: "x = y \<Longrightarrow> and_then x f = and_then y f" by simp

lemma sample_parse_package:
  assumes "trim date = date"
  shows "parse_package (sample_reader date) ''P'' = Inr (sample_pack date)"
proof -
  have none: "split_whitespace [] = []" by code_simp
  have "drive package_step new_parser (map Inr (sample_package date)) = Inr
     \<lparr>pp_package = (sample_pack date)\<lparr>pk_metadata := empty_metadata\<lparr>md_entries :=
          [\<lparr>me_element = ''date'', me_value = date, me_id = [], me_scheme = [], me_refinements = []\<rparr>]\<rparr>\<rparr>,
       pp_saw_package = True, pp_section = Outside, pp_depth = 0, pp_section_depth = 2,
       pp_collecting = None, pp_text = [], pp_refinements = []\<rparr>"
    by (simp add: sample_package_def sample_start_def package_step_def open_tag_def close_tag_def
        enter_def update_package_def Let_def attribute_def open_metadata_def is_cover_meta_def
        pending_of_def item_of_def itemref_of_def new_parser_def empty_package_def collect_def
        epub2_refinements_def DUBLIN_CORE_def store_def attribute_value_def update_metadata_def
        assms none sample_pack_def empty_metadata_def cong: and_then_weak let_weak_cong)
  then show ?thesis
    by (simp add: parse_package_def sample_reader_def finish_metadata_def Let_def sample_pack_def
        derive_def first_of_def every_of_def credited_def main_title_def first_or_empty_def
        sample_meta_def empty_metadata_def)
qed

lemma sample_dates: "trim fair_date = fair_date" "trim foul_date = foul_date"
  by (simp_all add: plain_text fair_date_def foul_date_def)

definition opened_sample :: "string \<Rightarrow> book" where
  "opened_sample date = \<lparr>bk_obfuscated = [], bk_opf_path = ''p.opf'', bk_package = sample_pack date,
     bk_resolved = [\<lparr>rv_item = \<lparr>mi_id = ''c'', mi_href = ''c.xhtml'', mi_media_type = ''application/xhtml+xml'',
       mi_properties = [], mi_media_overlay = [], mi_fallback = []\<rparr>, rv_path = ''c.xhtml'',
       rv_entry = Some 2, rv_remote = False, rv_unusable = None\<rparr>],
     bk_spine = [(0, 0, \<lparr>si_idref = ''c'', si_linear = True\<rparr>)]\<rparr>"

lemma sample_index:
  "index_of sample_infos ENCRYPTION_PATH = None" "index_of sample_infos MIMETYPE_PATH = None"
  "index_of sample_infos CONTAINER_PATH = Some 0"
  "index_of sample_infos ''p.opf'' = Some 1" "index_of sample_infos ''c.xhtml'' = Some 2"
  by (simp_all add: index_of_def sample_infos_def ENCRYPTION_PATH_def MIMETYPE_PATH_def CONTAINER_PATH_def)

lemma sample_references:
  "resolve [] ''p.opf'' = Inr (Entry ''p.opf'')" "resolve [] ''c.xhtml'' = Inr (Entry ''c.xhtml'')"
  by (simp_all add: resolve_def Href.normalize_def MAX_PATH_BYTES_def replace_byte_def base_segments_def
    is_absolute_uri_def find_byte_def percent_decode_def before_def)

lemma sample_parent: "parent_dir ''p.opf'' = []"
  by (simp add: parent_dir_def rfind_byte_def)

lemma sample_settle:
  "settle (index_of sample_infos) [] ''p.opf'' (sample_pack date) = Inr (opened_sample date)"
  by (simp add: settle_def sample_pack_def opened_sample_def sample_parent resolve_item_def
      sample_references lookup_entry_def sample_index resolve_itemref_def by_id_def chapter_source_def
      is_markup_def Let_def numeral_eq_Suc MAX_FALLBACK_CHAIN_def)

lemma sample_lookups:
  "index_of sample_infos ENCRYPTION_PATH = None" "index_of sample_infos MIMETYPE_PATH = None"
  "index_of sample_infos CONTAINER_PATH = Some 0"
  "rootfile (index_of sample_infos) ''p.opf'' = Inr (''p.opf'', 1)"
  by (simp_all add: rootfile_def sample_references lookup_entry_def sample_index)

lemma sample_read:
  assumes "i < 3" and "5 \<le> unat (remaining b)"
  shows "read_entry sample_archive (sample_infos ! i) sample_effective b =
    (let out = (if i = 0 then ''C'' else if i = 1 then ''P'' else ''Hello'') in Inr (out, spend out b))"
proof -
  have five: "\<not> remaining b < 5" using assms(2) by (simp add: word_less_nat_alt)
  then have one: "\<not> remaining b < 1" by (simp add: word_less_nat_alt)
  have "i = 0 \<or> i = 1 \<or> i = 2" using assms(1) by arith
  with assms(2) five one show ?thesis
    by (auto simp: read_entry_def sample_infos_def sample_archive_def check_budget_def guard_err_def
        check_ratio_def sample_effective_def Let_def)
qed

lemma seq_weak: "c = d \<Longrightarrow> seq c f = seq d f" by simp

definition after_open :: "('f, 'doc) call_state \<Rightarrow> ('f, 'doc) call_state" where
  "after_open s = s\<lparr>cs_budget := spend ''P'' (spend ''C'' (cs_budget s)),
     cs_metrics := inflated 1 (inflated 1 (cs_metrics s)),
     cs_warnings := push_warning WarnMetadata MIMETYPE_PATH [Lit ''the archive has no `mimetype` entry'']
       (cs_warnings s)\<rparr>"

definition opened_setting :: "('f, 'doc) projection \<Rightarrow> string \<Rightarrow> ('f, 'doc) setting" where
  "opened_setting pj date = \<lparr>se_reader = sample_reader date, se_projection = pj,
     se_limits = sample_effective, se_archive = sample_archive, se_entries = sample_infos\<rparr>"

lemma sample_read_at:
  assumes "i < 3" and "5 \<le> unat (remaining (cs_budget s))"
  shows "read_at (opened_setting pj date) i s =
    (let out = (if i = 0 then ''C'' else if i = 1 then ''P'' else ''Hello'')
     in (Inr out, s\<lparr>cs_budget := spend out (cs_budget s),
                   cs_metrics := inflated (of_nat (length out)) (cs_metrics s)\<rparr>))"
  using sample_read [OF assms]
  by (simp add: read_at_def read_archive_def opened_setting_def seq_def count_def modify_def ret_def Let_def)

lemma sample_read_book:
  assumes "trim date = date" and "cs_budget s = new_budget 100"
  shows "read_book (opened_setting pj date) (index_of sample_infos) s = (Inr (opened_sample date), after_open s)"
proof -
  have left: "unat (remaining (spend out (new_budget 100))) = 99" if "length out = 1" for out
    using that by (simp add: spend_def new_budget_def)
  show ?thesis
    by (simp add: read_book_def read_encryption_def find_container_def read_named_def read_package_def
        sample_lookups declared_mimetype_def claims_epub_def warn_mimetype_def warn_def Let_def
        checked_def seq_def ret_def modify_def sample_read_at assms left
        sample_parse_container sample_parse_package [OF assms(1)] sample_settle after_open_def
        opened_setting_def [THEN arg_cong, of se_reader] new_budget_def [THEN arg_cong, of remaining]
        map_err_def cong: seq_weak)
qed


lemma hash_keeps [simp]:
  "cs_budget (set_source_hash pj h s) = cs_budget s" "cs_metrics (set_source_hash pj h s) = cs_metrics s"
  "cs_warnings (set_source_hash pj h s) = cs_warnings s" "cs_preread (set_source_hash pj h s) = cs_preread s"
  by (simp_all add: set_source_hash_def set_fold_def split: option.splits)

lemma sample_open_book:
  assumes "trim date = date" and "cs_budget s = new_budget 100"
  shows "open_book (sample_reader date) sample_zip pj sample_effective sample_bytes s =
    (Inr (opened_setting pj date, opened_sample date),
     after_open (set_source_hash pj (source_hash sample_bytes) s))"
  using sample_read_book [OF assms(1), of "set_source_hash pj (source_hash sample_bytes) s" pj] assms(2)
  by (simp add: open_book_def modify_def checked_def sample_opens sample_scan warn_unusable_def Let_def
      opened_setting_def seq_def ret_def)

lemma sample_info_date:
  "declared_creation (info_of (opened_sample date)) = date" "inf_modified (info_of (opened_sample date)) = []"
  by (simp_all add: declared_creation_def first_value_def info_of_def epub_info_of_def opened_sample_def
      sample_pack_def sample_meta_def empty_metadata_def pb_metadata_def Let_def)

lemma foul_date_panics: "source_meta (info_of (opened_sample foul_date)) = Inl (Panic ''split_at'')"
proof -
  have "parse_date foul_date = Inl (Panic ''split_at'')"
    using parse_date_ascii [of "[]"] by (simp add: foul_date_def)
  then show ?thesis by (simp add: source_meta_def sample_info_date Let_def)
qed

lemma fair_date_folds: "\<not> foreign_date (info_of (opened_sample fair_date))"
  by (simp add: foreign_date_def sample_info_date fair_date_def byte_defs)


section \<open>Sending it\<close>

text \<open>A channel that takes every message, and a fold that does not panic: each send goes out.\<close>

definition lively :: "(document_fold, 'doc) call_state \<Rightarrow> bool" where
  "lively s \<longleftrightarrow> fold_of s \<noteq> None \<and> channel s = (\<lambda>_. TrySent) \<and> cs_preread s = Map.empty"

lemma consume_fair:
  assumes "\<And>info. ev = EventInfo info \<Longrightarrow> \<not> foreign_date info"
  shows "\<exists>f'. consume ev f = Inr f'"
  using consume_Inl [of ev f] assms by (cases "consume ev f") blast+

lemma lively_emit:
  fixes s :: "(document_fold, document) call_state"
  assumes "lively s" and "\<And>info. ev = EventInfo info \<Longrightarrow> \<not> foreign_date info"
  shows "\<exists>s'. emit (opened_setting document_projection date) ev s = (Inr (), s') \<and> lively s'
    \<and> cs_budget s' = cs_budget s"
proof -
  obtain f where f: "fold_of s = Some f" using assms(1) by (auto simp: lively_def)
  obtain f' where fed: "consume ev f = Inr f'" using consume_fair [of ev f] assms(2) by blast
  obtain doc f'' where taken: "take_document f' = (doc, f'')" by (cases "take_document f'")
  show ?thesis
    using assms(1) f fed taken
    by (cases ev) (auto simp: emit_def opened_setting_def document_projection_def lively_def send_def
        seq_def deliver_def set_fold_def)
qed

lemma lively_status:
  fixes s :: "(document_fold, document) call_state"
  assumes "lively s"
  shows "\<exists>s'. emit_status (opened_setting document_projection date) skipped s = (Inr (), s')"
  using lively_emit [OF assms, of "EventStatus (trailer_of skipped s)" date] by (auto simp: emit_status_def)

lemma sample_walk:
  "navigation_source (bk_resolved (opened_sample date)) (bk_package (opened_sample date)) = None"
  "pl_pending (plan_walk sample_effective [] (bk_resolved (opened_sample date)) (bk_spine (opened_sample date)) w) = []"
  "enumerate 0 (bk_spine (opened_sample date)) = [(0, 0, 0, \<lparr>si_idref = ''c'', si_linear = True\<rparr>)]"
  "chapter_entry (bk_resolved (opened_sample date)) (0, 0, \<lparr>si_idref = ''c'', si_linear = True\<rparr>) = 2"
  by (simp_all add: navigation_source_def opened_sample_def sample_pack_def has_property_def by_id_def
      plan_walk_def plan_item_def spine_sources_def chapter_entry_def)

lemma lively_content:
  fixes s :: "(document_fold, document) call_state"
  assumes "lively s" and "5 \<le> unat (remaining (cs_budget s))"
  shows "\<exists>s'. entry_content (opened_setting document_projection date) 2 s = (Inr ''Hello'', s') \<and> lively s'"
proof -
  have "cs_preread s = Map.empty" using assms(1) by (simp add: lively_def)
  then show ?thesis
    using assms sample_read_at [of 2 "s\<lparr>cs_preread := Map.empty\<rparr>" document_projection date]
    by (simp add: entry_content_def preread_take_def seq_def Let_def lively_def)
qed

lemma lively_chapter:
  fixes s :: "(document_fold, document) call_state"
  assumes "lively s" and "5 \<le> unat (remaining (cs_budget s))"
  shows "\<exists>s'. emit_chapter (opened_setting document_projection date) (opened_sample date)
      (0, 0, 0, \<lparr>si_idref = ''c'', si_linear = True\<rparr>) s = (Inr (), s') \<and> lively s'"
proof -
  let ?ev = "EventChapter (chapter_of (bk_resolved (opened_sample date))
      (0, 0, 0, \<lparr>si_idref = ''c'', si_linear = True\<rparr>) ''Hello'')"
  obtain s1 where read: "entry_content (opened_setting document_projection date) 2 s = (Inr ''Hello'', s1)"
    "lively s1" using lively_content [OF assms] by blast
  obtain s2 where emit: "emit (opened_setting document_projection date) ?ev s1 = (Inr (), s2)" "lively s2"
    using lively_emit [OF read(2), of ?ev] by blast
  show ?thesis
    using emit(2) unfolding emit_chapter_def snd_conv sample_walk seq_def [of "entry_content _ _"]
    by (simp add: read(1) seq_def emit(1) count_def modify_def lively_def)
qed

lemma sample_completes:
  fixes m :: metrics
  shows "\<exists>s :: (document_fold, document) call_state.
    run (sample_reader fair_date) sample_zip document_projection sample_effective sample_bytes m
      (new_sink (\<lambda>_. TrySent) (Some (new_fold version))) = (Inr Complete, s)"
proof -
  let ?st = "opened_setting document_projection fair_date :: (document_fold, document) setting"
  let ?b = "opened_sample fair_date"
  let ?s0 = "start_call sample_effective m (new_sink (\<lambda>_. TrySent) (Some (new_fold version)))
    :: (document_fold, document) call_state"
  let ?s1 = "after_open (set_source_hash document_projection (source_hash sample_bytes) ?s0)"
  have "cs_budget ?s0 = new_budget 100" by (simp add: start_call_def sample_effective_def)
  then have opened: "open_book (sample_reader fair_date) sample_zip document_projection sample_effective
      sample_bytes ?s0 = (Inr (?st, ?b), ?s1)"
    by (rule sample_open_book [OF sample_dates(1)])
  have room: "5 \<le> unat (remaining (cs_budget ?s1))"
    by (simp add: after_open_def start_call_def sample_effective_def spend_def new_budget_def)
  have "lively ?s1"
    by (simp add: lively_def after_open_def start_call_def new_sink_def set_source_hash_def set_fold_def)
  then obtain s2 where info: "emit ?st (EventInfo (info_of ?b)) ?s1 = (Inr (), s2)" "lively s2"
      "cs_budget s2 = cs_budget ?s1"
    using lively_emit [of ?s1 "EventInfo (info_of ?b)"] fair_date_folds by auto
  obtain p s3 where plan: "make_plan ?st ?b s2 = (Inr p, s3)" "pl_pending p = []" "lively s3"
      "cs_budget s3 = cs_budget s2"
    using info(2) sample_walk(2)
    by (simp add: make_plan_def Let_def lively_def opened_setting_def opened_sample_def)
  obtain s4 where sent: "emit_chapter ?st ?b (0, 0, 0, \<lparr>si_idref = ''c'', si_linear = True\<rparr>) s3 = (Inr (), s4)"
      "lively s4"
    using lively_chapter [OF plan(3)] room plan(4) info(3) by auto
  obtain s5 where status: "emit_status ?st (pl_skipped p) s4 = (Inr (), s5)"
    using lively_status [OF sent(2)] by blast
  have nav: "send_navigation ?st ?b wanted = ret ()" for wanted
    by (simp add: send_navigation_def sample_walk)
  have overlays: "send_overlays ?st ?b wanted = ret ()" for wanted
    by (simp add: send_overlays_def opened_setting_def sample_effective_def)
  have "send_book ?st ?b ?s1 = (Inr (), s5)"
    by (simp add: send_book_def seq_def info(1) plan(1,2) Let_def nav overlays ret_def sample_walk
        sent(1) status)
  then show ?thesis
    by (simp add: run_def parse_def seq_def opened outcome_of_def)
qed


lemma sample_panics:
  "\<exists>s :: (document_fold, document) call_state.
    run (sample_reader foul_date) sample_zip document_projection sample_effective sample_bytes m
      (new_sink (\<lambda>_. TrySent) (Some (new_fold version))) = (Inl (Panic ''split_at''), s)"
proof -
  let ?st = "opened_setting document_projection foul_date :: (document_fold, document) setting"
  let ?b = "opened_sample foul_date"
  let ?s0 = "start_call sample_effective m (new_sink (\<lambda>_. TrySent) (Some (new_fold version)))
    :: (document_fold, document) call_state"
  let ?s1 = "after_open (set_source_hash document_projection (source_hash sample_bytes) ?s0)"
  have "cs_budget ?s0 = new_budget 100" by (simp add: start_call_def sample_effective_def)
  then have opened: "open_book (sample_reader foul_date) sample_zip document_projection sample_effective
      sample_bytes ?s0 = (Inr (?st, ?b), ?s1)"
    by (rule sample_open_book [OF sample_dates(2)])
  have "\<exists>f. fold_of ?s1 = Some f"
    by (simp add: after_open_def start_call_def new_sink_def set_source_hash_def set_fold_def)
  then have "send_book ?st ?b ?s1 = (Inl (Raised (Panic ''split_at'')), ?s1)"
    by (auto simp: send_book_def seq_def emit_def opened_setting_def document_projection_def consume_def
        fold_info_def foul_date_panics)
  then show ?thesis
    by (simp add: run_def parse_def seq_def opened outcome_of_def)
qed

section \<open>Uploading it\<close>

definition sample_limits :: limits where
  "sample_limits = \<lparr>max_document_bytes = 1000, max_uncompressed_bytes = 100, max_entries = 10,
     max_compression_ratio = 20, compression_ratio_floor_bytes = 64, max_chunk_bytes = 200,
     max_concurrent_parses = 2, max_buffered_upload_bytes = 4096\<rparr>"

definition book_service :: service where
  "book_service = \<lparr>sv_limits = sample_limits, sv_slots = 2, sv_budget = 4,
     sv_idle_timeout = DEFAULT_IDLE_TIMEOUT, sv_upload_timeout = DEFAULT_UPLOAD_TIMEOUT\<rparr>"

definition book_frames :: "(nat \<times> inbound) list" where
  "book_frames =
     [(1, Message \<lparr>rq_frame = Some (Options (default_options\<lparr>opt_emit_document := True\<rparr>))\<rparr>),
      (2, Message \<lparr>rq_frame = Some (Chunk sample_bytes)\<rparr>), (3, EndOfStream)]"

lemma sample_admitted:
  "admit 1000000000000 book_service 0 book_frames sample_shared =
    (Inr (sample_effective, \<lparr>up_bytes = sample_bytes, up_capacity = 180, up_held = 1\<rparr>),
     \<lparr>sh_available = 3, sh_slots = 2, sh_metrics = uploaded 180 new_metrics\<rparr>)"
proof -
  show ?thesis
    by (simp add: admit_def book_service_def book_frames_def read_options_def start_clock_def
        next_frame_limit frame_limit_def after_def seconds_long_def DEFAULT_IDLE_TIMEOUT_def
        DEFAULT_UPLOAD_TIMEOUT_def resolve_options_def default_options_def sample_limits_def
        sample_effective_def narrow_def receive.simps receive_frame_def receive_chunk_def no_upload_def
        grow_def reserve_upload_def div_ceil_def BUDGET_UNIT_def sample_shared_def count_uploaded_def
        Let_def sample_length)
qed

end
