(* ===== verification/Handler.thy ===== *)
theory Handler imports SampleCall begin

text \<open>
  \<open>parse_epub\<close> of \<open>src/service.rs\<close> as a whole: the upload of one call, its parse under a slot, and the
  supervisor, over the models of those parts.  A call on its own is a path of the process of
  \<open>Service\<close>, so what is true of every reachable state of the process is true after it; and what the
  client is told at the end is what happened to the parse.

  \<open>version\<close> is the crate's version, which the fold writes into a document.
\<close>

section \<open>The handler\<close>

text \<open>What \<open>spawn_blocking\<close> runs: the sink with its fold, when one was asked for, and the parse.\<close>

definition fold_of_call :: "string \<Rightarrow> effective \<Rightarrow> document_fold option" where
  "fold_of_call version eff = (if eff_emit_document eff then Some (new_fold version) else None)"

definition parse_task ::
  "xml_reader \<Rightarrow> (string \<Rightarrow> zip_error + memory_archive) \<Rightarrow> string \<Rightarrow> (nat \<Rightarrow> delivery) \<Rightarrow> effective
     \<Rightarrow> string \<Rightarrow> metrics
     \<Rightarrow> (panic + outcome) \<times> (document_fold, document) call_state" where
  "parse_task reader zip_new version chan eff bytes m =
     run reader zip_new document_projection eff bytes m (new_sink chan (fold_of_call version eff))"

text \<open>What awaiting the task's handle gives.\<close>

fun join_of :: "panic + outcome \<Rightarrow> join" where
  "join_of (Inl (Panic message)) = Panicked (Some message)"
| "join_of (Inr out) = Joined out"

datatype 'doc answer = Rejected status | Streamed "'doc event list" "status option"

text \<open>
  One call, from its first frame to the end of its response stream.  \<open>None\<close> is a call that has no
  slot to parse in and waits.
\<close>

definition parse_epub ::
  "xml_reader \<Rightarrow> (string \<Rightarrow> zip_error + memory_archive) \<Rightarrow> string \<Rightarrow> nat \<Rightarrow> service
     \<Rightarrow> (nat \<Rightarrow> delivery) \<Rightarrow> nat \<Rightarrow> (nat \<times> inbound) list \<Rightarrow> shared
     \<Rightarrow> (document answer \<times> shared) option" where
  "parse_epub reader zip_new version im sv chan now arrivals sh =
     (case admit im sv now arrivals sh of
        (Inl e, sh1) \<Rightarrow> Some (Rejected e, sh1)
      | (Inr (eff, up), sh1) \<Rightarrow>
          if sh_slots sh1 = 0 then None
          else
            let sh2 = count_call parse_started (take_slot sh1);
                (out, s) = parse_task reader zip_new version chan eff (up_bytes up) (sh_metrics sh2);
                (st, sh3) = supervise (join_of out) (sh2\<lparr>sh_metrics := cs_metrics s\<rparr>)
            in Some (Streamed (wire s) st, release_share (up_held up) (release_slot sh3)))"

section \<open>A call as steps of the process\<close>

lemma set_call_set_call [simp]: "set_call i p sh (set_call i p' sh' w) = set_call i p sh w"
  by (simp add: set_call_def)

lemma end_call_set_call [simp]: "end_call i sh (set_call i p sh' w) = end_call i sh w"
  by (simp add: set_call_def end_call_def)

lemma set_call_fields [simp]:
  "wd_shared (set_call i p sh w) = sh" "wd_calls (set_call i p sh w) i = Some p"
  by (simp_all add: set_call_def)

lemma end_call_none: "wd_calls w i = None \<Longrightarrow> end_call i (wd_shared w) w = w"
  by (simp add: end_call_def fun_upd_idem)

text \<open>Where a call that received its upload, or failed to, leaves the process.\<close>

definition received_world :: "nat \<Rightarrow> effective \<Rightarrow> (status + upload) \<times> shared \<Rightarrow> world \<Rightarrow> world" where
  "received_world i eff r w =
     (case r of
        (Inl e, sh) \<Rightarrow> end_call i sh w
      | (Inr up, sh) \<Rightarrow> set_call i (Waiting eff up) sh w)"

lemma received_world_set_call [simp]:
  "received_world i eff r (set_call i p sh w) = received_world i eff r w"
  by (simp add: received_world_def split: prod.splits sum.splits)

lemma receive_refines:
  assumes "wd_calls w i = Some (Uploading eff up)"
  shows "rtranclp (step sv) w (received_world i eff
    (receive im c (sv_limits sv) (eff_max_document_bytes eff) now arrivals up (wd_shared w)) w)"
  using assms
proof (induction im c "sv_limits sv" "eff_max_document_bytes eff" now arrivals up "wd_shared w"
    arbitrary: w rule: receive.induct)
  case (1 im c now arrivals up)
  note here = "1.prems"
  note unroll = receive.simps [of im c "sv_limits sv" "eff_max_document_bytes eff" now arrivals up
      "wd_shared w"]
  show ?case
  proof (cases "next_frame im c now arrivals")
    case (Inl e)
    then show ?thesis using step.Cut [OF here] by (simp add: unroll received_world_def r_into_rtranclp)
  next
    case (Inr frame)
    obtain answer now' rest where frame: "frame = (answer, now', rest)" by (cases frame)
    show ?thesis
    proof (cases answer)
      case None
      then show ?thesis
        using step.Uploads [OF here] Inr frame by (simp add: unroll received_world_def r_into_rtranclp)
    next
      case (Some rq)
      obtain r sh
        where step: "receive_frame (sv_limits sv) (eff_max_document_bytes eff) rq up (wd_shared w) = (r, sh)"
        by (cases "receive_frame (sv_limits sv) (eff_max_document_bytes eff) rq up (wd_shared w)")
      show ?thesis
      proof (cases r)
        case (Inl e)
        then show ?thesis
          using step.Refuses [OF here step [unfolded Inl]] Inr frame Some step
          by (simp add: unroll received_world_def r_into_rtranclp)
      next
        case r: (Inr up')
        let ?w = "set_call i (Uploading eff up') sh w"
        have "rtranclp (step sv) ?w (received_world i eff
            (receive im c (sv_limits sv) (eff_max_document_bytes eff) now' rest up' sh) w)"
          using "1.hyps" [of frame answer "(now', rest)" rq now' rest r ?w up'] Inr frame Some step r
          by simp
        moreover have "step sv w ?w" by (rule step.Receives [OF here step [unfolded r]])
        ultimately show ?thesis
          using Inr frame Some step r by (simp add: unroll converse_rtranclp_into_rtranclp)
      qed
    qed
  qed
qed

lemma admit_refines:
  assumes "wd_calls w i = None"
  shows "rtranclp (step sv) w
    (case admit im sv now arrivals (wd_shared w) of
       (Inl e, sh) \<Rightarrow> end_call i sh w
     | (Inr (eff, up), sh) \<Rightarrow> set_call i (Waiting eff up) sh w)"
proof -
  let ?c = "start_clock im now (sv_idle_timeout sv) (sv_upload_timeout sv)"
  show ?thesis
  proof (cases "read_options im ?c now arrivals")
    case (Inl e)
    then show ?thesis by (simp add: admit_def Let_def end_call_none [OF assms])
  next
    case (Inr first)
    obtain options now' rest where first: "first = (options, now', rest)" by (cases first)
    let ?eff = "resolve_options (sv_limits sv) options"
    let ?w = "set_call i (Uploading ?eff no_upload) (wd_shared w) w"
    let ?r = "receive im ?c (sv_limits sv) (eff_max_document_bytes ?eff) now' rest no_upload (wd_shared w)"
    have "step sv w ?w" by (rule step.Opens [OF assms])
    moreover have "rtranclp (step sv) ?w (received_world i ?eff ?r w)"
      using receive_refines [of ?w i ?eff no_upload sv im ?c now' rest] by simp
    ultimately have "rtranclp (step sv) w (received_world i ?eff ?r w)"
      by (rule converse_rtranclp_into_rtranclp)
    then show ?thesis
      by (cases ?r) (auto simp: admit_def Let_def Inr first received_world_def split: sum.splits)
  qed
qed

text \<open>What a parse counts is a run of counting steps.\<close>

lemma counting_steps:
  assumes "wd_calls w i = Some (Parsing eff up)" and "list_all counts_work fs"
  shows "rtranclp (step sv) w
    (set_call i (Parsing eff up) (count_call (\<lambda>m. fold (\<lambda>f. f) fs m) (wd_shared w)) w)"
  using assms
proof (induction fs arbitrary: w)
  case Nil
  then have "set_call i (Parsing eff up) (wd_shared w) w = w" by (simp add: set_call_def fun_upd_idem)
  then show ?case by (simp add: count_call_def)
next
  case (Cons f fs)
  let ?w = "set_call i (Parsing eff up) (count_call f (wd_shared w)) w"
  have "step sv w ?w" by (rule step.Counts) (use Cons.prems in simp_all)
  moreover have "rtranclp (step sv) ?w
      (set_call i (Parsing eff up) (count_call (\<lambda>m. fold (\<lambda>f. f) fs m) (count_call f (wd_shared w))) w)"
    using Cons.IH [of ?w] Cons.prems by simp
  ultimately show ?case by (simp add: count_call_def converse_rtranclp_into_rtranclp)
qed

lemma counted_often:
  "(chapter_emitted ^^ n) m = m\<lparr>chapters_emitted := chapters_emitted m + of_nat n\<rparr>"
  "(resource_emitted ^^ n) m = m\<lparr>resources_emitted := resources_emitted m + of_nat n\<rparr>"
  by (induction n) (simp_all add: chapter_emitted_def resource_emitted_def algebra_simps)

lemma tallied_as_work:
  assumes "tallied m s"
  obtains fs where "list_all counts_work fs" "cs_metrics s = fold (\<lambda>f. f) fs m"
proof -
  let ?fs = "replicate (chapters_in (wire s)) chapter_emitted
    @ replicate (resources_in_wire (wire s)) resource_emitted
    @ [inflated (bytes_inflated (cs_metrics s) - bytes_inflated m)]"
  have "list_all counts_work ?fs" by (auto simp: list_all_iff counts_work_def)
  moreover have "cs_metrics s = fold (\<lambda>f. f) ?fs m"
    using assms by (intro metrics.equality) (simp_all add: counted_often inflated_def tallied_def)
  ultimately show ?thesis by (rule that)
qed

section \<open>What a call leaves and what it tells\<close>

text \<open>
  Receiving an upload moves permits between the pool and the call's share, and counts bytes; the
  rest of what is shared is as it was.
\<close>

definition others :: "shared \<Rightarrow> nat \<times> metrics" where
  "others sh = (sh_slots sh, (sh_metrics sh)\<lparr>bytes_uploaded := 0\<rparr>)"

lemma others_eq:
  "others sh' = others sh \<longleftrightarrow>
     sh_slots sh' = sh_slots sh
     \<and> parses_started (sh_metrics sh') = parses_started (sh_metrics sh)
     \<and> parses_succeeded (sh_metrics sh') = parses_succeeded (sh_metrics sh)
     \<and> parses_failed (sh_metrics sh') = parses_failed (sh_metrics sh)
     \<and> chapters_emitted (sh_metrics sh') = chapters_emitted (sh_metrics sh)
     \<and> resources_emitted (sh_metrics sh') = resources_emitted (sh_metrics sh)
     \<and> bytes_inflated (sh_metrics sh') = bytes_inflated (sh_metrics sh)"
  by (cases "sh_metrics sh"; cases "sh_metrics sh'") (auto simp: others_def)

lemma grow_moves:
  "grow l cap needed up sh = (r, sh') \<Longrightarrow>
     others sh' = others sh
     \<and> sh_available sh' + (case r of Inl _ \<Rightarrow> up_held up | Inr up' \<Rightarrow> up_held up')
         = sh_available sh + up_held up"
  by (auto simp: grow_def Let_def others_def split: prod.splits sum.splits
      dest!: reserve_upload_Inr reserve_upload_Inl)

lemma receive_frame_moves:
  "receive_frame l max_document rq up sh = (r, sh') \<Longrightarrow>
     others sh' = others sh
     \<and> sh_available sh' + (case r of Inl _ \<Rightarrow> up_held up | Inr up' \<Rightarrow> up_held up')
         = sh_available sh + up_held up"
  by (auto simp: receive_frame_def receive_chunk_def Let_def count_uploaded_def uploaded_def others_def
      split: option.splits frame.splits if_splits prod.splits sum.splits
      dest!: grow_moves)

lemma receive_moves:
  "receive im c l max_document now arrivals up sh = (r, sh') \<Longrightarrow>
     others sh' = others sh
     \<and> sh_available sh' + (case r of Inl _ \<Rightarrow> 0 | Inr up' \<Rightarrow> up_held up')
         = sh_available sh + up_held up"
proof (induction im c l max_document now arrivals up sh rule: receive.induct)
  case (1 im c l max_document now arrivals up sh)
  note unroll = receive.simps [of im c l max_document now arrivals up sh]
  show ?case
  proof (cases "next_frame im c now arrivals")
    case (Inl e)
    with "1.prems" show ?thesis by (auto simp: unroll release_share_def others_def)
  next
    case (Inr frame)
    obtain answer now' rest where frame: "frame = (answer, now', rest)" by (cases frame)
    show ?thesis
    proof (cases answer)
      case None
      with "1.prems" Inr frame show ?thesis
        by (auto simp: unroll count_uploaded_def uploaded_def others_def)
    next
      case (Some rq)
      obtain q sh1 where taken: "receive_frame l max_document rq up sh = (q, sh1)"
        by (cases "receive_frame l max_document rq up sh")
      note moved = receive_frame_moves [OF taken]
      show ?thesis
      proof (cases q)
        case (Inl e)
        with "1.prems" Inr frame Some taken moved show ?thesis
          by (auto simp: unroll release_share_def others_def)
      next
        case q: (Inr up1)
        have "receive im c l max_document now' rest up1 sh1 = (r, sh')"
          using "1.prems" Inr frame Some taken q by (simp add: unroll)
        with "1.IH" [of frame answer "(now', rest)" rq now' rest q sh1 up1] Inr frame Some taken q moved
        show ?thesis by simp
      qed
    qed
  qed
qed

lemma admit_moves:
  assumes "admit im sv now arrivals sh = (r, sh')"
  shows "others sh' = others sh
     \<and> sh_available sh' + (case r of Inl _ \<Rightarrow> 0 | Inr (eff, up) \<Rightarrow> up_held up) = sh_available sh"
proof (cases "read_options im (start_clock im now (sv_idle_timeout sv) (sv_upload_timeout sv)) now arrivals")
  case (Inl e)
  with assms show ?thesis by (auto simp: admit_def Let_def)
next
  case (Inr first)
  with assms show ?thesis
    by (auto simp: admit_def Let_def no_upload_def [THEN arg_cong, of up_held]
        split: prod.splits sum.splits dest!: receive_moves)
qed

section \<open>Properties of a call\<close>

lemma join_of_cases: "(\<exists>out. join_of r = Joined out \<and> r = Inr out) \<or> (\<exists>msg. join_of r = Panicked (Some msg))"
  by (cases r rule: join_of.cases) simp_all

lemma supervise_keeps:
  "supervise j sh = (st, sh') \<Longrightarrow>
     sh_slots sh' = sh_slots sh \<and> sh_available sh' = sh_available sh
     \<and> chapters_emitted (sh_metrics sh') = chapters_emitted (sh_metrics sh)
     \<and> resources_emitted (sh_metrics sh') = resources_emitted (sh_metrics sh)"
  by (auto simp: supervise_def count_call_def parse_succeeded_def parse_failed_def
      split: join.splits outcome.splits)

text \<open>The parse a streamed call has run.\<close>

lemma parse_epub_cases:
  fixes res :: "document answer"
  assumes "parse_epub reader zip_new version im sv chan now arrivals sh = Some (res, sh')"
  obtains (Refused) e where "admit im sv now arrivals sh = (Inl e, sh')" "res = Rejected e"
  | (Parsed) eff up sh1 sh2 out s st sh3 where
      "admit im sv now arrivals sh = (Inr (eff, up), sh1)" "sh_slots sh1 > 0"
      "sh2 = count_call parse_started (take_slot sh1)"
      "parse_task reader zip_new version chan eff (up_bytes up) (sh_metrics sh2) = (out, s)"
      "supervise (join_of out) (sh2\<lparr>sh_metrics := cs_metrics s\<rparr>) = (st, sh3)"
      "res = Streamed (wire s) st" "sh' = release_share (up_held up) (release_slot sh3)"
      "tallied (sh_metrics sh2) s"
proof -
  obtain r sh1 where admit: "admit im sv now arrivals sh = (r, sh1)"
    by (cases "admit im sv now arrivals sh")
  show ?thesis
  proof (cases r)
    case (Inl e)
    with assms admit Refused show ?thesis by (simp add: parse_epub_def)
  next
    case (Inr x)
    obtain eff up where x: "x = (eff, up)" by (cases x)
    let ?sh2 = "count_call parse_started (take_slot sh1)"
    obtain out and s :: "(document_fold, document) call_state"
      where task: "parse_task reader zip_new version chan eff (up_bytes up) (sh_metrics ?sh2) = (out, s)"
      by (rule prod.exhaust)
    obtain st sh3 where told: "supervise (join_of out) (?sh2\<lparr>sh_metrics := cs_metrics s\<rparr>) = (st, sh3)"
      by (cases "supervise (join_of out) (?sh2\<lparr>sh_metrics := cs_metrics s\<rparr>)")
    have "tallied (sh_metrics ?sh2) s"
      using task unfolding parse_task_def by (rule run_tallies)
    with assms admit Inr x task told show ?thesis
      by (intro Parsed [of eff up sh1 ?sh2 out s st sh3])
        (auto simp: parse_epub_def Let_def split: if_splits)
  qed
qed

text \<open>
  Property C3.  The handler is an implementation of the process: whatever the world it is called in,
  its upload, its wait, its parse and its end are a path of the process' transitions, so what holds of
  every reachable state of the process holds after it.
\<close>

theorem call_refines_process:
  assumes "wd_calls w i = None"
    and "parse_epub reader zip_new version im sv chan now arrivals (wd_shared w) = Some (res, sh)"
  shows "rtranclp (step sv) w (w\<lparr>wd_shared := sh\<rparr>)"
proof -
  have gone: "end_call i sh w = w\<lparr>wd_shared := sh\<rparr>" using assms(1) by (simp add: end_call_def fun_upd_idem)
  note admitted = admit_refines [OF assms(1), of sv im now arrivals]
  from assms(2) show ?thesis
  proof (cases rule: parse_epub_cases)
    case (Refused e)
    with admitted gone show ?thesis by simp
  next
    case (Parsed eff up sh1 sh2 out s st sh3)
    let ?w1 = "set_call i (Waiting eff up) sh1 w"
    let ?w2 = "set_call i (Parsing eff up) sh2 w"
    let ?w3 = "set_call i (Parsing eff up) (sh2\<lparr>sh_metrics := cs_metrics s\<rparr>) w"
    have "rtranclp (step sv) w ?w1" using admitted Parsed(1) by simp
    moreover have "step sv ?w1 ?w2"
      using step.Starts [of ?w1 i eff up sv] Parsed(2,3) by simp
    moreover have "rtranclp (step sv) ?w2 ?w3"
    proof -
      obtain fs where "list_all counts_work fs" "cs_metrics s = fold (\<lambda>f. f) fs (sh_metrics sh2)"
        using tallied_as_work [OF Parsed(8)] by blast
      with counting_steps [of ?w2 i eff up fs sv] show ?thesis
        by (simp add: count_call_def)
    qed
    moreover have "step sv ?w3 (end_call i sh w)"
      using step.Ends [of ?w3 i eff up "join_of out" st sh3 sv] Parsed(5,7) by simp
    ultimately show ?thesis unfolding gone by (meson rtranclp.rtrancl_into_rtrancl rtranclp_trans)
  qed
qed

text \<open>
  Property C29.  A call leaves what is shared as it found it: permits and slots all given back, whether
  it was refused, failed or complete; a refused call moves no counter but that of uploaded bytes, and
  a streamed one moves them by one parse started, one ended and the chapters and resources it streamed.
\<close>

theorem call_gives_back:
  assumes "parse_epub reader zip_new version im sv chan now arrivals sh = Some (res, sh')"
  shows "sh_available sh' = sh_available sh \<and> sh_slots sh' = sh_slots sh
    \<and> (let m = sh_metrics sh; m' = sh_metrics sh'
       in case res of
            Rejected _ \<Rightarrow> m'\<lparr>bytes_uploaded := bytes_uploaded m\<rparr> = m
          | Streamed evs st \<Rightarrow>
              parses_started m' = parses_started m + 1
              \<and> parses_succeeded m' + parses_failed m' = parses_succeeded m + parses_failed m + 1
              \<and> chapters_emitted m' = chapters_emitted m + of_nat (length (filter is_chapter evs))
              \<and> resources_emitted m' = resources_emitted m + of_nat (length (filter is_resource evs)))"
  using assms
proof (cases rule: parse_epub_cases)
  case (Refused e)
  from admit_moves [OF Refused(1)] Refused(2) show ?thesis
    by (simp add: others_eq Let_def)
next
  case (Parsed eff up sh1 sh2 out s st sh3)
  note moved = admit_moves [OF Parsed(1)] and told = supervise_keeps [OF Parsed(5)]
    supervise_counts [OF Parsed(5)]
  show ?thesis
    using moved told Parsed(2,3,6,7,8)
    by (auto simp: release_share_def release_slot_def take_slot_def count_call_def parse_started_def
        others_eq tallied_def chapters_in_def resources_in_wire_def Let_def)
qed

text \<open>What a parse has sent when it ends, in the words of its outcome.\<close>

lemma script_no_trailer: "ev \<in> set (script st b) \<Longrightarrow> \<not> is_trailer ev \<and> \<not> is_document ev"
proof -
  assume "ev \<in> set (script st b)"
  then have "stage ev < 4"
    unfolding script_def using script_stages [where st = st and b = b]
    by (auto simp: walk_event_def chapter_event_def resource_event_def split: sum.splits)
  then show ?thesis by (cases ev) (simp_all add: is_trailer_def)
qed


lemma script_no_trailers [simp]:
  "filter is_trailer (script st b) = []" "filter is_document (script st b) = []"
  using script_no_trailer by (fastforce simp: filter_empty_conv)+

lemma no_trailer_prefix: "prefix evs evs' \<Longrightarrow> filter is_trailer evs' = [] \<Longrightarrow> filter is_trailer evs = []"
  by (auto simp: filter_empty_conv dest: set_mono_prefix)

text \<open>What a parse has sent when it ends, by its outcome.\<close>

lemma run_sent:
  fixes pj :: "('f, 'doc) projection"
  assumes "run reader zip_new pj limits bytes m (new_sink chan projection) = (out, s)"
  shows "case out of
     Inr Complete \<Rightarrow> \<exists>st b docs t.
       fst (open_book reader zip_new pj limits bytes (start_call limits m (new_sink chan projection))) = Inr (st, b)
       \<and> projected pj bytes projection (script st b @ [EventStatus t]) = Inr docs
       \<and> wire s = script st b @ docs @ [EventStatus t]
   | _ \<Rightarrow> filter is_trailer (wire s) = []
       \<and> (out = Inr Abandoned \<longrightarrow> \<not> accepted (chan (length (wire s))))"
  using assms
proof (cases rule: run_cases)
  case (Refused a s1)
  then show ?thesis by (cases a) (auto simp: outcome_of_def)
next
  case (Stopped st b s1 a)
  have "filter is_trailer (wire s) = []" by (rule no_trailer_prefix [OF Stopped(4)]) simp
  with Stopped show ?thesis by (cases a) (auto simp: outcome_of_def)
next
  case (Sent st b s1 s2 r)
  have pj: "se_projection st = pj" using Sent(2) by (simp add: opened_ok_def)
  note docs = projected_next [OF Sent(8)]
  have none: "filter is_trailer (document_events pj x) = []" for x
    by (simp add: document_events_def is_trailer_def split: option.splits)
  from Sent(3) show ?thesis
  proof (cases rule: emit_status_cases [of st "pl_skipped (resource_plan st b)" s2])
    case (Done x s')
    have "out = Inr Complete" using Done(1) Sent(3,4) by (simp add: outcome_of_def)
    moreover have "projected pj bytes projection
        (script st b @ [EventStatus (trailer_of (pl_skipped (resource_plan st b)) s2)])
        = Inr (document_events pj x)"
      using Done(2) by (simp add: docs pj)
    ultimately show ?thesis using Done(1,3) Sent(1,3,5) by (auto simp: pj)
  next
    case (Lost x s')
    have "filter is_trailer (wire s) = []"
      using Lost(1,3) Sent(3,5) by (intro no_trailer_prefix [of "wire s" "script st b @ document_events pj x"])
        (simp_all add: pj none)
    moreover have "\<not> accepted (chan (length (wire s)))"
      using Lost(1,5) Sent(3,7) by simp
    ultimately show ?thesis using Lost(1) Sent(3,4) by (simp add: outcome_of_def)
  next
    case (Burst p)
    then show ?thesis using Sent(3,4,5) by (simp add: outcome_of_def)
  qed
qed


text \<open>
  Property C2.  The client is never left to guess: over a channel that takes every message, a stream
  that ends without an error status ends with its trailer, the only one, and is counted as a success;
  and one that is cut short, by a refusal or by a panic, has no trailer, ends with an error status and
  is counted as a failure.
\<close>

theorem client_is_told:
  assumes "parse_epub reader zip_new version im sv chan now arrivals sh = Some (Streamed evs st, sh')"
    and "\<forall>n. accepted (chan n)"
  shows "case st of
      None \<Rightarrow> (\<exists>before t. evs = before @ [EventStatus t] \<and> filter is_trailer before = [])
        \<and> parses_succeeded (sh_metrics sh') = parses_succeeded (sh_metrics sh) + 1
        \<and> parses_failed (sh_metrics sh') = parses_failed (sh_metrics sh)
    | Some e \<Rightarrow> filter is_trailer evs = []
        \<and> parses_succeeded (sh_metrics sh') = parses_succeeded (sh_metrics sh)
        \<and> parses_failed (sh_metrics sh') = parses_failed (sh_metrics sh) + 1"
  using assms(1)
proof (cases rule: parse_epub_cases)
  case (Parsed eff up sh1 sh2 out s st' sh3)
  have st: "st' = st" and evs: "evs = wire s" using Parsed(6) by simp_all
  note sent = run_sent [OF Parsed(4) [unfolded parse_task_def]]
  note counts = admit_moves [OF Parsed(1)] Parsed(3,8)
  have metrics: "parses_succeeded (cs_metrics s) = parses_succeeded (sh_metrics sh)"
    "parses_failed (cs_metrics s) = parses_failed (sh_metrics sh)"
    using counts by (simp_all add: others_eq tallied_def count_call_def parse_started_def take_slot_def)
  note ends = Parsed(5,7) metrics
  consider (complete) "out = Inr Complete" | (lost) "out = Inr Abandoned"
    | (failed) e where "out = Inr (CallFailed e)" | (panicked) p where "out = Inl p"
    by (cases out rule: sum.exhaust; metis outcome.exhaust)
  then show ?thesis
  proof cases
    case complete
    with sent obtain pre docs t where wire: "wire s = pre @ docs @ [EventStatus t]"
      "filter is_trailer pre = []"
      "\<exists>x. docs = document_events document_projection x"
      by (fastforce simp: projected_def and_then_eq_Inr)
    have "filter is_trailer docs = []"
      using wire(3) by (auto simp: document_events_def is_trailer_def split: option.splits)
    with wire complete ends st evs show ?thesis
      by (auto simp: supervise_def count_call_def parse_succeeded_def release_share_def release_slot_def
          intro!: exI [of _ "pre @ docs"])
  next
    case lost
    with sent assms(2) show ?thesis by simp
  next
    case failed
    with sent ends st evs show ?thesis
      by (auto simp: supervise_def count_call_def parse_failed_def release_share_def release_slot_def)
  next
    case panicked
    then obtain msg where "join_of out = Panicked (Some msg)" using join_of_cases [of out] by auto
    with panicked sent ends st evs show ?thesis
      by (auto simp: supervise_def count_call_def parse_failed_def release_share_def release_slot_def)
  qed
qed simp

text \<open>
  Property C30.  A parse that panics can only be one that folds a document, and only for a book whose
  creation or modification date is not ASCII: nothing has been sent, and the supervisor ends the
  stream with INTERNAL and counts a failure.
\<close>

theorem panicking_call_says_so:
  fixes s :: "(document_fold, document) call_state"
  assumes "parse_task reader zip_new version chan eff bytes m = (Inl p, s)"
  shows "eff_emit_document eff \<and> wire s = []
    \<and> (\<exists>st b. fst (open_book reader zip_new document_projection eff bytes
            (start_call eff m (new_sink chan (fold_of_call version eff :: document_fold option))))
            = Inr (st, b)
          \<and> foreign_date (info_of b))
    \<and> (case p of Panic detail \<Rightarrow>
         supervise (join_of (Inl p)) sh =
           (Some (Status Internal
              [Lit ''the parser panicked, which is a bug in grpc-epub: '', Str detail]),
            count_call parse_failed sh))"
proof -
  note run = assms [unfolded parse_task_def]
  have "eff_emit_document eff"
  proof (rule ccontr)
    assume plain: "\<not> eff_emit_document eff"
    note none = fold_of_call_def [of version eff, unfolded if_not_P [OF plain]]
    from run show False
    proof (cases rule: run_cases)
      case (Refused a s1)
      then show False by (auto simp: outcome_of_def split: abort.splits)
    next
      case (Stopped st b s1 a)
      then have "a = Raised p" by (auto simp: outcome_of_def split: abort.splits)
      from Stopped(7) [OF this] show False by (auto simp: raises_def hashed_def none feeds_def)
    next
      case (Sent st b s1 s2 r)
      have gone: "fold_of s2 = None" using Sent(8) by (simp add: hashed_def none)
      from Sent(3) show False
        by (cases rule: emit_status_cases [of st "pl_skipped (resource_plan st b)" s2])
          (use Sent(3,4) gone in \<open>auto simp: outcome_of_def\<close>)
    qed
  qed
  moreover have "case p of Panic detail \<Rightarrow>
         supervise (join_of (Inl p)) sh =
           (Some (Status Internal
              [Lit ''the parser panicked, which is a bug in grpc-epub: '', Str detail]),
            count_call parse_failed sh)"
    by (cases p) (simp add: supervise_def panic_detail_def)
  ultimately show ?thesis using raising_at_info.panic_sends_nothing [OF document.raising_at_info_axioms run] by blast
qed


text \<open>The archive's hash reaches the document's origin.\<close>

lemma folds_keep_hash [simp]:
  "df_source_hash (add_picture p href manifest_id media_type f) = df_source_hash f"
  "df_source_hash (fold_chapter c f) = df_source_hash f"
  by (simp_all add: add_picture_def fold_chapter_def Let_def)

lemma consume_origin:
  assumes "consume ev f = Inr f'"
  shows "df_source_hash f' = df_source_hash f
    \<and> document_origin (df_document f')
        = (if stage ev = 0 then Some (origin_of f) else document_origin (df_document f))"
proof (cases ev)
  case (EventInfo info)
  with assms have "fold_info info f = Inr f'" by (simp add: consume_def)
  from fold_info_document [OF this] show ?thesis using EventInfo
    by (auto simp: update_group_keeps(4) [of "\<lambda>g. g\<lparr>group_item_meta := Some (body_meta info)\<rparr>"]
        group_face_def)
qed (use assms in \<open>auto simp: consume_def picture_def\<close>)

lemma feed_origin:
  "feed document_projection evs f = Inr f' \<Longrightarrow>
     df_source_hash f' = df_source_hash f
     \<and> (document_origin (df_document f) = Some (origin_of f) \<or> (\<exists>ev\<in>set evs. stage ev = 0)
        \<longrightarrow> document_origin (df_document f') = Some (origin_of f))"
proof (induction evs arbitrary: f)
  case (Cons ev evs)
  then obtain f1 where step: "consume ev f = Inr f1" and rest: "feed document_projection evs f1 = Inr f'"
    by (auto simp: document_projection_def and_then_eq_Inr)
  have "origin_of f1 = origin_of f" using consume_origin [OF step] by (simp add: origin_of_def)
  with Cons.IH [OF rest] consume_origin [OF step] show ?case by auto
qed simp

text \<open>
  Property C1.  A complete call that was asked for a document ends with it, once, right before the
  trailer: it is sound, its groups are the spine of the book in order, its chapters and pictures are
  those the client received before it, and it carries the hash of the archive that was uploaded.
\<close>

theorem complete_call_carries_document:
  fixes s :: "(document_fold, document) call_state"
  assumes "parse_task reader zip_new version chan eff bytes m = (Inr Complete, s)"
    and "eff_emit_document eff" and "length (wire s) \<le> 2 ^ 64"
  shows "\<exists>st b d t.
      fst (open_book reader zip_new document_projection eff bytes
            (start_call eff m (new_sink chan (fold_of_call version eff :: document_fold option))))
        = Inr (st, b)
      \<and> wire s = script st b @ [EventDocument d, EventStatus t]
      \<and> integrity_errors d = []
      \<and> length (document_groups d) = length (bk_spine b)
      \<and> map group_face (document_groups d) = map chapter_face (chapters_of (script st b))
      \<and> map picture_face (document_pictures d) = map image_face (images_of (script st b))
      \<and> map_option document_origin_binary_hash (document_origin d) = Some (source_hash bytes)"
proof -
  have start: "hashed document_projection bytes (fold_of_call version eff)
      = Some (start_fold version (source_hash bytes) :: document_fold)"
    using assms(2) by (simp add: hashed_def fold_of_call_def start_fold_def document_projection_def)
  from run_sent [OF assms(1) [unfolded parse_task_def]] obtain st b docs t where
    book: "fst (open_book reader zip_new document_projection eff bytes
      (start_call eff m (new_sink chan (fold_of_call version eff :: document_fold option)))) = Inr (st, b)"
    and docs: "projected document_projection bytes (fold_of_call version eff) (script st b @ [EventStatus t])
      = Inr docs"
    and wire: "wire s = script st b @ docs @ [EventStatus t]"
    by auto
  let ?evs = "script st b @ [EventStatus t]"
  obtain f where fed: "feed document_projection ?evs (start_fold version (source_hash bytes)) = Inr f"
    and doc: "docs = [EventDocument (fst (take_document f))]"
    using docs unfolding projected_def start
    by (auto simp: and_then_eq_Inr document_events_def document_projection_def)
  have same: "chapters_of ?evs = chapters_of (script st b)" "images_of ?evs = images_of (script st b)"
    by (simp_all add: images_of_def map_filter_def)
  have spine: "length (chapters_of (script st b)) = length (bk_spine b)"
  proof -
    have "length (chapters_of evs) = length (filter is_chapter evs)" for evs :: "document event list"
      by (induction evs) (auto split: event.splits simp: chapters_of_def map_filter_def elim: is_chapter.elims)
    then show ?thesis by (simp add: script_chapters)
  qed
  have "length (chapters_of ?evs) \<le> length ?evs"
    by (simp add: chapters_of_def map_filter_def) (metis length_filter_le le_Suc_eq)
  then have room: "length (chapters_of ?evs) \<le> 2 ^ 64"
    using assms(3) wire by simp
  have opens: "\<exists>ev\<in>set ?evs. stage ev = 0" by (simp add: script_def)
  note stamped = mp [OF conjunct2 [OF feed_origin [OF fed]] disjI2 [OF opens]]
  then have origin: "map_option document_origin_binary_hash (document_origin (fst (take_document f)))
      = Some (source_hash bytes)"
    using take_document_faces [of f] by (simp add: origin_of_def)
  note faces = fold_state [OF fed] take_document_faces [of f]
  have "length (document_groups (fst (take_document f))) = length (bk_spine b)"
    using faces spine same by (metis length_map)
  then show ?thesis
    using book wire doc sound_document [OF fed room] faces same origin
    by (intro exI [of _ st] exI [of _ b] exI [of _ "fst (take_document f)"] exI [of _ t]) simp
qed

section \<open>The small book's call\<close>

definition open_channel :: "nat \<Rightarrow> delivery" where
  "open_channel = (\<lambda>_. TrySent)"

lemma sample_call:
  "\<exists>(s :: (document_fold, document) call_state) sh.
     parse_task (sample_reader fair_date) sample_zip ''1'' open_channel sample_effective sample_bytes
       (sh_metrics (count_call parse_started (take_slot
         \<lparr>sh_available = 3, sh_slots = 2, sh_metrics = uploaded 180 new_metrics\<rparr>))) = (Inr Complete, s)
     \<and> parse_epub (sample_reader fair_date) sample_zip ''1'' 1000000000000 book_service open_channel 0
         book_frames sample_shared = Some (Streamed (wire s) None, sh)"
proof -
  let ?m = "sh_metrics (count_call parse_started (take_slot
    \<lparr>sh_available = 3, sh_slots = 2, sh_metrics = uploaded 180 new_metrics\<rparr>))"
  obtain s :: "(document_fold, document) call_state"
    where run: "run (sample_reader fair_date) sample_zip document_projection sample_effective sample_bytes
      ?m (new_sink (\<lambda>_. TrySent) (Some (new_fold ''1''))) = (Inr Complete, s)"
    using sample_completes by blast
  have task: "parse_task (sample_reader fair_date) sample_zip ''1'' open_channel sample_effective sample_bytes ?m
      = (Inr Complete, s)"
    using run by (simp add: parse_task_def fold_of_call_def open_channel_def sample_effective_def)
  then show ?thesis
    by (intro exI [of _ s]) (simp add: parse_epub_def sample_admitted supervise_def)
qed

lemma sample_script: "length (script (opened_setting pj date) (opened_sample date)) \<le> 2"
proof -
  have none: "pl_pending (resource_plan (opened_setting pj date) (opened_sample date)) = []"
    using sample_walk(2) by (simp add: resource_plan_def opened_setting_def opened_sample_def)
  show ?thesis
    unfolding script_def none sample_walk
    by (simp add: navigation_events_def all_overlay_events_def sample_walk opened_setting_def
        sample_effective_def)
qed

lemma sample_wire:
  fixes s :: "(document_fold, document) call_state"
  assumes "run (sample_reader fair_date) sample_zip document_projection sample_effective sample_bytes
    new_metrics (new_sink (\<lambda>_. TrySent) (Some (new_fold version))) = (Inr Complete, s)"
  shows "length (wire s) \<le> 2 ^ 64"
proof -
  have opened: "fst (open_book (sample_reader fair_date) sample_zip document_projection sample_effective
      sample_bytes (start_call sample_effective new_metrics (new_sink (\<lambda>_. TrySent)
        (Some (new_fold version :: document_fold)))))
      = Inr (opened_setting document_projection fair_date, opened_sample fair_date)"
    by (subst sample_open_book [OF sample_dates(1)]) (simp_all add: start_call_def sample_effective_def)
  from run_sent [OF assms] opened obtain docs t where
    wire: "wire s = script (opened_setting document_projection fair_date) (opened_sample fair_date)
      @ docs @ [EventStatus t]"
    and docs: "\<exists>x. docs = document_events document_projection x"
    by (fastforce simp: projected_def and_then_eq_Inr)
  have "length docs \<le> 1" using docs by (auto simp: document_events_def split: option.splits)
  moreover have "length (wire s) \<le> 2 + length docs + 1"
    unfolding wire length_append by (simp add: sample_script)
  ultimately have "length (wire s) \<le> 4" by linarith
  also have "\<dots> \<le> 2 ^ 64" by simp
  finally show ?thesis .
qed

theorem call_refines_process_witness:
  "\<exists>(res :: document answer) sh.
     parse_epub (sample_reader fair_date) sample_zip ''1'' 1000000000000 book_service open_channel 0
       book_frames (wd_shared (start_world book_service new_metrics)) = Some (res, sh)
     \<and> reachable book_service new_metrics ((start_world book_service new_metrics)\<lparr>wd_shared := sh\<rparr>)"
proof -
  let ?w = "start_world book_service new_metrics"
  have shared: "wd_shared ?w = sample_shared" and none: "wd_calls ?w 7 = None"
    by (simp_all add: start_world_def sample_shared_def book_service_def)
  obtain s :: "(document_fold, document) call_state" and sh
    where call: "parse_epub (sample_reader fair_date) sample_zip ''1'' 1000000000000 book_service open_channel 0
      book_frames (wd_shared ?w) = Some (Streamed (wire s) None, sh)"
    using sample_call unfolding shared by blast
  from call_refines_process [OF none call] call show ?thesis
    unfolding reachable_def by blast
qed

theorem call_gives_back_witness:
  "\<exists>(evs :: document event list) sh.
     parse_epub (sample_reader fair_date) sample_zip ''1'' 1000000000000 book_service open_channel 0
       book_frames sample_shared = Some (Streamed evs None, sh)
     \<and> sh_available sh = 4 \<and> sh_slots sh = 2"
proof -
  obtain s :: "(document_fold, document) call_state" and sh
    where call: "parse_epub (sample_reader fair_date) sample_zip ''1'' 1000000000000 book_service open_channel 0
      book_frames sample_shared = Some (Streamed (wire s) None, sh)"
    using sample_call by blast
  from call_gives_back [OF call] call show ?thesis
    by (auto simp: sample_shared_def Let_def)
qed

theorem client_is_told_witness:
  "\<exists>(evs :: document event list) sh before t.
     parse_epub (sample_reader fair_date) sample_zip ''1'' 1000000000000 book_service open_channel 0
       book_frames sample_shared = Some (Streamed evs None, sh)
     \<and> evs = before @ [EventStatus t] \<and> parses_succeeded (sh_metrics sh) = 1"
proof -
  obtain s :: "(document_fold, document) call_state" and sh
    where call: "parse_epub (sample_reader fair_date) sample_zip ''1'' 1000000000000 book_service open_channel 0
      book_frames sample_shared = Some (Streamed (wire s) None, sh)"
    using sample_call by blast
  have "\<forall>n. accepted (open_channel n)" by (simp add: open_channel_def accepted_def)
  from client_is_told [OF call this] call show ?thesis
    by (auto simp: sample_shared_def new_metrics_def)
qed

theorem panicking_call_says_so_witness:
  "\<exists>s :: (document_fold, document) call_state.
     parse_task (sample_reader foul_date) sample_zip ''1'' open_channel sample_effective sample_bytes new_metrics
       = (Inl (Panic ''split_at''), s) \<and> wire s = []"
proof -
  obtain s :: "(document_fold, document) call_state"
    where "run (sample_reader foul_date) sample_zip document_projection sample_effective sample_bytes
      new_metrics (new_sink (\<lambda>_. TrySent) (Some (new_fold ''1''))) = (Inl (Panic ''split_at''), s)"
    using sample_panics by blast
  then have task: "parse_task (sample_reader foul_date) sample_zip ''1'' open_channel sample_effective
      sample_bytes new_metrics = (Inl (Panic ''split_at''), s)"
    by (simp add: parse_task_def fold_of_call_def open_channel_def sample_effective_def)
  from panicking_call_says_so [OF this] task show ?thesis by blast
qed

theorem complete_call_carries_document_witness:
  "\<exists>(s :: (document_fold, document) call_state) before d t.
     parse_task (sample_reader fair_date) sample_zip ''1'' open_channel sample_effective sample_bytes new_metrics
       = (Inr Complete, s)
     \<and> wire s = before @ [EventDocument d, EventStatus t] \<and> length (document_groups d) = 1"
proof -
  obtain s :: "(document_fold, document) call_state"
    where run: "run (sample_reader fair_date) sample_zip document_projection sample_effective sample_bytes
      new_metrics (new_sink (\<lambda>_. TrySent) (Some (new_fold ''1''))) = (Inr Complete, s)"
    using sample_completes by blast
  then have task: "parse_task (sample_reader fair_date) sample_zip ''1'' open_channel sample_effective
      sample_bytes new_metrics = (Inr Complete, s)"
    by (simp add: parse_task_def fold_of_call_def open_channel_def sample_effective_def)
  have emit: "eff_emit_document sample_effective" by (simp add: sample_effective_def)
  have opened: "fst (open_book (sample_reader fair_date) sample_zip document_projection sample_effective
      sample_bytes (start_call sample_effective new_metrics (new_sink open_channel
        (fold_of_call ''1'' sample_effective :: document_fold option))))
      = Inr (opened_setting document_projection fair_date, opened_sample fair_date)"
    by (subst sample_open_book [OF sample_dates(1)]) (simp_all add: start_call_def sample_effective_def)
  have spine: "length (bk_spine (opened_sample fair_date)) = 1" by (simp add: opened_sample_def)
  have room: "length (wire s) \<le> 2 ^ 64" by (rule sample_wire [OF run])
  from complete_call_carries_document [OF task emit room] task opened spine show ?thesis
    by (auto simp: opened)
qed

end
