(* ===== verification/Routes.thy ===== *)
theory Routes imports Service begin

text \<open>
  \<open>src/gen/ai/pipestream/epub/v1/ai.pipestream.epub.v1.tonic.rs\<close> and \<open>into_service\<close> of
  \<open>src/service.rs\<close>: the generated server that routes a request to a handler by its path, the
  generated client that names the paths, and the limit the transport's decoder is given.

  tonic's \<open>Grpc\<close> is not defined here: a routed request is what \<open>Grpc\<close> is called with.  The encodings
  and what enables one are parameters.
\<close>

section \<open>The server\<close>

record ('svc, 'enc) epub_server =
  es_inner :: 'svc
  es_accept :: 'enc
  es_send :: 'enc
  es_max_decoding :: "usize option"
  es_max_encoding :: "usize option"

definition SERVICE_NAME :: string where
  "SERVICE_NAME = ''ai.pipestream.epub.v1.EpubParseService''"

definition from_arc :: "'enc \<Rightarrow> 'svc \<Rightarrow> ('svc, 'enc) epub_server" where
  "from_arc plain inner = \<lparr>es_inner = inner, es_accept = plain, es_send = plain,
     es_max_decoding = None, es_max_encoding = None\<rparr>"

definition new_server :: "'enc \<Rightarrow> 'svc \<Rightarrow> ('svc, 'enc) epub_server" where
  "new_server plain inner = from_arc plain inner"

definition accept_compressed ::
  "('c \<Rightarrow> 'enc \<Rightarrow> 'enc) \<Rightarrow> 'c \<Rightarrow> ('svc, 'enc) epub_server \<Rightarrow> ('svc, 'enc) epub_server" where
  "accept_compressed enable encoding es = es\<lparr>es_accept := enable encoding (es_accept es)\<rparr>"

definition send_compressed ::
  "('c \<Rightarrow> 'enc \<Rightarrow> 'enc) \<Rightarrow> 'c \<Rightarrow> ('svc, 'enc) epub_server \<Rightarrow> ('svc, 'enc) epub_server" where
  "send_compressed enable encoding es = es\<lparr>es_send := enable encoding (es_send es)\<rparr>"

definition max_decoding_message_size ::
  "usize \<Rightarrow> ('svc, 'enc) epub_server \<Rightarrow> ('svc, 'enc) epub_server" where
  "max_decoding_message_size limit es = es\<lparr>es_max_decoding := Some limit\<rparr>"

definition max_encoding_message_size ::
  "usize \<Rightarrow> ('svc, 'enc) epub_server \<Rightarrow> ('svc, 'enc) epub_server" where
  "max_encoding_message_size limit es = es\<lparr>es_max_encoding := Some limit\<rparr>"

definition clone_server :: "('svc, 'enc) epub_server \<Rightarrow> ('svc, 'enc) epub_server" where
  "clone_server es = \<lparr>es_inner = es_inner es, es_accept = es_accept es, es_send = es_send es,
     es_max_decoding = es_max_decoding es, es_max_encoding = es_max_encoding es\<rparr>"

text \<open>What \<open>Grpc\<close> is configured with, and the handler it is given; or the response sent without it.\<close>

record ('svc, 'enc) grpc_call =
  gc_inner :: 'svc
  gc_accept :: 'enc
  gc_send :: 'enc
  gc_max_decoding :: "usize option"
  gc_max_encoding :: "usize option"

datatype ('svc, 'enc) routed =
    StreamsParseEpub "('svc, 'enc) grpc_call"
  | UnaryGetServiceInfo "('svc, 'enc) grpc_call"
  | AnsweredWith "(string \<times> string) list"

definition configured :: "('svc, 'enc) epub_server \<Rightarrow> ('svc, 'enc) grpc_call" where
  "configured es = \<lparr>gc_inner = es_inner es, gc_accept = es_accept es, gc_send = es_send es,
     gc_max_decoding = es_max_decoding es, gc_max_encoding = es_max_encoding es\<rparr>"

definition call_server :: "string \<Rightarrow> ('svc, 'enc) epub_server \<Rightarrow> ('svc, 'enc) routed" where
  "call_server path es =
     (if path = ''/ai.pipestream.epub.v1.EpubParseService/ParseEpub''
      then StreamsParseEpub (configured es)
      else if path = ''/ai.pipestream.epub.v1.EpubParseService/GetServiceInfo''
      then UnaryGetServiceInfo (configured es)
      else AnsweredWith [(''grpc-status'', ''12''), (''content-type'', ''application/grpc'')])"

text \<open>\<open>into_service\<close>: the decoder's limit is a backstop behind the frame limit of the handler.\<close>

definition into_service :: "'enc \<Rightarrow> service \<Rightarrow> (service, 'enc) epub_server" where
  "into_service plain sv =
     max_decoding_message_size (unat (decoding_backstop sv)) (new_server plain sv)"

section \<open>The client\<close>

text \<open>
  What the client hands to tonic: the path, the service and the method.  \<open>ready\<close> is what waiting for
  the channel answers.
\<close>

record outgoing =
  og_path :: string
  og_service :: string
  og_method :: string

definition not_ready :: "string \<Rightarrow> status" where
  "not_ready e = Status Unknown [Lit ''Service was not ready: '', Str e]"

definition client_parse_epub :: "string + unit \<Rightarrow> status + outgoing" where
  "client_parse_epub ready = and_then (map_err not_ready ready) (\<lambda>_. Inr
     \<lparr>og_path = ''/ai.pipestream.epub.v1.EpubParseService/ParseEpub'',
      og_service = ''ai.pipestream.epub.v1.EpubParseService'', og_method = ''ParseEpub''\<rparr>)"

definition client_get_service_info :: "string + unit \<Rightarrow> status + outgoing" where
  "client_get_service_info ready = and_then (map_err not_ready ready) (\<lambda>_. Inr
     \<lparr>og_path = ''/ai.pipestream.epub.v1.EpubParseService/GetServiceInfo'',
      og_service = ''ai.pipestream.epub.v1.EpubParseService'', og_method = ''GetServiceInfo''\<rparr>)"

section \<open>What they agree on\<close>

text \<open>What the client sends reaches the handler it is named after, and names the path it takes.\<close>

lemma client_reaches_handler:
  "client_parse_epub (Inr ()) = Inr og \<Longrightarrow>
     call_server (og_path og) es = StreamsParseEpub (configured es)
     \<and> og_path og = ''/'' @ og_service og @ ''/'' @ og_method og \<and> og_service og = SERVICE_NAME"
  "client_get_service_info (Inr ()) = Inr og \<Longrightarrow>
     call_server (og_path og) es = UnaryGetServiceInfo (configured es)
     \<and> og_path og = ''/'' @ og_service og @ ''/'' @ og_method og \<and> og_service og = SERVICE_NAME"
  by (auto simp: client_parse_epub_def client_get_service_info_def call_server_def SERVICE_NAME_def
      map_err_def)

text \<open>A path reaches a handler exactly when it is the service's name and one of its two methods.\<close>

lemma call_server_unrouted:
  "(\<exists>headers. call_server path es = AnsweredWith headers) \<longleftrightarrow>
     (\<forall>m\<in>{''ParseEpub'', ''GetServiceInfo''}. path \<noteq> ''/'' @ SERVICE_NAME @ ''/'' @ m)"
  by (simp add: call_server_def SERVICE_NAME_def)

lemma into_service_fields [simp]:
  "es_inner (into_service plain sv) = sv"
  "es_max_decoding (into_service plain sv) = Some (unat (decoding_backstop sv))"
  by (simp_all add: into_service_def max_decoding_message_size_def new_server_def from_arc_def)

lemma decoding_backstop_twice:
  "unat (decoding_backstop sv) = min (2 ^ 64 - 1) (2 * unat (max_chunk_bytes (sv_limits sv)))"
  by (simp add: decoding_backstop_def unat_saturating_mul)

definition chunk_frame :: "string \<Rightarrow> parse_request" where
  "chunk_frame bytes = \<lparr>rq_frame = Some (Chunk bytes)\<rparr>"

text \<open>
  Property C35.  The decoder's limit leaves every frame the handler has something to say about to the
  handler.  With a frame limit of at least the eleven bytes a chunk's key and length take on the wire,
  a chunk within it always reaches the handler; a chunk over it that the decoder lets through is refused
  by the handler, in its own words and with nothing taken; and no chunk over twice the limit is decoded.
\<close>

theorem frame_limit_is_the_handlers:
  fixes plain :: 'enc
  assumes limit: "es_max_decoding (into_service plain sv) = Some n"
    and decoded: "\<And>m. encoded_len m \<le> n \<Longrightarrow> decode n m = Message m"
    and refused: "\<And>m. encoded_len m > n \<Longrightarrow> \<exists>e. decode n m = Broken e"
    and wire_size: "\<And>b. length b \<le> encoded_len (chunk_frame b) \<and> encoded_len (chunk_frame b) \<le> length b + 11"
    and room: "11 \<le> unat (max_chunk_bytes (sv_limits sv))" "unat (max_chunk_bytes (sv_limits sv)) + 11 < 2 ^ 64"
  shows "(length b \<le> unat (max_chunk_bytes (sv_limits sv))
        \<longrightarrow> decode n (chunk_frame b) = Message (chunk_frame b))
    \<and> (length b > unat (max_chunk_bytes (sv_limits sv)) \<and> decode n (chunk_frame b) = Message (chunk_frame b)
        \<longrightarrow> (\<exists>why. receive_frame (sv_limits sv) cap (chunk_frame b) up sh
                     = (Inl (Status InvalidArgument why), sh)))
    \<and> (length b > 2 * unat (max_chunk_bytes (sv_limits sv)) \<longrightarrow> (\<exists>e. decode n (chunk_frame b) = Broken e))"
proof (intro conjI impI)
  have n: "n = min (2 ^ 64 - 1) (2 * unat (max_chunk_bytes (sv_limits sv)))"
    using limit by (simp add: decoding_backstop_twice)
  show "decode n (chunk_frame b) = Message (chunk_frame b)"
    if "length b \<le> unat (max_chunk_bytes (sv_limits sv))"
    using that wire_size [of b] room by (intro decoded) (simp add: n)
  show "\<exists>e. decode n (chunk_frame b) = Broken e" if "length b > 2 * unat (max_chunk_bytes (sv_limits sv))"
  proof (rule refused)
    have "n \<le> 2 * unat (max_chunk_bytes (sv_limits sv))" by (simp add: n)
    with that wire_size [of b] show "encoded_len (chunk_frame b) > n" by linarith
  qed
qed (simp add: receive_frame_def chunk_frame_def receive_chunk_def)

text \<open>
  A transport with protobuf's sizes for chunks, and a service that allows chunks of sixteen bytes: one
  of sixteen is delivered, one of seventeen is the handler's to refuse.
\<close>

definition wire_len :: "parse_request \<Rightarrow> nat" where
  "wire_len m = (case rq_frame m of Some (Chunk b) \<Rightarrow> length b + 2 | _ \<Rightarrow> 0)"

definition cut_off :: "nat \<Rightarrow> parse_request \<Rightarrow> inbound" where
  "cut_off n m = (if wire_len m \<le> n then Message m else Broken (Status ResourceExhausted []))"

definition narrow_service :: service where
  "narrow_service = \<lparr>sv_limits = default_limits\<lparr>max_chunk_bytes := 16\<rparr>, sv_slots = 1, sv_budget = 1,
     sv_idle_timeout = DEFAULT_IDLE_TIMEOUT, sv_upload_timeout = DEFAULT_UPLOAD_TIMEOUT\<rparr>"

theorem frame_limit_is_the_handlers_witness:
  "cut_off 32 (chunk_frame (replicate 16 CHR ''a'')) = Message (chunk_frame (replicate 16 CHR ''a''))
   \<and> (\<exists>why. receive_frame (sv_limits narrow_service) 1000 (chunk_frame (replicate 17 CHR ''a'')) no_upload
         \<lparr>sh_available = 1, sh_slots = 1, sh_metrics = new_metrics\<rparr>
       = (Inl (Status InvalidArgument why), \<lparr>sh_available = 1, sh_slots = 1, sh_metrics = new_metrics\<rparr>))
   \<and> (\<exists>e. cut_off 32 (chunk_frame (replicate 33 CHR ''a'')) = Broken e)"
proof -
  have "unat (max_chunk_bytes (sv_limits narrow_service)) = 16" by (simp add: narrow_service_def)
  note facts = frame_limit_is_the_handlers [where plain = "()" and sv = narrow_service and n = 32
      and encoded_len = wire_len and decode = cut_off, unfolded this]
  have len: "wire_len (chunk_frame b) = length b + 2" for b by (simp add: wire_len_def chunk_frame_def)
  have limit: "es_max_decoding (into_service () narrow_service) = Some 32"
    by (simp add: decoding_backstop_twice narrow_service_def)
  have here: "cut_off 32 (chunk_frame (replicate 17 CHR ''a'')) = Message (chunk_frame (replicate 17 CHR ''a''))"
    by (simp add: cut_off_def len)
  show ?thesis
    using facts [OF limit, of "replicate 16 CHR ''a''"] facts [OF limit, of "replicate 17 CHR ''a''"]
      facts [OF limit, of "replicate 33 CHR ''a''"] here
    by (simp add: cut_off_def len)
qed

end
