(* ===== verification/SockAddr.thy ===== *)
theory SockAddr imports Href begin

text \<open>
  The standard library's reading of a listen address, \<open>SocketAddr::from_str\<close>, which \<open>src/main.rs\<close>
  applies to \<open>GRPC_EPUB_ADDR\<close>: an IPv4 address or a bracketed IPv6 one, with a port.  A reader takes
  what it reads off the front of the text, or fails.
\<close>

definition read_char :: "char \<Rightarrow> string \<Rightarrow> (unit \<times> string) option" where
  "read_char c s = (case s of [] \<Rightarrow> None | x # xs \<Rightarrow> if x = c then Some ((), xs) else None)"

definition read_number ::
  "(char \<Rightarrow> nat option) \<Rightarrow> int \<Rightarrow> nat option \<Rightarrow> bool \<Rightarrow> int \<Rightarrow> string \<Rightarrow> (int \<times> string) option" where
  "read_number val radix max_digits zero_prefix bound s =
     (let ds = takeWhile (\<lambda>c. val c \<noteq> None) s;
          n = fold (\<lambda>c acc. radix * acc + int (the (val c))) ds 0
      in if ds = [] \<or> (case max_digits of Some m \<Rightarrow> length ds > m | None \<Rightarrow> False) \<or> n \<ge> bound
            \<or> (\<not> zero_prefix \<and> hd ds = CHR ''0'' \<and> length ds > 1)
         then None else Some (n, drop (length ds) s))"

text \<open>A separator comes before every item but the first.\<close>

definition read_separator ::
  "char \<Rightarrow> nat \<Rightarrow> (string \<Rightarrow> ('a \<times> string) option) \<Rightarrow> string \<Rightarrow> ('a \<times> string) option" where
  "read_separator sep i item s =
     (if i = 0 then item s else Option.bind (read_char sep s) (\<lambda>(_, rest). item rest))"

fun read_octets :: "nat \<Rightarrow> nat \<Rightarrow> string \<Rightarrow> (int list \<times> string) option" where
  "read_octets 0 i s = Some ([], s)"
| "read_octets (Suc k) i s =
     Option.bind (read_separator CHR ''.'' i (read_number digit_val 10 (Some 3) False 256) s)
       (\<lambda>(b, rest). map_option (\<lambda>(bs, rest'). (b # bs, rest')) (read_octets k (Suc i) rest))"

definition read_ipv4 :: "string \<Rightarrow> (int list \<times> string) option" where
  "read_ipv4 = read_octets 4 0"

text \<open>Up to \<open>k\<close> groups of an IPv6 address, the last two of which may be an IPv4 address.\<close>

fun read_groups :: "nat \<Rightarrow> nat \<Rightarrow> string \<Rightarrow> int list \<times> bool \<times> string" where
  "read_groups 0 i s = ([], False, s)"
| "read_groups (Suc k) i s =
     (case (if k > 0 then read_separator CHR '':'' i read_ipv4 s else None) of
        Some (bs, rest) \<Rightarrow> ([256 * bs ! 0 + bs ! 1, 256 * bs ! 2 + bs ! 3], True, rest)
      | None \<Rightarrow>
          (case read_separator CHR '':'' i (read_number hex_val 16 (Some 4) True 65536) s of
             Some (g, rest) \<Rightarrow>
               let (gs, v4, rest') = read_groups k (Suc i) rest in (g # gs, v4, rest')
           | None \<Rightarrow> ([], False, s)))"

definition read_ipv6 :: "string \<Rightarrow> (int list \<times> string) option" where
  "read_ipv6 s =
     (let (hd_groups, v4, rest) = read_groups 8 0 s
      in if length hd_groups = 8 then Some (hd_groups, rest)
         else if v4 then None
         else Option.bind (read_char CHR '':'' rest) (\<lambda>(_, rest1).
              map_option (\<lambda>(_, rest2).
                let (tl_groups, _, rest3) = read_groups (8 - (length hd_groups + 1)) 0 rest2
                in (hd_groups @ replicate (8 - length hd_groups - length tl_groups) 0 @ tl_groups,
                    rest3))
                (read_char CHR '':'' rest1)))"

datatype socket_addr = V4 "int list" int | V6 "int list" int int

definition read_port :: "string \<Rightarrow> (int \<times> string) option" where
  "read_port s = Option.bind (read_char CHR '':'' s)
     (\<lambda>(_, rest). read_number digit_val 10 None True 65536 rest)"

definition read_scope :: "string \<Rightarrow> int \<times> string" where
  "read_scope s =
     (case Option.bind (read_char CHR ''%'' s)
             (\<lambda>(_, rest). read_number digit_val 10 None True (2 ^ 32) rest) of
        Some r \<Rightarrow> r | None \<Rightarrow> (0, s))"

definition read_socket_v4 :: "string \<Rightarrow> (socket_addr \<times> string) option" where
  "read_socket_v4 s = Option.bind (read_ipv4 s) (\<lambda>(ip, rest).
     map_option (\<lambda>(port, rest'). (V4 ip port, rest')) (read_port rest))"

definition read_socket_v6 :: "string \<Rightarrow> (socket_addr \<times> string) option" where
  "read_socket_v6 s =
     Option.bind (read_char CHR ''['' s) (\<lambda>(_, rest).
     Option.bind (read_ipv6 rest) (\<lambda>(ip, rest1).
     let (scope, rest2) = read_scope rest1
     in Option.bind (read_char CHR '']'' rest2) (\<lambda>(_, rest3).
        map_option (\<lambda>(port, rest4). (V6 ip scope port, rest4)) (read_port rest3))))"

definition parse_socket_addr :: "string \<Rightarrow> socket_addr option" where
  "parse_socket_addr s =
     (case (case read_socket_v4 s of Some r \<Rightarrow> Some r | None \<Rightarrow> read_socket_v6 s) of
        Some (a, []) \<Rightarrow> Some a
      | _ \<Rightarrow> None)"

lemma parse_socket_addr_samples:
  "parse_socket_addr ''0.0.0.0:50064'' = Some (V4 [0, 0, 0, 0] 50064)"
  "parse_socket_addr ''[::1]:80'' = Some (V6 [0, 0, 0, 0, 0, 0, 0, 1] 0 80)"
  "parse_socket_addr ''[fe80::1:1.2.3.4%7]:080'' = Some (V6 [65152, 0, 0, 0, 0, 1, 258, 772] 7 80)"
  "parse_socket_addr ''01.2.3.4:80'' = None"
  "parse_socket_addr ''localhost:80'' = None"
  by code_simp+

end
