(* ===== verification/Startup.thy ===== *)
theory Startup imports Routes SockAddr begin

text \<open>
  \<open>src/main.rs\<close>: how the process starts from its environment, and what it prints when it stops.

  Everything up to the listener is computed here: the worker threads, the address, the limits and
  clocks, the service behind its generated server, the HTTP/2 window and the line that announces
  them.  tokio's runtime, the listener, health and reflection are not: \<open>cores\<close> is what the platform
  says of its parallelism and \<open>reflected\<close> whether the reflection builder takes the two checked-in
  descriptor sets.
\<close>

section \<open>Settings\<close>

definition DEFAULT_ADDR :: string where
  "DEFAULT_ADDR = ''0.0.0.0:50064''"

definition DEFAULT_WINDOW_BYTES :: u32 where
  "DEFAULT_WINDOW_BYTES = 4 * 1024 * 1024"

definition DEFAULT_METRICS_INTERVAL_SECS :: u64 where
  "DEFAULT_METRICS_INTERVAL_SECS = 60"

text \<open>Unlike the limits' reader, this one keeps a zero.\<close>

definition env_usize :: "environment \<Rightarrow> string \<Rightarrow> usize \<Rightarrow> usize" where
  "env_usize env name dflt = opt_or (Option.bind (env name) (parse_unsigned (2 ^ 64))) dflt"

definition workers_of :: "nat option \<Rightarrow> environment \<Rightarrow> usize" where
  "workers_of cores env = env_usize env ''GRPC_EPUB_WORKERS'' (opt_or cores 4)"

definition address_of :: "environment \<Rightarrow> string" where
  "address_of env = opt_or (env ''GRPC_EPUB_ADDR'') DEFAULT_ADDR"

text \<open>Zero stands for the default, as it does for the limits.\<close>

definition clock_of :: "environment \<Rightarrow> string \<Rightarrow> nat \<Rightarrow> nat" where
  "clock_of env name dflt =
     (let secs = env_usize env name 0 in if secs = 0 then dflt else seconds_long secs)"

definition idle_timeout_of :: "environment \<Rightarrow> nat" where
  "idle_timeout_of env = clock_of env ''GRPC_EPUB_IDLE_TIMEOUT_SECONDS'' DEFAULT_IDLE_TIMEOUT"

definition upload_timeout_of :: "environment \<Rightarrow> nat" where
  "upload_timeout_of env = clock_of env ''GRPC_EPUB_UPLOAD_TIMEOUT_SECONDS'' DEFAULT_UPLOAD_TIMEOUT"

definition report_interval_of :: "environment \<Rightarrow> nat" where
  "report_interval_of env =
     seconds_long (env_usize env ''GRPC_EPUB_METRICS_INTERVAL_SECS'' (unat DEFAULT_METRICS_INTERVAL_SECS))"

definition window_of :: "environment \<Rightarrow> u32" where
  "window_of env =
     (let n = env_usize env ''GRPC_EPUB_WINDOW_BYTES'' (unat DEFAULT_WINDOW_BYTES)
      in if n < 2 ^ 32 then of_nat n else DEFAULT_WINDOW_BYTES)"

section \<open>Starting\<close>

datatype startup_error = BadAddress string | BadDescriptors

text \<open>What the transport is told, and the services it is given.\<close>

record transport =
  tr_tcp_nodelay :: bool
  tr_tcp_keepalive :: nat
  tr_http2_keepalive_interval :: nat
  tr_http2_keepalive_timeout :: nat
  tr_initial_stream_window :: u32
  tr_initial_connection_window :: u32
  tr_max_concurrent_streams :: u32
  tr_services :: "string list"

definition transport_of :: "u32 \<Rightarrow> transport" where
  "transport_of window = \<lparr>tr_tcp_nodelay = True, tr_tcp_keepalive = seconds_long 60,
     tr_http2_keepalive_interval = seconds_long 30, tr_http2_keepalive_timeout = seconds_long 10,
     tr_initial_stream_window = window, tr_initial_connection_window = window,
     tr_max_concurrent_streams = 1024,
     tr_services = [''grpc.health.v1.Health'', ''grpc.reflection.v1.ServerReflection'', SERVICE_NAME]\<rparr>"

record 'enc launch =
  la_workers :: usize
  la_addr :: socket_addr
  la_report_interval :: nat
  la_server :: "(service, 'enc) epub_server"
  la_transport :: transport
  la_line :: message

definition listening_line :: "string \<Rightarrow> u32 \<Rightarrow> limits \<Rightarrow> nat \<Rightarrow> nat \<Rightarrow> message" where
  "listening_line addr window l idle whole =
     [Lit ''grpc-epub listening on '', Str addr, Lit '' (http2 window '', Num (unat window),
      Lit '' bytes, max upload '', Num (unat (max_document_bytes l div MIB)),
      Lit '' MiB, max inflated '', Num (unat (max_uncompressed_bytes l div MIB)),
      Lit '' MiB, max entries '', Num (unat (max_entries l)),
      Lit '', idle timeout '', Num (idle div seconds_long 1),
      Lit '' s, upload timeout '', Num (whole div seconds_long 1), Lit '' s)'']"

text \<open>\<open>worker_threads\<close> panics for no worker at all.\<close>

definition worker_threads :: "usize \<Rightarrow> panic + usize" where
  "worker_threads n = (if n = 0 then Inl (Panic ''Worker threads cannot be set to 0'') else Inr n)"

definition build_service :: "'enc \<Rightarrow> environment \<Rightarrow> panic + (service, 'enc) epub_server" where
  "build_service plain env =
     and_then (with_metrics (from_env env)) (\<lambda>sv. Inr (into_service plain
       (with_upload_timeout (upload_timeout_of env) (with_idle_timeout (idle_timeout_of env) sv))))"

text \<open>\<open>serve\<close> up to the listener; \<open>show_addr\<close> is the address as it is printed.\<close>

definition serve ::
  "'enc \<Rightarrow> (socket_addr \<Rightarrow> string) \<Rightarrow> bool \<Rightarrow> environment \<Rightarrow> usize
     \<Rightarrow> panic + (startup_error + 'enc launch)" where
  "serve plain show_addr reflected env workers =
     (case parse_socket_addr (address_of env) of
        None \<Rightarrow> Inr (Inl (BadAddress (address_of env)))
      | Some addr \<Rightarrow>
          and_then (build_service plain env) (\<lambda>server.
            if \<not> reflected then Inr (Inl BadDescriptors)
            else Inr (Inr \<lparr>la_workers = workers, la_addr = addr,
              la_report_interval = report_interval_of env, la_server = server,
              la_transport = transport_of (window_of env),
              la_line = listening_line (show_addr addr) (window_of env) (from_env env)
                (idle_timeout_of env) (upload_timeout_of env)\<rparr>)))"

definition main ::
  "'enc \<Rightarrow> (socket_addr \<Rightarrow> string) \<Rightarrow> bool \<Rightarrow> nat option \<Rightarrow> environment
     \<Rightarrow> panic + (startup_error + 'enc launch)" where
  "main plain show_addr reflected cores env =
     and_then (worker_threads (workers_of cores env)) (serve plain show_addr reflected env)"

section \<open>Stopping\<close>

text \<open>The instant a shutdown is asked for: the first of the two signals, if either comes.\<close>

fun shutdown_signal :: "nat option \<Rightarrow> nat option \<Rightarrow> nat option" where
  "shutdown_signal (Some a) (Some b) = Some (min a b)"
| "shutdown_signal (Some a) None = Some a"
| "shutdown_signal None b = b"

definition farewell :: "metrics \<Rightarrow> message list" where
  "farewell m = [snapshot_line (snapshot m), [Lit ''grpc-epub shut down'']]"

section \<open>What a start amounts to\<close>

lemma env_usize_unset [simp]: "env name = None \<Longrightarrow> env_usize env name dflt = dflt"
  by (simp add: env_usize_def)

lemma clock_of_second: "seconds_long 1 \<le> dflt \<Longrightarrow> seconds_long 1 \<le> clock_of env name dflt"
  by (simp add: clock_of_def Let_def seconds_long_def)

lemma clocks_seconds:
  "seconds_long 1 \<le> idle_timeout_of env" "seconds_long 1 \<le> upload_timeout_of env"
  unfolding idle_timeout_of_def upload_timeout_of_def
  by (rule clock_of_second; simp add: DEFAULT_IDLE_TIMEOUT_def DEFAULT_UPLOAD_TIMEOUT_def seconds_long_def)+

lemma millis_less_second: "nanos_per_milli \<le> seconds_long 1"
  by (simp add: nanos_per_milli_def seconds_long_def)

lemma from_env_slots_pos: "0 < max_concurrent_parses (from_env env)"
  using env_u64_pos [of "of_nat (max_concurrent_parses default_limits)" env "''GRPC_EPUB_MAX_CONCURRENT_PARSES''"]
  by (simp add: from_env_def Let_def unat_gt_0 default_limits_def DEFAULT_MAX_CONCURRENT_PARSES_def)

lemma start_zero_workers:
  assumes "env ''GRPC_EPUB_WORKERS'' = Some ''0''"
  shows "main plain show_addr reflected cores env = Inl (Panic ''Worker threads cannot be set to 0'')"
proof -
  have "parse_unsigned (2 ^ 64) ''0'' = Some 0" by code_simp
  with assms show ?thesis by (simp add: main_def workers_of_def env_usize_def worker_threads_def)
qed

text \<open>
  Property C34.  How the process starts.  It panics exactly when it is told to run on no worker, or, with
  an address that reads, when it is told to parse more books at once than a semaphore holds; an address
  that does not read, and descriptors the reflection builder refuses, are errors in that order.  A
  process that starts has a worker and a parse slot, clocks of a second at least, a pool that holds the
  largest upload a call may send, and a decoder's limit behind the frame limit, whatever its environment
  says.
\<close>

theorem startup_outcome:
  "case main plain show_addr reflected cores env of
     Inl p \<Rightarrow> workers_of cores env = 0
       \<or> parse_socket_addr (address_of env) \<noteq> None \<and> max_concurrent_parses (from_env env) > MAX_PERMITS
   | Inr (Inl (BadAddress text)) \<Rightarrow> workers_of cores env \<noteq> 0
       \<and> text = address_of env \<and> parse_socket_addr text = None
   | Inr (Inl BadDescriptors) \<Rightarrow> workers_of cores env \<noteq> 0
       \<and> parse_socket_addr (address_of env) \<noteq> None
       \<and> max_concurrent_parses (from_env env) \<le> MAX_PERMITS \<and> \<not> reflected
   | Inr (Inr la) \<Rightarrow> reflected \<and> la_workers la = workers_of cores env \<and> 0 < la_workers la
       \<and> parse_socket_addr (address_of env) = Some (la_addr la)
       \<and> sv_slots (es_inner (la_server la)) = max_concurrent_parses (from_env env)
       \<and> 0 < sv_slots (es_inner (la_server la)) \<and> sv_slots (es_inner (la_server la)) \<le> MAX_PERMITS
       \<and> sv_idle_timeout (es_inner (la_server la)) = idle_timeout_of env
       \<and> sv_upload_timeout (es_inner (la_server la)) = upload_timeout_of env
       \<and> seconds_long 1 \<le> idle_timeout_of env \<and> seconds_long 1 \<le> upload_timeout_of env
       \<and> (\<forall>options. div_ceil (unat (eff_max_document_bytes
              (resolve_options (sv_limits (es_inner (la_server la))) options))) BUDGET_UNIT
            \<le> sv_budget (es_inner (la_server la)))
       \<and> es_max_decoding (la_server la)
           = Some (min (2 ^ 64 - 1) (2 * unat (max_chunk_bytes (from_env env))))"
proof (cases "workers_of cores env = 0")
  case True
  then show ?thesis by (simp add: main_def worker_threads_def)
next
  case workers: False
  show ?thesis
  proof (cases "parse_socket_addr (address_of env)")
    case None
    with workers show ?thesis by (simp add: main_def worker_threads_def serve_def)
  next
    case addr: (Some addr)
    show ?thesis
    proof (cases "with_metrics (from_env env)")
      case (Inl p)
      with built_pool_holds_an_upload [of "from_env env"] workers addr show ?thesis
        by (simp add: main_def worker_threads_def serve_def build_service_def)
    next
      case (Inr sv)
      note built = built_pool_holds_an_upload [of "from_env env", unfolded Inr, simplified]
      define es where "es = into_service plain
        (with_upload_timeout (upload_timeout_of env) (with_idle_timeout (idle_timeout_of env) sv))"
      have service: "build_service plain env = Inr es" by (simp add: build_service_def Inr es_def)
      have clocks: "sv_idle_timeout (es_inner es) = idle_timeout_of env"
        "sv_upload_timeout (es_inner es) = upload_timeout_of env"
        using clocks_seconds [of env] millis_less_second
        by (simp_all add: es_def with_idle_timeout_def with_upload_timeout_def)
      have kept: "sv_limits (es_inner es) = sv_limits sv" "sv_slots (es_inner es) = sv_slots sv"
        "sv_budget (es_inner es) = sv_budget sv"
        by (simp_all add: es_def with_idle_timeout_def with_upload_timeout_def)
      have chunk: "max_chunk_bytes (sv_limits sv) = max_chunk_bytes (from_env env)"
        using Inr by (auto simp: with_metrics_def Let_def and_then_eq_Inr)
      have backstop: "es_max_decoding es = Some (min (2 ^ 64 - 1) (2 * unat (max_chunk_bytes (from_env env))))"
        using chunk by (simp add: es_def decoding_backstop_twice with_idle_timeout_def with_upload_timeout_def)
      show ?thesis
        using workers addr built clocks clocks_seconds [of env] kept backstop from_env_slots_pos [of env]
        by (auto simp: main_def worker_threads_def serve_def service)
    qed
  qed
qed

text \<open>With nothing set, the process starts.\<close>

theorem startup_outcome_witness:
  "\<exists>la. main () (\<lambda>_. DEFAULT_ADDR) True (Some 4) (\<lambda>_. None) = Inr (Inr la)
     \<and> la_addr la = V4 [0, 0, 0, 0] 50064 \<and> la_workers la = 4
     \<and> sv_idle_timeout (es_inner (la_server la)) = seconds_long 30"
proof -
  let ?env = "\<lambda>_. None :: string option"
  have addr: "parse_socket_addr (address_of ?env) = Some (V4 [0, 0, 0, 0] 50064)"
    by (simp add: address_of_def DEFAULT_ADDR_def parse_socket_addr_samples)
  have workers: "workers_of (Some 4) ?env = 4" by (simp add: workers_of_def)
  have slots: "max_concurrent_parses (from_env ?env) \<le> MAX_PERMITS"
    by (simp add: from_env_empty default_limits_def DEFAULT_MAX_CONCURRENT_PARSES_def MAX_PERMITS_def)
  have idle: "idle_timeout_of ?env = seconds_long 30"
    by (simp add: idle_timeout_of_def clock_of_def DEFAULT_IDLE_TIMEOUT_def)
  show ?thesis
    using startup_outcome [where plain = "()" and show_addr = "\<lambda>_. DEFAULT_ADDR" and reflected = True
        and cores = "Some 4" and env = ?env] addr workers slots idle
    by (auto split: sum.splits startup_error.splits)
qed

end
