(* ===== verification/DocEnums.thy ===== *)
theory DocEnums imports DocSchema WireEnum begin

text \<open>
  \<open>src/gen/ai/pipestream/document/v1/\<close>, the enumerations of the document schema: the variants with
  their numbers on the wire, \<open>as_str_name\<close> and \<open>from_str_name\<close>.  Each of the two functions is
  the list of arms it has in the code.  The variants of the language enumerations are their numbers.
\<close>

fun content_layer_str_name :: "content_layer \<Rightarrow> string" where
  "content_layer_str_name LayerUnspecified = ''CONTENT_LAYER_UNSPECIFIED''"
| "content_layer_str_name LayerBody = ''CONTENT_LAYER_BODY''"
| "content_layer_str_name LayerFurniture = ''CONTENT_LAYER_FURNITURE''"
| "content_layer_str_name LayerBackground = ''CONTENT_LAYER_BACKGROUND''"
| "content_layer_str_name LayerInvisible = ''CONTENT_LAYER_INVISIBLE''"
| "content_layer_str_name LayerNotes = ''CONTENT_LAYER_NOTES''"

definition content_layer_from_str_name :: "string \<Rightarrow> content_layer option" where
  "content_layer_from_str_name = map_of [
     (''CONTENT_LAYER_UNSPECIFIED'', LayerUnspecified),
     (''CONTENT_LAYER_BODY'', LayerBody),
     (''CONTENT_LAYER_FURNITURE'', LayerFurniture),
     (''CONTENT_LAYER_BACKGROUND'', LayerBackground),
     (''CONTENT_LAYER_INVISIBLE'', LayerInvisible),
     (''CONTENT_LAYER_NOTES'', LayerNotes)]"

interpretation content_layer_names: wire_enum UNIV content_layer_number content_layer_str_name content_layer_from_str_name
proof (rule wire_enum_arms)
  show "a = b" if "content_layer_number a = content_layer_number b" for a b
    using that by (cases a; cases b) simp_all
  show "content_layer_from_str_name (content_layer_str_name a) = Some a" for a
    by (cases a) (simp_all only: content_layer_from_str_name_def content_layer_str_name.simps literals_apart cong: conj_left_cong)
  show "s = content_layer_str_name a" if "content_layer_from_str_name s = Some a" for s a
    using map_of_SomeD [OF that [unfolded content_layer_from_str_name_def]] by auto
qed

fun group_label_str_name :: "group_label \<Rightarrow> string" where
  "group_label_str_name LabelUnspecified = ''GROUP_LABEL_UNSPECIFIED''"
| "group_label_str_name LabelList = ''GROUP_LABEL_LIST''"
| "group_label_str_name LabelOrderedList = ''GROUP_LABEL_ORDERED_LIST''"
| "group_label_str_name LabelChapter = ''GROUP_LABEL_CHAPTER''"
| "group_label_str_name LabelSection = ''GROUP_LABEL_SECTION''"
| "group_label_str_name LabelSheet = ''GROUP_LABEL_SHEET''"
| "group_label_str_name LabelSlide = ''GROUP_LABEL_SLIDE''"
| "group_label_str_name LabelFormArea = ''GROUP_LABEL_FORM_AREA''"
| "group_label_str_name LabelKeyValueArea = ''GROUP_LABEL_KEY_VALUE_AREA''"
| "group_label_str_name LabelCommentSection = ''GROUP_LABEL_COMMENT_SECTION''"
| "group_label_str_name LabelInline = ''GROUP_LABEL_INLINE''"
| "group_label_str_name LabelPictureArea = ''GROUP_LABEL_PICTURE_AREA''"

definition group_label_from_str_name :: "string \<Rightarrow> group_label option" where
  "group_label_from_str_name = map_of [
     (''GROUP_LABEL_UNSPECIFIED'', LabelUnspecified),
     (''GROUP_LABEL_LIST'', LabelList),
     (''GROUP_LABEL_ORDERED_LIST'', LabelOrderedList),
     (''GROUP_LABEL_CHAPTER'', LabelChapter),
     (''GROUP_LABEL_SECTION'', LabelSection),
     (''GROUP_LABEL_SHEET'', LabelSheet),
     (''GROUP_LABEL_SLIDE'', LabelSlide),
     (''GROUP_LABEL_FORM_AREA'', LabelFormArea),
     (''GROUP_LABEL_KEY_VALUE_AREA'', LabelKeyValueArea),
     (''GROUP_LABEL_COMMENT_SECTION'', LabelCommentSection),
     (''GROUP_LABEL_INLINE'', LabelInline),
     (''GROUP_LABEL_PICTURE_AREA'', LabelPictureArea)]"

interpretation group_label_names: wire_enum UNIV group_label_number group_label_str_name group_label_from_str_name
proof (rule wire_enum_arms)
  show "a = b" if "group_label_number a = group_label_number b" for a b
    using that by (cases a; cases b) simp_all
  show "group_label_from_str_name (group_label_str_name a) = Some a" for a
    by (cases a) (simp_all only: group_label_from_str_name_def group_label_str_name.simps literals_apart cong: conj_left_cong)
  show "s = group_label_str_name a" if "group_label_from_str_name s = Some a" for s a
    using map_of_SomeD [OF that [unfolded group_label_from_str_name_def]] by auto
qed

fun doc_item_label_str_name :: "doc_item_label \<Rightarrow> string" where
  "doc_item_label_str_name ItemUnspecified = ''DOC_ITEM_LABEL_UNSPECIFIED''"
| "doc_item_label_str_name ItemCaption = ''DOC_ITEM_LABEL_CAPTION''"
| "doc_item_label_str_name ItemChart = ''DOC_ITEM_LABEL_CHART''"
| "doc_item_label_str_name ItemCheckboxSelected = ''DOC_ITEM_LABEL_CHECKBOX_SELECTED''"
| "doc_item_label_str_name ItemCheckboxUnselected = ''DOC_ITEM_LABEL_CHECKBOX_UNSELECTED''"
| "doc_item_label_str_name ItemCode = ''DOC_ITEM_LABEL_CODE''"
| "doc_item_label_str_name ItemDocumentIndex = ''DOC_ITEM_LABEL_DOCUMENT_INDEX''"
| "doc_item_label_str_name ItemEmptyValue = ''DOC_ITEM_LABEL_EMPTY_VALUE''"
| "doc_item_label_str_name ItemFootnote = ''DOC_ITEM_LABEL_FOOTNOTE''"
| "doc_item_label_str_name ItemForm = ''DOC_ITEM_LABEL_FORM''"
| "doc_item_label_str_name ItemFormula = ''DOC_ITEM_LABEL_FORMULA''"
| "doc_item_label_str_name ItemGradingScale = ''DOC_ITEM_LABEL_GRADING_SCALE''"
| "doc_item_label_str_name ItemHandwrittenText = ''DOC_ITEM_LABEL_HANDWRITTEN_TEXT''"
| "doc_item_label_str_name ItemKeyValueRegion = ''DOC_ITEM_LABEL_KEY_VALUE_REGION''"
| "doc_item_label_str_name ItemListItem = ''DOC_ITEM_LABEL_LIST_ITEM''"
| "doc_item_label_str_name ItemPageFooter = ''DOC_ITEM_LABEL_PAGE_FOOTER''"
| "doc_item_label_str_name ItemPageHeader = ''DOC_ITEM_LABEL_PAGE_HEADER''"
| "doc_item_label_str_name ItemParagraph = ''DOC_ITEM_LABEL_PARAGRAPH''"
| "doc_item_label_str_name ItemPicture = ''DOC_ITEM_LABEL_PICTURE''"
| "doc_item_label_str_name ItemReference = ''DOC_ITEM_LABEL_REFERENCE''"
| "doc_item_label_str_name ItemSectionHeader = ''DOC_ITEM_LABEL_SECTION_HEADER''"
| "doc_item_label_str_name ItemTable = ''DOC_ITEM_LABEL_TABLE''"
| "doc_item_label_str_name ItemText = ''DOC_ITEM_LABEL_TEXT''"
| "doc_item_label_str_name ItemTitle = ''DOC_ITEM_LABEL_TITLE''"
| "doc_item_label_str_name ItemFieldRegion = ''DOC_ITEM_LABEL_FIELD_REGION''"
| "doc_item_label_str_name ItemFieldHeading = ''DOC_ITEM_LABEL_FIELD_HEADING''"
| "doc_item_label_str_name ItemFieldItem = ''DOC_ITEM_LABEL_FIELD_ITEM''"
| "doc_item_label_str_name ItemFieldKey = ''DOC_ITEM_LABEL_FIELD_KEY''"
| "doc_item_label_str_name ItemFieldValue = ''DOC_ITEM_LABEL_FIELD_VALUE''"
| "doc_item_label_str_name ItemFieldHint = ''DOC_ITEM_LABEL_FIELD_HINT''"
| "doc_item_label_str_name ItemMarker = ''DOC_ITEM_LABEL_MARKER''"
| "doc_item_label_str_name ItemSeal = ''DOC_ITEM_LABEL_SEAL''"
| "doc_item_label_str_name ItemAside = ''DOC_ITEM_LABEL_ASIDE''"
| "doc_item_label_str_name ItemAlgorithm = ''DOC_ITEM_LABEL_ALGORITHM''"

definition doc_item_label_from_str_name :: "string \<Rightarrow> doc_item_label option" where
  "doc_item_label_from_str_name = map_of [
     (''DOC_ITEM_LABEL_UNSPECIFIED'', ItemUnspecified),
     (''DOC_ITEM_LABEL_CAPTION'', ItemCaption),
     (''DOC_ITEM_LABEL_CHART'', ItemChart),
     (''DOC_ITEM_LABEL_CHECKBOX_SELECTED'', ItemCheckboxSelected),
     (''DOC_ITEM_LABEL_CHECKBOX_UNSELECTED'', ItemCheckboxUnselected),
     (''DOC_ITEM_LABEL_CODE'', ItemCode),
     (''DOC_ITEM_LABEL_DOCUMENT_INDEX'', ItemDocumentIndex),
     (''DOC_ITEM_LABEL_EMPTY_VALUE'', ItemEmptyValue),
     (''DOC_ITEM_LABEL_FOOTNOTE'', ItemFootnote),
     (''DOC_ITEM_LABEL_FORM'', ItemForm),
     (''DOC_ITEM_LABEL_FORMULA'', ItemFormula),
     (''DOC_ITEM_LABEL_GRADING_SCALE'', ItemGradingScale),
     (''DOC_ITEM_LABEL_HANDWRITTEN_TEXT'', ItemHandwrittenText),
     (''DOC_ITEM_LABEL_KEY_VALUE_REGION'', ItemKeyValueRegion),
     (''DOC_ITEM_LABEL_LIST_ITEM'', ItemListItem),
     (''DOC_ITEM_LABEL_PAGE_FOOTER'', ItemPageFooter),
     (''DOC_ITEM_LABEL_PAGE_HEADER'', ItemPageHeader),
     (''DOC_ITEM_LABEL_PARAGRAPH'', ItemParagraph),
     (''DOC_ITEM_LABEL_PICTURE'', ItemPicture),
     (''DOC_ITEM_LABEL_REFERENCE'', ItemReference),
     (''DOC_ITEM_LABEL_SECTION_HEADER'', ItemSectionHeader),
     (''DOC_ITEM_LABEL_TABLE'', ItemTable),
     (''DOC_ITEM_LABEL_TEXT'', ItemText),
     (''DOC_ITEM_LABEL_TITLE'', ItemTitle),
     (''DOC_ITEM_LABEL_FIELD_REGION'', ItemFieldRegion),
     (''DOC_ITEM_LABEL_FIELD_HEADING'', ItemFieldHeading),
     (''DOC_ITEM_LABEL_FIELD_ITEM'', ItemFieldItem),
     (''DOC_ITEM_LABEL_FIELD_KEY'', ItemFieldKey),
     (''DOC_ITEM_LABEL_FIELD_VALUE'', ItemFieldValue),
     (''DOC_ITEM_LABEL_FIELD_HINT'', ItemFieldHint),
     (''DOC_ITEM_LABEL_MARKER'', ItemMarker),
     (''DOC_ITEM_LABEL_SEAL'', ItemSeal),
     (''DOC_ITEM_LABEL_ASIDE'', ItemAside),
     (''DOC_ITEM_LABEL_ALGORITHM'', ItemAlgorithm)]"

interpretation doc_item_label_names: wire_enum UNIV doc_item_label_number doc_item_label_str_name doc_item_label_from_str_name
proof (rule wire_enum_arms)
  show "a = b" if "doc_item_label_number a = doc_item_label_number b" for a b
    using that by (cases a; cases b) simp_all
  show "doc_item_label_from_str_name (doc_item_label_str_name a) = Some a" for a
    by (cases a) (simp_all only: doc_item_label_from_str_name_def doc_item_label_str_name.simps literals_apart cong: conj_left_cong)
  show "s = doc_item_label_str_name a" if "doc_item_label_from_str_name s = Some a" for s a
    using map_of_SomeD [OF that [unfolded doc_item_label_from_str_name_def]] by auto
qed

datatype text_script =
  ScriptUnspecified | ScriptBaseline | ScriptSub | ScriptSuper

fun text_script_number :: "text_script \<Rightarrow> int" where
  "text_script_number ScriptUnspecified = 0"
| "text_script_number ScriptBaseline = 1"
| "text_script_number ScriptSub = 2"
| "text_script_number ScriptSuper = 3"

fun text_script_str_name :: "text_script \<Rightarrow> string" where
  "text_script_str_name ScriptUnspecified = ''SCRIPT_UNSPECIFIED''"
| "text_script_str_name ScriptBaseline = ''SCRIPT_BASELINE''"
| "text_script_str_name ScriptSub = ''SCRIPT_SUB''"
| "text_script_str_name ScriptSuper = ''SCRIPT_SUPER''"

definition text_script_from_str_name :: "string \<Rightarrow> text_script option" where
  "text_script_from_str_name = map_of [
     (''SCRIPT_UNSPECIFIED'', ScriptUnspecified),
     (''SCRIPT_BASELINE'', ScriptBaseline),
     (''SCRIPT_SUB'', ScriptSub),
     (''SCRIPT_SUPER'', ScriptSuper)]"

interpretation text_script_names: wire_enum UNIV text_script_number text_script_str_name text_script_from_str_name
proof (rule wire_enum_arms)
  show "a = b" if "text_script_number a = text_script_number b" for a b
    using that by (cases a; cases b) simp_all
  show "text_script_from_str_name (text_script_str_name a) = Some a" for a
    by (cases a) (simp_all only: text_script_from_str_name_def text_script_str_name.simps literals_apart cong: conj_left_cong)
  show "s = text_script_str_name a" if "text_script_from_str_name s = Some a" for s a
    using map_of_SomeD [OF that [unfolded text_script_from_str_name_def]] by auto
qed

datatype coord_origin =
  CoordOriginUnspecified | CoordOriginTopleft | CoordOriginBottomleft

fun coord_origin_number :: "coord_origin \<Rightarrow> int" where
  "coord_origin_number CoordOriginUnspecified = 0"
| "coord_origin_number CoordOriginTopleft = 1"
| "coord_origin_number CoordOriginBottomleft = 2"

fun coord_origin_str_name :: "coord_origin \<Rightarrow> string" where
  "coord_origin_str_name CoordOriginUnspecified = ''COORD_ORIGIN_UNSPECIFIED''"
| "coord_origin_str_name CoordOriginTopleft = ''COORD_ORIGIN_TOPLEFT''"
| "coord_origin_str_name CoordOriginBottomleft = ''COORD_ORIGIN_BOTTOMLEFT''"

definition coord_origin_from_str_name :: "string \<Rightarrow> coord_origin option" where
  "coord_origin_from_str_name = map_of [
     (''COORD_ORIGIN_UNSPECIFIED'', CoordOriginUnspecified),
     (''COORD_ORIGIN_TOPLEFT'', CoordOriginTopleft),
     (''COORD_ORIGIN_BOTTOMLEFT'', CoordOriginBottomleft)]"

interpretation coord_origin_names: wire_enum UNIV coord_origin_number coord_origin_str_name coord_origin_from_str_name
proof (rule wire_enum_arms)
  show "a = b" if "coord_origin_number a = coord_origin_number b" for a b
    using that by (cases a; cases b) simp_all
  show "coord_origin_from_str_name (coord_origin_str_name a) = Some a" for a
    by (cases a) (simp_all only: coord_origin_from_str_name_def coord_origin_str_name.simps literals_apart cong: conj_left_cong)
  show "s = coord_origin_str_name a" if "coord_origin_from_str_name s = Some a" for s a
    using map_of_SomeD [OF that [unfolded coord_origin_from_str_name_def]] by auto
qed

datatype orientation =
  OrientationUnspecified | OrientationRot0 | OrientationRot90 | OrientationRot180 |
  OrientationRot270

fun orientation_number :: "orientation \<Rightarrow> int" where
  "orientation_number OrientationUnspecified = 0"
| "orientation_number OrientationRot0 = 1"
| "orientation_number OrientationRot90 = 2"
| "orientation_number OrientationRot180 = 3"
| "orientation_number OrientationRot270 = 4"

fun orientation_str_name :: "orientation \<Rightarrow> string" where
  "orientation_str_name OrientationUnspecified = ''ORIENTATION_UNSPECIFIED''"
| "orientation_str_name OrientationRot0 = ''ORIENTATION_ROT_0''"
| "orientation_str_name OrientationRot90 = ''ORIENTATION_ROT_90''"
| "orientation_str_name OrientationRot180 = ''ORIENTATION_ROT_180''"
| "orientation_str_name OrientationRot270 = ''ORIENTATION_ROT_270''"

definition orientation_from_str_name :: "string \<Rightarrow> orientation option" where
  "orientation_from_str_name = map_of [
     (''ORIENTATION_UNSPECIFIED'', OrientationUnspecified),
     (''ORIENTATION_ROT_0'', OrientationRot0),
     (''ORIENTATION_ROT_90'', OrientationRot90),
     (''ORIENTATION_ROT_180'', OrientationRot180),
     (''ORIENTATION_ROT_270'', OrientationRot270)]"

interpretation orientation_names: wire_enum UNIV orientation_number orientation_str_name orientation_from_str_name
proof (rule wire_enum_arms)
  show "a = b" if "orientation_number a = orientation_number b" for a b
    using that by (cases a; cases b) simp_all
  show "orientation_from_str_name (orientation_str_name a) = Some a" for a
    by (cases a) (simp_all only: orientation_from_str_name_def orientation_str_name.simps literals_apart cong: conj_left_cong)
  show "s = orientation_str_name a" if "orientation_from_str_name s = Some a" for s a
    using map_of_SomeD [OF that [unfolded orientation_from_str_name_def]] by auto
qed

definition code_language_tags :: "string list" where
  "code_language_tags = [
     ''UNSPECIFIED'', ''ADA'', ''AWK'', ''BASH'', ''BC'', ''C'', ''C_SHARP'',
     ''C_PLUS_PLUS'', ''CMAKE'', ''COBOL'', ''CSS'', ''CEYLON'', ''CLOJURE'', ''CRYSTAL'',
     ''CUDA'', ''CYTHON'', ''D'', ''DART'', ''DC'', ''DOCKERFILE'', ''ELIXIR'', ''ERLANG'',
     ''FORTRAN'', ''FORTH'', ''GO'', ''HTML'', ''HASKELL'', ''HAXE'', ''JAVA'',
     ''JAVASCRIPT'', ''JSON'', ''JULIA'', ''KOTLIN'', ''LISP'', ''LUA'', ''MATLAB'',
     ''MOONSCRIPT'', ''NIM'', ''OCAML'', ''OBJECTIVEC'', ''OCTAVE'', ''PHP'', ''PASCAL'',
     ''PERL'', ''PROLOG'', ''PYTHON'', ''RACKET'', ''RUBY'', ''RUST'', ''SML'', ''SQL'',
     ''SCALA'', ''SCHEME'', ''SWIFT'', ''TYPESCRIPT'', ''UNKNOWN'', ''VISUALBASIC'',
     ''XML'', ''YAML'', ''LATEX'', ''TIKZ'', ''DOCLANG'']"

definition code_language_from_str_name :: "string \<Rightarrow> int option" where
  "code_language_from_str_name name = numbered_from_str_name ''CODE_LANGUAGE_LABEL_'' code_language_tags name"

definition code_language_str_name :: "int \<Rightarrow> string" where
  "code_language_str_name n = numbered_str_name ''CODE_LANGUAGE_LABEL_'' code_language_tags n"

lemma code_language_tags_distinct: "distinct code_language_tags"
  by (simp only: code_language_tags_def literals_apart cong: conj_left_cong)

interpretation code_language_names: wire_enum "{0..<int (length code_language_tags)}" id code_language_str_name code_language_from_str_name
  unfolding code_language_from_str_name_def [abs_def] code_language_str_name_def [abs_def]
  by (rule wire_enum_numbered [OF code_language_tags_distinct])

lemma human_language_from_str_name_eq:
  "human_language_from_str_name name = numbered_from_str_name ''HUMAN_LANGUAGE_LABEL_'' human_language_tags name"
  by (simp add: human_language_from_str_name_def numbered_from_str_name_def)

definition human_language_str_name :: "int \<Rightarrow> string" where
  "human_language_str_name n = numbered_str_name ''HUMAN_LANGUAGE_LABEL_'' human_language_tags n"

lemma human_language_tags_distinct: "distinct human_language_tags"
  by (simp only: human_language_tags_def literals_apart cong: conj_left_cong)

interpretation human_language_names: wire_enum "{0..<int (length human_language_tags)}" id human_language_str_name human_language_from_str_name
  unfolding human_language_from_str_name_eq [abs_def] human_language_str_name_def [abs_def]
  by (rule wire_enum_numbered [OF human_language_tags_distinct])

datatype graph_cell_label =
  GraphCellLabelUnspecified | GraphCellLabelKey | GraphCellLabelValue |
  GraphCellLabelCheckbox

fun graph_cell_label_number :: "graph_cell_label \<Rightarrow> int" where
  "graph_cell_label_number GraphCellLabelUnspecified = 0"
| "graph_cell_label_number GraphCellLabelKey = 1"
| "graph_cell_label_number GraphCellLabelValue = 2"
| "graph_cell_label_number GraphCellLabelCheckbox = 3"

fun graph_cell_label_str_name :: "graph_cell_label \<Rightarrow> string" where
  "graph_cell_label_str_name GraphCellLabelUnspecified = ''GRAPH_CELL_LABEL_UNSPECIFIED''"
| "graph_cell_label_str_name GraphCellLabelKey = ''GRAPH_CELL_LABEL_KEY''"
| "graph_cell_label_str_name GraphCellLabelValue = ''GRAPH_CELL_LABEL_VALUE''"
| "graph_cell_label_str_name GraphCellLabelCheckbox = ''GRAPH_CELL_LABEL_CHECKBOX''"

definition graph_cell_label_from_str_name :: "string \<Rightarrow> graph_cell_label option" where
  "graph_cell_label_from_str_name = map_of [
     (''GRAPH_CELL_LABEL_UNSPECIFIED'', GraphCellLabelUnspecified),
     (''GRAPH_CELL_LABEL_KEY'', GraphCellLabelKey),
     (''GRAPH_CELL_LABEL_VALUE'', GraphCellLabelValue),
     (''GRAPH_CELL_LABEL_CHECKBOX'', GraphCellLabelCheckbox)]"

interpretation graph_cell_label_names: wire_enum UNIV graph_cell_label_number graph_cell_label_str_name graph_cell_label_from_str_name
proof (rule wire_enum_arms)
  show "a = b" if "graph_cell_label_number a = graph_cell_label_number b" for a b
    using that by (cases a; cases b) simp_all
  show "graph_cell_label_from_str_name (graph_cell_label_str_name a) = Some a" for a
    by (cases a) (simp_all only: graph_cell_label_from_str_name_def graph_cell_label_str_name.simps literals_apart cong: conj_left_cong)
  show "s = graph_cell_label_str_name a" if "graph_cell_label_from_str_name s = Some a" for s a
    using map_of_SomeD [OF that [unfolded graph_cell_label_from_str_name_def]] by auto
qed

datatype graph_link_label =
  GraphLinkLabelUnspecified | GraphLinkLabelToValue | GraphLinkLabelToKey |
  GraphLinkLabelToParent | GraphLinkLabelToChild

fun graph_link_label_number :: "graph_link_label \<Rightarrow> int" where
  "graph_link_label_number GraphLinkLabelUnspecified = 0"
| "graph_link_label_number GraphLinkLabelToValue = 1"
| "graph_link_label_number GraphLinkLabelToKey = 2"
| "graph_link_label_number GraphLinkLabelToParent = 3"
| "graph_link_label_number GraphLinkLabelToChild = 4"

fun graph_link_label_str_name :: "graph_link_label \<Rightarrow> string" where
  "graph_link_label_str_name GraphLinkLabelUnspecified = ''GRAPH_LINK_LABEL_UNSPECIFIED''"
| "graph_link_label_str_name GraphLinkLabelToValue = ''GRAPH_LINK_LABEL_TO_VALUE''"
| "graph_link_label_str_name GraphLinkLabelToKey = ''GRAPH_LINK_LABEL_TO_KEY''"
| "graph_link_label_str_name GraphLinkLabelToParent = ''GRAPH_LINK_LABEL_TO_PARENT''"
| "graph_link_label_str_name GraphLinkLabelToChild = ''GRAPH_LINK_LABEL_TO_CHILD''"

definition graph_link_label_from_str_name :: "string \<Rightarrow> graph_link_label option" where
  "graph_link_label_from_str_name = map_of [
     (''GRAPH_LINK_LABEL_UNSPECIFIED'', GraphLinkLabelUnspecified),
     (''GRAPH_LINK_LABEL_TO_VALUE'', GraphLinkLabelToValue),
     (''GRAPH_LINK_LABEL_TO_KEY'', GraphLinkLabelToKey),
     (''GRAPH_LINK_LABEL_TO_PARENT'', GraphLinkLabelToParent),
     (''GRAPH_LINK_LABEL_TO_CHILD'', GraphLinkLabelToChild)]"

interpretation graph_link_label_names: wire_enum UNIV graph_link_label_number graph_link_label_str_name graph_link_label_from_str_name
proof (rule wire_enum_arms)
  show "a = b" if "graph_link_label_number a = graph_link_label_number b" for a b
    using that by (cases a; cases b) simp_all
  show "graph_link_label_from_str_name (graph_link_label_str_name a) = Some a" for a
    by (cases a) (simp_all only: graph_link_label_from_str_name_def graph_link_label_str_name.simps literals_apart cong: conj_left_cong)
  show "s = graph_link_label_str_name a" if "graph_link_label_from_str_name s = Some a" for s a
    using map_of_SomeD [OF that [unfolded graph_link_label_from_str_name_def]] by auto
qed

datatype reference_kind =
  ReferenceKindUnspecified | ReferenceKindCitation | ReferenceKindFootnote |
  ReferenceKindClaim | ReferenceKindSection | ReferenceKindCrossRef | ReferenceKindFigure |
  ReferenceKindTable | ReferenceKindEquation

fun reference_kind_number :: "reference_kind \<Rightarrow> int" where
  "reference_kind_number ReferenceKindUnspecified = 0"
| "reference_kind_number ReferenceKindCitation = 1"
| "reference_kind_number ReferenceKindFootnote = 2"
| "reference_kind_number ReferenceKindClaim = 3"
| "reference_kind_number ReferenceKindSection = 4"
| "reference_kind_number ReferenceKindCrossRef = 5"
| "reference_kind_number ReferenceKindFigure = 6"
| "reference_kind_number ReferenceKindTable = 7"
| "reference_kind_number ReferenceKindEquation = 8"

fun reference_kind_str_name :: "reference_kind \<Rightarrow> string" where
  "reference_kind_str_name ReferenceKindUnspecified = ''REFERENCE_KIND_UNSPECIFIED''"
| "reference_kind_str_name ReferenceKindCitation = ''REFERENCE_KIND_CITATION''"
| "reference_kind_str_name ReferenceKindFootnote = ''REFERENCE_KIND_FOOTNOTE''"
| "reference_kind_str_name ReferenceKindClaim = ''REFERENCE_KIND_CLAIM''"
| "reference_kind_str_name ReferenceKindSection = ''REFERENCE_KIND_SECTION''"
| "reference_kind_str_name ReferenceKindCrossRef = ''REFERENCE_KIND_CROSS_REF''"
| "reference_kind_str_name ReferenceKindFigure = ''REFERENCE_KIND_FIGURE''"
| "reference_kind_str_name ReferenceKindTable = ''REFERENCE_KIND_TABLE''"
| "reference_kind_str_name ReferenceKindEquation = ''REFERENCE_KIND_EQUATION''"

definition reference_kind_from_str_name :: "string \<Rightarrow> reference_kind option" where
  "reference_kind_from_str_name = map_of [
     (''REFERENCE_KIND_UNSPECIFIED'', ReferenceKindUnspecified),
     (''REFERENCE_KIND_CITATION'', ReferenceKindCitation),
     (''REFERENCE_KIND_FOOTNOTE'', ReferenceKindFootnote),
     (''REFERENCE_KIND_CLAIM'', ReferenceKindClaim),
     (''REFERENCE_KIND_SECTION'', ReferenceKindSection),
     (''REFERENCE_KIND_CROSS_REF'', ReferenceKindCrossRef),
     (''REFERENCE_KIND_FIGURE'', ReferenceKindFigure),
     (''REFERENCE_KIND_TABLE'', ReferenceKindTable),
     (''REFERENCE_KIND_EQUATION'', ReferenceKindEquation)]"

interpretation reference_kind_names: wire_enum UNIV reference_kind_number reference_kind_str_name reference_kind_from_str_name
proof (rule wire_enum_arms)
  show "a = b" if "reference_kind_number a = reference_kind_number b" for a b
    using that by (cases a; cases b) simp_all
  show "reference_kind_from_str_name (reference_kind_str_name a) = Some a" for a
    by (cases a) (simp_all only: reference_kind_from_str_name_def reference_kind_str_name.simps literals_apart cong: conj_left_cong)
  show "s = reference_kind_str_name a" if "reference_kind_from_str_name s = Some a" for s a
    using map_of_SomeD [OF that [unfolded reference_kind_from_str_name_def]] by auto
qed

datatype alignment =
  AlignmentUnspecified | AlignmentLeft | AlignmentCenter | AlignmentRight | AlignmentJustify

fun alignment_number :: "alignment \<Rightarrow> int" where
  "alignment_number AlignmentUnspecified = 0"
| "alignment_number AlignmentLeft = 1"
| "alignment_number AlignmentCenter = 2"
| "alignment_number AlignmentRight = 3"
| "alignment_number AlignmentJustify = 4"

fun alignment_str_name :: "alignment \<Rightarrow> string" where
  "alignment_str_name AlignmentUnspecified = ''ALIGNMENT_UNSPECIFIED''"
| "alignment_str_name AlignmentLeft = ''ALIGNMENT_LEFT''"
| "alignment_str_name AlignmentCenter = ''ALIGNMENT_CENTER''"
| "alignment_str_name AlignmentRight = ''ALIGNMENT_RIGHT''"
| "alignment_str_name AlignmentJustify = ''ALIGNMENT_JUSTIFY''"

definition alignment_from_str_name :: "string \<Rightarrow> alignment option" where
  "alignment_from_str_name = map_of [
     (''ALIGNMENT_UNSPECIFIED'', AlignmentUnspecified),
     (''ALIGNMENT_LEFT'', AlignmentLeft),
     (''ALIGNMENT_CENTER'', AlignmentCenter),
     (''ALIGNMENT_RIGHT'', AlignmentRight),
     (''ALIGNMENT_JUSTIFY'', AlignmentJustify)]"

interpretation alignment_names: wire_enum UNIV alignment_number alignment_str_name alignment_from_str_name
proof (rule wire_enum_arms)
  show "a = b" if "alignment_number a = alignment_number b" for a b
    using that by (cases a; cases b) simp_all
  show "alignment_from_str_name (alignment_str_name a) = Some a" for a
    by (cases a) (simp_all only: alignment_from_str_name_def alignment_str_name.simps literals_apart cong: conj_left_cong)
  show "s = alignment_str_name a" if "alignment_from_str_name s = Some a" for s a
    using map_of_SomeD [OF that [unfolded alignment_from_str_name_def]] by auto
qed

datatype vertical_alignment =
  VerticalAlignmentUnspecified | VerticalAlignmentTop | VerticalAlignmentMiddle |
  VerticalAlignmentBottom

fun vertical_alignment_number :: "vertical_alignment \<Rightarrow> int" where
  "vertical_alignment_number VerticalAlignmentUnspecified = 0"
| "vertical_alignment_number VerticalAlignmentTop = 1"
| "vertical_alignment_number VerticalAlignmentMiddle = 2"
| "vertical_alignment_number VerticalAlignmentBottom = 3"

fun vertical_alignment_str_name :: "vertical_alignment \<Rightarrow> string" where
  "vertical_alignment_str_name VerticalAlignmentUnspecified = ''VERTICAL_ALIGNMENT_UNSPECIFIED''"
| "vertical_alignment_str_name VerticalAlignmentTop = ''VERTICAL_ALIGNMENT_TOP''"
| "vertical_alignment_str_name VerticalAlignmentMiddle = ''VERTICAL_ALIGNMENT_MIDDLE''"
| "vertical_alignment_str_name VerticalAlignmentBottom = ''VERTICAL_ALIGNMENT_BOTTOM''"

definition vertical_alignment_from_str_name :: "string \<Rightarrow> vertical_alignment option" where
  "vertical_alignment_from_str_name = map_of [
     (''VERTICAL_ALIGNMENT_UNSPECIFIED'', VerticalAlignmentUnspecified),
     (''VERTICAL_ALIGNMENT_TOP'', VerticalAlignmentTop),
     (''VERTICAL_ALIGNMENT_MIDDLE'', VerticalAlignmentMiddle),
     (''VERTICAL_ALIGNMENT_BOTTOM'', VerticalAlignmentBottom)]"

interpretation vertical_alignment_names: wire_enum UNIV vertical_alignment_number vertical_alignment_str_name vertical_alignment_from_str_name
proof (rule wire_enum_arms)
  show "a = b" if "vertical_alignment_number a = vertical_alignment_number b" for a b
    using that by (cases a; cases b) simp_all
  show "vertical_alignment_from_str_name (vertical_alignment_str_name a) = Some a" for a
    by (cases a) (simp_all only: vertical_alignment_from_str_name_def vertical_alignment_str_name.simps literals_apart cong: conj_left_cong)
  show "s = vertical_alignment_str_name a" if "vertical_alignment_from_str_name s = Some a" for s a
    using map_of_SomeD [OF that [unfolded vertical_alignment_from_str_name_def]] by auto
qed

datatype vlm_stop_reason =
  VlmStopReasonUnspecified | VlmStopReasonLength | VlmStopReasonStopSequence |
  VlmStopReasonEndOfSequence | VlmStopReasonContentFiltered | VlmStopReasonInferenceError

fun vlm_stop_reason_number :: "vlm_stop_reason \<Rightarrow> int" where
  "vlm_stop_reason_number VlmStopReasonUnspecified = 0"
| "vlm_stop_reason_number VlmStopReasonLength = 1"
| "vlm_stop_reason_number VlmStopReasonStopSequence = 2"
| "vlm_stop_reason_number VlmStopReasonEndOfSequence = 3"
| "vlm_stop_reason_number VlmStopReasonContentFiltered = 4"
| "vlm_stop_reason_number VlmStopReasonInferenceError = 5"

fun vlm_stop_reason_str_name :: "vlm_stop_reason \<Rightarrow> string" where
  "vlm_stop_reason_str_name VlmStopReasonUnspecified = ''VLM_STOP_REASON_UNSPECIFIED''"
| "vlm_stop_reason_str_name VlmStopReasonLength = ''VLM_STOP_REASON_LENGTH''"
| "vlm_stop_reason_str_name VlmStopReasonStopSequence = ''VLM_STOP_REASON_STOP_SEQUENCE''"
| "vlm_stop_reason_str_name VlmStopReasonEndOfSequence = ''VLM_STOP_REASON_END_OF_SEQUENCE''"
| "vlm_stop_reason_str_name VlmStopReasonContentFiltered = ''VLM_STOP_REASON_CONTENT_FILTERED''"
| "vlm_stop_reason_str_name VlmStopReasonInferenceError = ''VLM_STOP_REASON_INFERENCE_ERROR''"

definition vlm_stop_reason_from_str_name :: "string \<Rightarrow> vlm_stop_reason option" where
  "vlm_stop_reason_from_str_name = map_of [
     (''VLM_STOP_REASON_UNSPECIFIED'', VlmStopReasonUnspecified),
     (''VLM_STOP_REASON_LENGTH'', VlmStopReasonLength),
     (''VLM_STOP_REASON_STOP_SEQUENCE'', VlmStopReasonStopSequence),
     (''VLM_STOP_REASON_END_OF_SEQUENCE'', VlmStopReasonEndOfSequence),
     (''VLM_STOP_REASON_CONTENT_FILTERED'', VlmStopReasonContentFiltered),
     (''VLM_STOP_REASON_INFERENCE_ERROR'', VlmStopReasonInferenceError)]"

interpretation vlm_stop_reason_names: wire_enum UNIV vlm_stop_reason_number vlm_stop_reason_str_name vlm_stop_reason_from_str_name
proof (rule wire_enum_arms)
  show "a = b" if "vlm_stop_reason_number a = vlm_stop_reason_number b" for a b
    using that by (cases a; cases b) simp_all
  show "vlm_stop_reason_from_str_name (vlm_stop_reason_str_name a) = Some a" for a
    by (cases a) (simp_all only: vlm_stop_reason_from_str_name_def vlm_stop_reason_str_name.simps literals_apart cong: conj_left_cong)
  show "s = vlm_stop_reason_str_name a" if "vlm_stop_reason_from_str_name s = Some a" for s a
    using map_of_SomeD [OF that [unfolded vlm_stop_reason_from_str_name_def]] by auto
qed

datatype generation_truncation =
  GenerationTruncationUnspecified | GenerationTruncationRepetition

fun generation_truncation_number :: "generation_truncation \<Rightarrow> int" where
  "generation_truncation_number GenerationTruncationUnspecified = 0"
| "generation_truncation_number GenerationTruncationRepetition = 1"

fun generation_truncation_str_name :: "generation_truncation \<Rightarrow> string" where
  "generation_truncation_str_name GenerationTruncationUnspecified = ''GENERATION_TRUNCATION_UNSPECIFIED''"
| "generation_truncation_str_name GenerationTruncationRepetition = ''GENERATION_TRUNCATION_REPETITION''"

definition generation_truncation_from_str_name :: "string \<Rightarrow> generation_truncation option" where
  "generation_truncation_from_str_name = map_of [
     (''GENERATION_TRUNCATION_UNSPECIFIED'', GenerationTruncationUnspecified),
     (''GENERATION_TRUNCATION_REPETITION'', GenerationTruncationRepetition)]"

interpretation generation_truncation_names: wire_enum UNIV generation_truncation_number generation_truncation_str_name generation_truncation_from_str_name
proof (rule wire_enum_arms)
  show "a = b" if "generation_truncation_number a = generation_truncation_number b" for a b
    using that by (cases a; cases b) simp_all
  show "generation_truncation_from_str_name (generation_truncation_str_name a) = Some a" for a
    by (cases a) (simp_all only: generation_truncation_from_str_name_def generation_truncation_str_name.simps literals_apart cong: conj_left_cong)
  show "s = generation_truncation_str_name a" if "generation_truncation_from_str_name s = Some a" for s a
    using map_of_SomeD [OF that [unfolded generation_truncation_from_str_name_def]] by auto
qed

datatype generation_intervention =
  GenerationInterventionUnspecified | GenerationInterventionNone |
  GenerationInterventionRepeatBan | GenerationInterventionPageGuard

fun generation_intervention_number :: "generation_intervention \<Rightarrow> int" where
  "generation_intervention_number GenerationInterventionUnspecified = 0"
| "generation_intervention_number GenerationInterventionNone = 1"
| "generation_intervention_number GenerationInterventionRepeatBan = 2"
| "generation_intervention_number GenerationInterventionPageGuard = 3"

fun generation_intervention_str_name :: "generation_intervention \<Rightarrow> string" where
  "generation_intervention_str_name GenerationInterventionUnspecified = ''GENERATION_INTERVENTION_UNSPECIFIED''"
| "generation_intervention_str_name GenerationInterventionNone = ''GENERATION_INTERVENTION_NONE''"
| "generation_intervention_str_name GenerationInterventionRepeatBan = ''GENERATION_INTERVENTION_REPEAT_BAN''"
| "generation_intervention_str_name GenerationInterventionPageGuard = ''GENERATION_INTERVENTION_PAGE_GUARD''"

definition generation_intervention_from_str_name :: "string \<Rightarrow> generation_intervention option" where
  "generation_intervention_from_str_name = map_of [
     (''GENERATION_INTERVENTION_UNSPECIFIED'', GenerationInterventionUnspecified),
     (''GENERATION_INTERVENTION_NONE'', GenerationInterventionNone),
     (''GENERATION_INTERVENTION_REPEAT_BAN'', GenerationInterventionRepeatBan),
     (''GENERATION_INTERVENTION_PAGE_GUARD'', GenerationInterventionPageGuard)]"

interpretation generation_intervention_names: wire_enum UNIV generation_intervention_number generation_intervention_str_name generation_intervention_from_str_name
proof (rule wire_enum_arms)
  show "a = b" if "generation_intervention_number a = generation_intervention_number b" for a b
    using that by (cases a; cases b) simp_all
  show "generation_intervention_from_str_name (generation_intervention_str_name a) = Some a" for a
    by (cases a) (simp_all only: generation_intervention_from_str_name_def generation_intervention_str_name.simps literals_apart cong: conj_left_cong)
  show "s = generation_intervention_str_name a" if "generation_intervention_from_str_name s = Some a" for s a
    using map_of_SomeD [OF that [unfolded generation_intervention_from_str_name_def]] by auto
qed

datatype trapped =
  TrappedUnspecified | TrappedTrue | TrappedFalse | TrappedUnknown

fun trapped_number :: "trapped \<Rightarrow> int" where
  "trapped_number TrappedUnspecified = 0"
| "trapped_number TrappedTrue = 1"
| "trapped_number TrappedFalse = 2"
| "trapped_number TrappedUnknown = 3"

fun trapped_str_name :: "trapped \<Rightarrow> string" where
  "trapped_str_name TrappedUnspecified = ''TRAPPED_UNSPECIFIED''"
| "trapped_str_name TrappedTrue = ''TRAPPED_TRUE''"
| "trapped_str_name TrappedFalse = ''TRAPPED_FALSE''"
| "trapped_str_name TrappedUnknown = ''TRAPPED_UNKNOWN''"

definition trapped_from_str_name :: "string \<Rightarrow> trapped option" where
  "trapped_from_str_name = map_of [
     (''TRAPPED_UNSPECIFIED'', TrappedUnspecified),
     (''TRAPPED_TRUE'', TrappedTrue),
     (''TRAPPED_FALSE'', TrappedFalse),
     (''TRAPPED_UNKNOWN'', TrappedUnknown)]"

interpretation trapped_names: wire_enum UNIV trapped_number trapped_str_name trapped_from_str_name
proof (rule wire_enum_arms)
  show "a = b" if "trapped_number a = trapped_number b" for a b
    using that by (cases a; cases b) simp_all
  show "trapped_from_str_name (trapped_str_name a) = Some a" for a
    by (cases a) (simp_all only: trapped_from_str_name_def trapped_str_name.simps literals_apart cong: conj_left_cong)
  show "s = trapped_str_name a" if "trapped_from_str_name s = Some a" for s a
    using map_of_SomeD [OF that [unfolded trapped_from_str_name_def]] by auto
qed

datatype form_field_kind =
  FormFieldKindUnspecified | FormFieldKindText | FormFieldKindCheckBox |
  FormFieldKindRadioButton | FormFieldKindPushButton | FormFieldKindComboBox |
  FormFieldKindListBox | FormFieldKindSignature

fun form_field_kind_number :: "form_field_kind \<Rightarrow> int" where
  "form_field_kind_number FormFieldKindUnspecified = 0"
| "form_field_kind_number FormFieldKindText = 1"
| "form_field_kind_number FormFieldKindCheckBox = 2"
| "form_field_kind_number FormFieldKindRadioButton = 3"
| "form_field_kind_number FormFieldKindPushButton = 4"
| "form_field_kind_number FormFieldKindComboBox = 5"
| "form_field_kind_number FormFieldKindListBox = 6"
| "form_field_kind_number FormFieldKindSignature = 7"

fun form_field_kind_str_name :: "form_field_kind \<Rightarrow> string" where
  "form_field_kind_str_name FormFieldKindUnspecified = ''FORM_FIELD_KIND_UNSPECIFIED''"
| "form_field_kind_str_name FormFieldKindText = ''FORM_FIELD_KIND_TEXT''"
| "form_field_kind_str_name FormFieldKindCheckBox = ''FORM_FIELD_KIND_CHECK_BOX''"
| "form_field_kind_str_name FormFieldKindRadioButton = ''FORM_FIELD_KIND_RADIO_BUTTON''"
| "form_field_kind_str_name FormFieldKindPushButton = ''FORM_FIELD_KIND_PUSH_BUTTON''"
| "form_field_kind_str_name FormFieldKindComboBox = ''FORM_FIELD_KIND_COMBO_BOX''"
| "form_field_kind_str_name FormFieldKindListBox = ''FORM_FIELD_KIND_LIST_BOX''"
| "form_field_kind_str_name FormFieldKindSignature = ''FORM_FIELD_KIND_SIGNATURE''"

definition form_field_kind_from_str_name :: "string \<Rightarrow> form_field_kind option" where
  "form_field_kind_from_str_name = map_of [
     (''FORM_FIELD_KIND_UNSPECIFIED'', FormFieldKindUnspecified),
     (''FORM_FIELD_KIND_TEXT'', FormFieldKindText),
     (''FORM_FIELD_KIND_CHECK_BOX'', FormFieldKindCheckBox),
     (''FORM_FIELD_KIND_RADIO_BUTTON'', FormFieldKindRadioButton),
     (''FORM_FIELD_KIND_PUSH_BUTTON'', FormFieldKindPushButton),
     (''FORM_FIELD_KIND_COMBO_BOX'', FormFieldKindComboBox),
     (''FORM_FIELD_KIND_LIST_BOX'', FormFieldKindListBox),
     (''FORM_FIELD_KIND_SIGNATURE'', FormFieldKindSignature)]"

interpretation form_field_kind_names: wire_enum UNIV form_field_kind_number form_field_kind_str_name form_field_kind_from_str_name
proof (rule wire_enum_arms)
  show "a = b" if "form_field_kind_number a = form_field_kind_number b" for a b
    using that by (cases a; cases b) simp_all
  show "form_field_kind_from_str_name (form_field_kind_str_name a) = Some a" for a
    by (cases a) (simp_all only: form_field_kind_from_str_name_def form_field_kind_str_name.simps literals_apart cong: conj_left_cong)
  show "s = form_field_kind_str_name a" if "form_field_kind_from_str_name s = Some a" for s a
    using map_of_SomeD [OF that [unfolded form_field_kind_from_str_name_def]] by auto
qed

end
