(* ===== verification/NlpEnums.thy ===== *)
theory NlpEnums imports WireEnum begin

text \<open>
  \<open>src/gen/org/apache/opennlp/grpc/v1/\<close>, the enumerations of the OpenNLP schema: the variants with
  their numbers on the wire, \<open>as_str_name\<close> and \<open>from_str_name\<close>.  Each of the two functions is
  the list of arms it has in the code.  The variants of \<open>WordNetRelation\<close> are their numbers.
\<close>

datatype nlp_stemmer_algorithm =
  NlpStemmerAlgorithmUnspecified | NlpStemmerAlgorithmSnowball |
  NlpStemmerAlgorithmPorter | NlpStemmerAlgorithmLight | NlpStemmerAlgorithmMinimal |
  NlpStemmerAlgorithmHunspell

fun nlp_stemmer_algorithm_number :: "nlp_stemmer_algorithm \<Rightarrow> int" where
  "nlp_stemmer_algorithm_number NlpStemmerAlgorithmUnspecified = 0"
| "nlp_stemmer_algorithm_number NlpStemmerAlgorithmSnowball = 1"
| "nlp_stemmer_algorithm_number NlpStemmerAlgorithmPorter = 2"
| "nlp_stemmer_algorithm_number NlpStemmerAlgorithmLight = 3"
| "nlp_stemmer_algorithm_number NlpStemmerAlgorithmMinimal = 4"
| "nlp_stemmer_algorithm_number NlpStemmerAlgorithmHunspell = 5"

fun nlp_stemmer_algorithm_str_name :: "nlp_stemmer_algorithm \<Rightarrow> string" where
  "nlp_stemmer_algorithm_str_name NlpStemmerAlgorithmUnspecified = ''STEMMER_ALGORITHM_UNSPECIFIED''"
| "nlp_stemmer_algorithm_str_name NlpStemmerAlgorithmSnowball = ''STEMMER_ALGORITHM_SNOWBALL''"
| "nlp_stemmer_algorithm_str_name NlpStemmerAlgorithmPorter = ''STEMMER_ALGORITHM_PORTER''"
| "nlp_stemmer_algorithm_str_name NlpStemmerAlgorithmLight = ''STEMMER_ALGORITHM_LIGHT''"
| "nlp_stemmer_algorithm_str_name NlpStemmerAlgorithmMinimal = ''STEMMER_ALGORITHM_MINIMAL''"
| "nlp_stemmer_algorithm_str_name NlpStemmerAlgorithmHunspell = ''STEMMER_ALGORITHM_HUNSPELL''"

definition nlp_stemmer_algorithm_from_str_name :: "string \<Rightarrow> nlp_stemmer_algorithm option" where
  "nlp_stemmer_algorithm_from_str_name = map_of [
     (''STEMMER_ALGORITHM_UNSPECIFIED'', NlpStemmerAlgorithmUnspecified),
     (''STEMMER_ALGORITHM_SNOWBALL'', NlpStemmerAlgorithmSnowball),
     (''STEMMER_ALGORITHM_PORTER'', NlpStemmerAlgorithmPorter),
     (''STEMMER_ALGORITHM_LIGHT'', NlpStemmerAlgorithmLight),
     (''STEMMER_ALGORITHM_MINIMAL'', NlpStemmerAlgorithmMinimal),
     (''STEMMER_ALGORITHM_HUNSPELL'', NlpStemmerAlgorithmHunspell)]"

interpretation nlp_stemmer_algorithm_names: wire_enum UNIV nlp_stemmer_algorithm_number nlp_stemmer_algorithm_str_name nlp_stemmer_algorithm_from_str_name
proof (rule wire_enum_arms)
  show "a = b" if "nlp_stemmer_algorithm_number a = nlp_stemmer_algorithm_number b" for a b
    using that by (cases a; cases b) simp_all
  show "nlp_stemmer_algorithm_from_str_name (nlp_stemmer_algorithm_str_name a) = Some a" for a
    by (cases a) (simp_all only: nlp_stemmer_algorithm_from_str_name_def nlp_stemmer_algorithm_str_name.simps literals_apart cong: conj_left_cong)
  show "s = nlp_stemmer_algorithm_str_name a" if "nlp_stemmer_algorithm_from_str_name s = Some a" for s a
    using map_of_SomeD [OF that [unfolded nlp_stemmer_algorithm_from_str_name_def]] by auto
qed

datatype nlp_coordinate_space =
  NlpCoordinateSpaceUnspecified | NlpCoordinateSpaceCharDocument |
  NlpCoordinateSpaceTokenSentence

fun nlp_coordinate_space_number :: "nlp_coordinate_space \<Rightarrow> int" where
  "nlp_coordinate_space_number NlpCoordinateSpaceUnspecified = 0"
| "nlp_coordinate_space_number NlpCoordinateSpaceCharDocument = 1"
| "nlp_coordinate_space_number NlpCoordinateSpaceTokenSentence = 2"

fun nlp_coordinate_space_str_name :: "nlp_coordinate_space \<Rightarrow> string" where
  "nlp_coordinate_space_str_name NlpCoordinateSpaceUnspecified = ''COORDINATE_SPACE_UNSPECIFIED''"
| "nlp_coordinate_space_str_name NlpCoordinateSpaceCharDocument = ''COORDINATE_SPACE_CHAR_DOCUMENT''"
| "nlp_coordinate_space_str_name NlpCoordinateSpaceTokenSentence = ''COORDINATE_SPACE_TOKEN_SENTENCE''"

definition nlp_coordinate_space_from_str_name :: "string \<Rightarrow> nlp_coordinate_space option" where
  "nlp_coordinate_space_from_str_name = map_of [
     (''COORDINATE_SPACE_UNSPECIFIED'', NlpCoordinateSpaceUnspecified),
     (''COORDINATE_SPACE_CHAR_DOCUMENT'', NlpCoordinateSpaceCharDocument),
     (''COORDINATE_SPACE_TOKEN_SENTENCE'', NlpCoordinateSpaceTokenSentence)]"

interpretation nlp_coordinate_space_names: wire_enum UNIV nlp_coordinate_space_number nlp_coordinate_space_str_name nlp_coordinate_space_from_str_name
proof (rule wire_enum_arms)
  show "a = b" if "nlp_coordinate_space_number a = nlp_coordinate_space_number b" for a b
    using that by (cases a; cases b) simp_all
  show "nlp_coordinate_space_from_str_name (nlp_coordinate_space_str_name a) = Some a" for a
    by (cases a) (simp_all only: nlp_coordinate_space_from_str_name_def nlp_coordinate_space_str_name.simps literals_apart cong: conj_left_cong)
  show "s = nlp_coordinate_space_str_name a" if "nlp_coordinate_space_from_str_name s = Some a" for s a
    using map_of_SomeD [OF that [unfolded nlp_coordinate_space_from_str_name_def]] by auto
qed

datatype nlp_offset_encoding =
  NlpOffsetEncodingUnspecified | NlpOffsetEncodingUtf8Byte |
  NlpOffsetEncodingUtf16CodeUnit | NlpOffsetEncodingUnicodeCodePoint

fun nlp_offset_encoding_number :: "nlp_offset_encoding \<Rightarrow> int" where
  "nlp_offset_encoding_number NlpOffsetEncodingUnspecified = 0"
| "nlp_offset_encoding_number NlpOffsetEncodingUtf8Byte = 1"
| "nlp_offset_encoding_number NlpOffsetEncodingUtf16CodeUnit = 2"
| "nlp_offset_encoding_number NlpOffsetEncodingUnicodeCodePoint = 3"

fun nlp_offset_encoding_str_name :: "nlp_offset_encoding \<Rightarrow> string" where
  "nlp_offset_encoding_str_name NlpOffsetEncodingUnspecified = ''OFFSET_ENCODING_UNSPECIFIED''"
| "nlp_offset_encoding_str_name NlpOffsetEncodingUtf8Byte = ''OFFSET_ENCODING_UTF8_BYTE''"
| "nlp_offset_encoding_str_name NlpOffsetEncodingUtf16CodeUnit = ''OFFSET_ENCODING_UTF16_CODE_UNIT''"
| "nlp_offset_encoding_str_name NlpOffsetEncodingUnicodeCodePoint = ''OFFSET_ENCODING_UNICODE_CODE_POINT''"

definition nlp_offset_encoding_from_str_name :: "string \<Rightarrow> nlp_offset_encoding option" where
  "nlp_offset_encoding_from_str_name = map_of [
     (''OFFSET_ENCODING_UNSPECIFIED'', NlpOffsetEncodingUnspecified),
     (''OFFSET_ENCODING_UTF8_BYTE'', NlpOffsetEncodingUtf8Byte),
     (''OFFSET_ENCODING_UTF16_CODE_UNIT'', NlpOffsetEncodingUtf16CodeUnit),
     (''OFFSET_ENCODING_UNICODE_CODE_POINT'', NlpOffsetEncodingUnicodeCodePoint)]"

interpretation nlp_offset_encoding_names: wire_enum UNIV nlp_offset_encoding_number nlp_offset_encoding_str_name nlp_offset_encoding_from_str_name
proof (rule wire_enum_arms)
  show "a = b" if "nlp_offset_encoding_number a = nlp_offset_encoding_number b" for a b
    using that by (cases a; cases b) simp_all
  show "nlp_offset_encoding_from_str_name (nlp_offset_encoding_str_name a) = Some a" for a
    by (cases a) (simp_all only: nlp_offset_encoding_from_str_name_def nlp_offset_encoding_str_name.simps literals_apart cong: conj_left_cong)
  show "s = nlp_offset_encoding_str_name a" if "nlp_offset_encoding_from_str_name s = Some a" for s a
    using map_of_SomeD [OF that [unfolded nlp_offset_encoding_from_str_name_def]] by auto
qed

datatype nlp_standard_chunking_strategy =
  NlpStandardChunkingStrategyUnspecified | NlpStandardChunkingStrategySentence |
  NlpStandardChunkingStrategyToken | NlpStandardChunkingStrategySemantic |
  NlpStandardChunkingStrategyCategory

fun nlp_standard_chunking_strategy_number :: "nlp_standard_chunking_strategy \<Rightarrow> int" where
  "nlp_standard_chunking_strategy_number NlpStandardChunkingStrategyUnspecified = 0"
| "nlp_standard_chunking_strategy_number NlpStandardChunkingStrategySentence = 1"
| "nlp_standard_chunking_strategy_number NlpStandardChunkingStrategyToken = 2"
| "nlp_standard_chunking_strategy_number NlpStandardChunkingStrategySemantic = 3"
| "nlp_standard_chunking_strategy_number NlpStandardChunkingStrategyCategory = 4"

fun nlp_standard_chunking_strategy_str_name :: "nlp_standard_chunking_strategy \<Rightarrow> string" where
  "nlp_standard_chunking_strategy_str_name NlpStandardChunkingStrategyUnspecified = ''STANDARD_CHUNKING_STRATEGY_UNSPECIFIED''"
| "nlp_standard_chunking_strategy_str_name NlpStandardChunkingStrategySentence = ''STANDARD_CHUNKING_STRATEGY_SENTENCE''"
| "nlp_standard_chunking_strategy_str_name NlpStandardChunkingStrategyToken = ''STANDARD_CHUNKING_STRATEGY_TOKEN''"
| "nlp_standard_chunking_strategy_str_name NlpStandardChunkingStrategySemantic = ''STANDARD_CHUNKING_STRATEGY_SEMANTIC''"
| "nlp_standard_chunking_strategy_str_name NlpStandardChunkingStrategyCategory = ''STANDARD_CHUNKING_STRATEGY_CATEGORY''"

definition nlp_standard_chunking_strategy_from_str_name :: "string \<Rightarrow> nlp_standard_chunking_strategy option" where
  "nlp_standard_chunking_strategy_from_str_name = map_of [
     (''STANDARD_CHUNKING_STRATEGY_UNSPECIFIED'', NlpStandardChunkingStrategyUnspecified),
     (''STANDARD_CHUNKING_STRATEGY_SENTENCE'', NlpStandardChunkingStrategySentence),
     (''STANDARD_CHUNKING_STRATEGY_TOKEN'', NlpStandardChunkingStrategyToken),
     (''STANDARD_CHUNKING_STRATEGY_SEMANTIC'', NlpStandardChunkingStrategySemantic),
     (''STANDARD_CHUNKING_STRATEGY_CATEGORY'', NlpStandardChunkingStrategyCategory)]"

interpretation nlp_standard_chunking_strategy_names: wire_enum UNIV nlp_standard_chunking_strategy_number nlp_standard_chunking_strategy_str_name nlp_standard_chunking_strategy_from_str_name
proof (rule wire_enum_arms)
  show "a = b" if "nlp_standard_chunking_strategy_number a = nlp_standard_chunking_strategy_number b" for a b
    using that by (cases a; cases b) simp_all
  show "nlp_standard_chunking_strategy_from_str_name (nlp_standard_chunking_strategy_str_name a) = Some a" for a
    by (cases a) (simp_all only: nlp_standard_chunking_strategy_from_str_name_def nlp_standard_chunking_strategy_str_name.simps literals_apart cong: conj_left_cong)
  show "s = nlp_standard_chunking_strategy_str_name a" if "nlp_standard_chunking_strategy_from_str_name s = Some a" for s a
    using map_of_SomeD [OF that [unfolded nlp_standard_chunking_strategy_from_str_name_def]] by auto
qed

datatype nlp_parse_node_kind =
  NlpParseNodeKindUnspecified | NlpParseNodeKindNonterminal | NlpParseNodeKindTerminal

fun nlp_parse_node_kind_number :: "nlp_parse_node_kind \<Rightarrow> int" where
  "nlp_parse_node_kind_number NlpParseNodeKindUnspecified = 0"
| "nlp_parse_node_kind_number NlpParseNodeKindNonterminal = 1"
| "nlp_parse_node_kind_number NlpParseNodeKindTerminal = 2"

fun nlp_parse_node_kind_str_name :: "nlp_parse_node_kind \<Rightarrow> string" where
  "nlp_parse_node_kind_str_name NlpParseNodeKindUnspecified = ''PARSE_NODE_KIND_UNSPECIFIED''"
| "nlp_parse_node_kind_str_name NlpParseNodeKindNonterminal = ''PARSE_NODE_KIND_NONTERMINAL''"
| "nlp_parse_node_kind_str_name NlpParseNodeKindTerminal = ''PARSE_NODE_KIND_TERMINAL''"

definition nlp_parse_node_kind_from_str_name :: "string \<Rightarrow> nlp_parse_node_kind option" where
  "nlp_parse_node_kind_from_str_name = map_of [
     (''PARSE_NODE_KIND_UNSPECIFIED'', NlpParseNodeKindUnspecified),
     (''PARSE_NODE_KIND_NONTERMINAL'', NlpParseNodeKindNonterminal),
     (''PARSE_NODE_KIND_TERMINAL'', NlpParseNodeKindTerminal)]"

interpretation nlp_parse_node_kind_names: wire_enum UNIV nlp_parse_node_kind_number nlp_parse_node_kind_str_name nlp_parse_node_kind_from_str_name
proof (rule wire_enum_arms)
  show "a = b" if "nlp_parse_node_kind_number a = nlp_parse_node_kind_number b" for a b
    using that by (cases a; cases b) simp_all
  show "nlp_parse_node_kind_from_str_name (nlp_parse_node_kind_str_name a) = Some a" for a
    by (cases a) (simp_all only: nlp_parse_node_kind_from_str_name_def nlp_parse_node_kind_str_name.simps literals_apart cong: conj_left_cong)
  show "s = nlp_parse_node_kind_str_name a" if "nlp_parse_node_kind_from_str_name s = Some a" for s a
    using map_of_SomeD [OF that [unfolded nlp_parse_node_kind_from_str_name_def]] by auto
qed

datatype nlp_standard_embedding_backend =
  NlpStandardEmbeddingBackendUnspecified | NlpStandardEmbeddingBackendOnnx |
  NlpStandardEmbeddingBackendCuda | NlpStandardEmbeddingBackendStatic |
  NlpStandardEmbeddingBackendTei | NlpStandardEmbeddingBackendOpenvino

fun nlp_standard_embedding_backend_number :: "nlp_standard_embedding_backend \<Rightarrow> int" where
  "nlp_standard_embedding_backend_number NlpStandardEmbeddingBackendUnspecified = 0"
| "nlp_standard_embedding_backend_number NlpStandardEmbeddingBackendOnnx = 1"
| "nlp_standard_embedding_backend_number NlpStandardEmbeddingBackendCuda = 2"
| "nlp_standard_embedding_backend_number NlpStandardEmbeddingBackendStatic = 3"
| "nlp_standard_embedding_backend_number NlpStandardEmbeddingBackendTei = 4"
| "nlp_standard_embedding_backend_number NlpStandardEmbeddingBackendOpenvino = 5"

fun nlp_standard_embedding_backend_str_name :: "nlp_standard_embedding_backend \<Rightarrow> string" where
  "nlp_standard_embedding_backend_str_name NlpStandardEmbeddingBackendUnspecified = ''STANDARD_EMBEDDING_BACKEND_UNSPECIFIED''"
| "nlp_standard_embedding_backend_str_name NlpStandardEmbeddingBackendOnnx = ''STANDARD_EMBEDDING_BACKEND_ONNX''"
| "nlp_standard_embedding_backend_str_name NlpStandardEmbeddingBackendCuda = ''STANDARD_EMBEDDING_BACKEND_CUDA''"
| "nlp_standard_embedding_backend_str_name NlpStandardEmbeddingBackendStatic = ''STANDARD_EMBEDDING_BACKEND_STATIC''"
| "nlp_standard_embedding_backend_str_name NlpStandardEmbeddingBackendTei = ''STANDARD_EMBEDDING_BACKEND_TEI''"
| "nlp_standard_embedding_backend_str_name NlpStandardEmbeddingBackendOpenvino = ''STANDARD_EMBEDDING_BACKEND_OPENVINO''"

definition nlp_standard_embedding_backend_from_str_name :: "string \<Rightarrow> nlp_standard_embedding_backend option" where
  "nlp_standard_embedding_backend_from_str_name = map_of [
     (''STANDARD_EMBEDDING_BACKEND_UNSPECIFIED'', NlpStandardEmbeddingBackendUnspecified),
     (''STANDARD_EMBEDDING_BACKEND_ONNX'', NlpStandardEmbeddingBackendOnnx),
     (''STANDARD_EMBEDDING_BACKEND_CUDA'', NlpStandardEmbeddingBackendCuda),
     (''STANDARD_EMBEDDING_BACKEND_STATIC'', NlpStandardEmbeddingBackendStatic),
     (''STANDARD_EMBEDDING_BACKEND_TEI'', NlpStandardEmbeddingBackendTei),
     (''STANDARD_EMBEDDING_BACKEND_OPENVINO'', NlpStandardEmbeddingBackendOpenvino)]"

interpretation nlp_standard_embedding_backend_names: wire_enum UNIV nlp_standard_embedding_backend_number nlp_standard_embedding_backend_str_name nlp_standard_embedding_backend_from_str_name
proof (rule wire_enum_arms)
  show "a = b" if "nlp_standard_embedding_backend_number a = nlp_standard_embedding_backend_number b" for a b
    using that by (cases a; cases b) simp_all
  show "nlp_standard_embedding_backend_from_str_name (nlp_standard_embedding_backend_str_name a) = Some a" for a
    by (cases a) (simp_all only: nlp_standard_embedding_backend_from_str_name_def nlp_standard_embedding_backend_str_name.simps literals_apart cong: conj_left_cong)
  show "s = nlp_standard_embedding_backend_str_name a" if "nlp_standard_embedding_backend_from_str_name s = Some a" for s a
    using map_of_SomeD [OF that [unfolded nlp_standard_embedding_backend_from_str_name_def]] by auto
qed

datatype nlp_vector_normalization =
  NlpVectorNormalizationUnspecified | NlpVectorNormalizationNone | NlpVectorNormalizationL2

fun nlp_vector_normalization_number :: "nlp_vector_normalization \<Rightarrow> int" where
  "nlp_vector_normalization_number NlpVectorNormalizationUnspecified = 0"
| "nlp_vector_normalization_number NlpVectorNormalizationNone = 1"
| "nlp_vector_normalization_number NlpVectorNormalizationL2 = 2"

fun nlp_vector_normalization_str_name :: "nlp_vector_normalization \<Rightarrow> string" where
  "nlp_vector_normalization_str_name NlpVectorNormalizationUnspecified = ''VECTOR_NORMALIZATION_UNSPECIFIED''"
| "nlp_vector_normalization_str_name NlpVectorNormalizationNone = ''VECTOR_NORMALIZATION_NONE''"
| "nlp_vector_normalization_str_name NlpVectorNormalizationL2 = ''VECTOR_NORMALIZATION_L2''"

definition nlp_vector_normalization_from_str_name :: "string \<Rightarrow> nlp_vector_normalization option" where
  "nlp_vector_normalization_from_str_name = map_of [
     (''VECTOR_NORMALIZATION_UNSPECIFIED'', NlpVectorNormalizationUnspecified),
     (''VECTOR_NORMALIZATION_NONE'', NlpVectorNormalizationNone),
     (''VECTOR_NORMALIZATION_L2'', NlpVectorNormalizationL2)]"

interpretation nlp_vector_normalization_names: wire_enum UNIV nlp_vector_normalization_number nlp_vector_normalization_str_name nlp_vector_normalization_from_str_name
proof (rule wire_enum_arms)
  show "a = b" if "nlp_vector_normalization_number a = nlp_vector_normalization_number b" for a b
    using that by (cases a; cases b) simp_all
  show "nlp_vector_normalization_from_str_name (nlp_vector_normalization_str_name a) = Some a" for a
    by (cases a) (simp_all only: nlp_vector_normalization_from_str_name_def nlp_vector_normalization_str_name.simps literals_apart cong: conj_left_cong)
  show "s = nlp_vector_normalization_str_name a" if "nlp_vector_normalization_from_str_name s = Some a" for s a
    using map_of_SomeD [OF that [unfolded nlp_vector_normalization_from_str_name_def]] by auto
qed

datatype nlp_embedding_granularity =
  NlpEmbeddingGranularityUnspecified | NlpEmbeddingGranularityDocument |
  NlpEmbeddingGranularitySentence | NlpEmbeddingGranularityChunkLevel |
  NlpEmbeddingGranularityGroupCentroid

fun nlp_embedding_granularity_number :: "nlp_embedding_granularity \<Rightarrow> int" where
  "nlp_embedding_granularity_number NlpEmbeddingGranularityUnspecified = 0"
| "nlp_embedding_granularity_number NlpEmbeddingGranularityDocument = 1"
| "nlp_embedding_granularity_number NlpEmbeddingGranularitySentence = 2"
| "nlp_embedding_granularity_number NlpEmbeddingGranularityChunkLevel = 3"
| "nlp_embedding_granularity_number NlpEmbeddingGranularityGroupCentroid = 11"

fun nlp_embedding_granularity_str_name :: "nlp_embedding_granularity \<Rightarrow> string" where
  "nlp_embedding_granularity_str_name NlpEmbeddingGranularityUnspecified = ''EMBEDDING_GRANULARITY_UNSPECIFIED''"
| "nlp_embedding_granularity_str_name NlpEmbeddingGranularityDocument = ''EMBEDDING_GRANULARITY_DOCUMENT''"
| "nlp_embedding_granularity_str_name NlpEmbeddingGranularitySentence = ''EMBEDDING_GRANULARITY_SENTENCE''"
| "nlp_embedding_granularity_str_name NlpEmbeddingGranularityChunkLevel = ''EMBEDDING_GRANULARITY_CHUNK_LEVEL''"
| "nlp_embedding_granularity_str_name NlpEmbeddingGranularityGroupCentroid = ''EMBEDDING_GRANULARITY_GROUP_CENTROID''"

definition nlp_embedding_granularity_from_str_name :: "string \<Rightarrow> nlp_embedding_granularity option" where
  "nlp_embedding_granularity_from_str_name = map_of [
     (''EMBEDDING_GRANULARITY_UNSPECIFIED'', NlpEmbeddingGranularityUnspecified),
     (''EMBEDDING_GRANULARITY_DOCUMENT'', NlpEmbeddingGranularityDocument),
     (''EMBEDDING_GRANULARITY_SENTENCE'', NlpEmbeddingGranularitySentence),
     (''EMBEDDING_GRANULARITY_CHUNK_LEVEL'', NlpEmbeddingGranularityChunkLevel),
     (''EMBEDDING_GRANULARITY_GROUP_CENTROID'', NlpEmbeddingGranularityGroupCentroid)]"

interpretation nlp_embedding_granularity_names: wire_enum UNIV nlp_embedding_granularity_number nlp_embedding_granularity_str_name nlp_embedding_granularity_from_str_name
proof (rule wire_enum_arms)
  show "a = b" if "nlp_embedding_granularity_number a = nlp_embedding_granularity_number b" for a b
    using that by (cases a; cases b) simp_all
  show "nlp_embedding_granularity_from_str_name (nlp_embedding_granularity_str_name a) = Some a" for a
    by (cases a) (simp_all only: nlp_embedding_granularity_from_str_name_def nlp_embedding_granularity_str_name.simps literals_apart cong: conj_left_cong)
  show "s = nlp_embedding_granularity_str_name a" if "nlp_embedding_granularity_from_str_name s = Some a" for s a
    using map_of_SomeD [OF that [unfolded nlp_embedding_granularity_from_str_name_def]] by auto
qed

datatype nlp_standard_layer =
  NlpStandardLayerUnspecified | NlpStandardLayerSentences | NlpStandardLayerTokens |
  NlpStandardLayerPosTags | NlpStandardLayerLemmas | NlpStandardLayerEntities |
  NlpStandardLayerSyntacticChunks | NlpStandardLayerParses | NlpStandardLayerSentiment |
  NlpStandardLayerLanguage | NlpStandardLayerCategories | NlpStandardLayerEmbeddings |
  NlpStandardLayerWordTypes | NlpStandardLayerStopwords | NlpStandardLayerTerms |
  NlpStandardLayerSubwords | NlpStandardLayerStems | NlpStandardLayerExpansions |
  NlpStandardLayerGeo | NlpStandardLayerNormalization | NlpStandardLayerAnalytics |
  NlpStandardLayerChunkGroups | NlpStandardLayerTermVectors |
  NlpStandardLayerDependencies | NlpStandardLayerRelations

fun nlp_standard_layer_number :: "nlp_standard_layer \<Rightarrow> int" where
  "nlp_standard_layer_number NlpStandardLayerUnspecified = 0"
| "nlp_standard_layer_number NlpStandardLayerSentences = 1"
| "nlp_standard_layer_number NlpStandardLayerTokens = 2"
| "nlp_standard_layer_number NlpStandardLayerPosTags = 3"
| "nlp_standard_layer_number NlpStandardLayerLemmas = 4"
| "nlp_standard_layer_number NlpStandardLayerEntities = 5"
| "nlp_standard_layer_number NlpStandardLayerSyntacticChunks = 6"
| "nlp_standard_layer_number NlpStandardLayerParses = 7"
| "nlp_standard_layer_number NlpStandardLayerSentiment = 8"
| "nlp_standard_layer_number NlpStandardLayerLanguage = 9"
| "nlp_standard_layer_number NlpStandardLayerCategories = 10"
| "nlp_standard_layer_number NlpStandardLayerEmbeddings = 11"
| "nlp_standard_layer_number NlpStandardLayerWordTypes = 12"
| "nlp_standard_layer_number NlpStandardLayerStopwords = 13"
| "nlp_standard_layer_number NlpStandardLayerTerms = 14"
| "nlp_standard_layer_number NlpStandardLayerSubwords = 15"
| "nlp_standard_layer_number NlpStandardLayerStems = 16"
| "nlp_standard_layer_number NlpStandardLayerExpansions = 17"
| "nlp_standard_layer_number NlpStandardLayerGeo = 18"
| "nlp_standard_layer_number NlpStandardLayerNormalization = 19"
| "nlp_standard_layer_number NlpStandardLayerAnalytics = 20"
| "nlp_standard_layer_number NlpStandardLayerChunkGroups = 21"
| "nlp_standard_layer_number NlpStandardLayerTermVectors = 22"
| "nlp_standard_layer_number NlpStandardLayerDependencies = 23"
| "nlp_standard_layer_number NlpStandardLayerRelations = 24"

fun nlp_standard_layer_str_name :: "nlp_standard_layer \<Rightarrow> string" where
  "nlp_standard_layer_str_name NlpStandardLayerUnspecified = ''STANDARD_LAYER_UNSPECIFIED''"
| "nlp_standard_layer_str_name NlpStandardLayerSentences = ''STANDARD_LAYER_SENTENCES''"
| "nlp_standard_layer_str_name NlpStandardLayerTokens = ''STANDARD_LAYER_TOKENS''"
| "nlp_standard_layer_str_name NlpStandardLayerPosTags = ''STANDARD_LAYER_POS_TAGS''"
| "nlp_standard_layer_str_name NlpStandardLayerLemmas = ''STANDARD_LAYER_LEMMAS''"
| "nlp_standard_layer_str_name NlpStandardLayerEntities = ''STANDARD_LAYER_ENTITIES''"
| "nlp_standard_layer_str_name NlpStandardLayerSyntacticChunks = ''STANDARD_LAYER_SYNTACTIC_CHUNKS''"
| "nlp_standard_layer_str_name NlpStandardLayerParses = ''STANDARD_LAYER_PARSES''"
| "nlp_standard_layer_str_name NlpStandardLayerSentiment = ''STANDARD_LAYER_SENTIMENT''"
| "nlp_standard_layer_str_name NlpStandardLayerLanguage = ''STANDARD_LAYER_LANGUAGE''"
| "nlp_standard_layer_str_name NlpStandardLayerCategories = ''STANDARD_LAYER_CATEGORIES''"
| "nlp_standard_layer_str_name NlpStandardLayerEmbeddings = ''STANDARD_LAYER_EMBEDDINGS''"
| "nlp_standard_layer_str_name NlpStandardLayerWordTypes = ''STANDARD_LAYER_WORD_TYPES''"
| "nlp_standard_layer_str_name NlpStandardLayerStopwords = ''STANDARD_LAYER_STOPWORDS''"
| "nlp_standard_layer_str_name NlpStandardLayerTerms = ''STANDARD_LAYER_TERMS''"
| "nlp_standard_layer_str_name NlpStandardLayerSubwords = ''STANDARD_LAYER_SUBWORDS''"
| "nlp_standard_layer_str_name NlpStandardLayerStems = ''STANDARD_LAYER_STEMS''"
| "nlp_standard_layer_str_name NlpStandardLayerExpansions = ''STANDARD_LAYER_EXPANSIONS''"
| "nlp_standard_layer_str_name NlpStandardLayerGeo = ''STANDARD_LAYER_GEO''"
| "nlp_standard_layer_str_name NlpStandardLayerNormalization = ''STANDARD_LAYER_NORMALIZATION''"
| "nlp_standard_layer_str_name NlpStandardLayerAnalytics = ''STANDARD_LAYER_ANALYTICS''"
| "nlp_standard_layer_str_name NlpStandardLayerChunkGroups = ''STANDARD_LAYER_CHUNK_GROUPS''"
| "nlp_standard_layer_str_name NlpStandardLayerTermVectors = ''STANDARD_LAYER_TERM_VECTORS''"
| "nlp_standard_layer_str_name NlpStandardLayerDependencies = ''STANDARD_LAYER_DEPENDENCIES''"
| "nlp_standard_layer_str_name NlpStandardLayerRelations = ''STANDARD_LAYER_RELATIONS''"

definition nlp_standard_layer_from_str_name :: "string \<Rightarrow> nlp_standard_layer option" where
  "nlp_standard_layer_from_str_name = map_of [
     (''STANDARD_LAYER_UNSPECIFIED'', NlpStandardLayerUnspecified),
     (''STANDARD_LAYER_SENTENCES'', NlpStandardLayerSentences),
     (''STANDARD_LAYER_TOKENS'', NlpStandardLayerTokens),
     (''STANDARD_LAYER_POS_TAGS'', NlpStandardLayerPosTags),
     (''STANDARD_LAYER_LEMMAS'', NlpStandardLayerLemmas),
     (''STANDARD_LAYER_ENTITIES'', NlpStandardLayerEntities),
     (''STANDARD_LAYER_SYNTACTIC_CHUNKS'', NlpStandardLayerSyntacticChunks),
     (''STANDARD_LAYER_PARSES'', NlpStandardLayerParses),
     (''STANDARD_LAYER_SENTIMENT'', NlpStandardLayerSentiment),
     (''STANDARD_LAYER_LANGUAGE'', NlpStandardLayerLanguage),
     (''STANDARD_LAYER_CATEGORIES'', NlpStandardLayerCategories),
     (''STANDARD_LAYER_EMBEDDINGS'', NlpStandardLayerEmbeddings),
     (''STANDARD_LAYER_WORD_TYPES'', NlpStandardLayerWordTypes),
     (''STANDARD_LAYER_STOPWORDS'', NlpStandardLayerStopwords),
     (''STANDARD_LAYER_TERMS'', NlpStandardLayerTerms),
     (''STANDARD_LAYER_SUBWORDS'', NlpStandardLayerSubwords),
     (''STANDARD_LAYER_STEMS'', NlpStandardLayerStems),
     (''STANDARD_LAYER_EXPANSIONS'', NlpStandardLayerExpansions),
     (''STANDARD_LAYER_GEO'', NlpStandardLayerGeo),
     (''STANDARD_LAYER_NORMALIZATION'', NlpStandardLayerNormalization),
     (''STANDARD_LAYER_ANALYTICS'', NlpStandardLayerAnalytics),
     (''STANDARD_LAYER_CHUNK_GROUPS'', NlpStandardLayerChunkGroups),
     (''STANDARD_LAYER_TERM_VECTORS'', NlpStandardLayerTermVectors),
     (''STANDARD_LAYER_DEPENDENCIES'', NlpStandardLayerDependencies),
     (''STANDARD_LAYER_RELATIONS'', NlpStandardLayerRelations)]"

interpretation nlp_standard_layer_names: wire_enum UNIV nlp_standard_layer_number nlp_standard_layer_str_name nlp_standard_layer_from_str_name
proof (rule wire_enum_arms)
  show "a = b" if "nlp_standard_layer_number a = nlp_standard_layer_number b" for a b
    using that by (cases a; cases b) simp_all
  show "nlp_standard_layer_from_str_name (nlp_standard_layer_str_name a) = Some a" for a
    by (cases a) (simp_all only: nlp_standard_layer_from_str_name_def nlp_standard_layer_str_name.simps literals_apart cong: conj_left_cong)
  show "s = nlp_standard_layer_str_name a" if "nlp_standard_layer_from_str_name s = Some a" for s a
    using map_of_SomeD [OF that [unfolded nlp_standard_layer_from_str_name_def]] by auto
qed

datatype nlp_term_vector_mode =
  NlpTermVectorModeUnspecified | NlpTermVectorModeFull | NlpTermVectorModeScoringOnly

fun nlp_term_vector_mode_number :: "nlp_term_vector_mode \<Rightarrow> int" where
  "nlp_term_vector_mode_number NlpTermVectorModeUnspecified = 0"
| "nlp_term_vector_mode_number NlpTermVectorModeFull = 1"
| "nlp_term_vector_mode_number NlpTermVectorModeScoringOnly = 2"

fun nlp_term_vector_mode_str_name :: "nlp_term_vector_mode \<Rightarrow> string" where
  "nlp_term_vector_mode_str_name NlpTermVectorModeUnspecified = ''TERM_VECTOR_MODE_UNSPECIFIED''"
| "nlp_term_vector_mode_str_name NlpTermVectorModeFull = ''TERM_VECTOR_MODE_FULL''"
| "nlp_term_vector_mode_str_name NlpTermVectorModeScoringOnly = ''TERM_VECTOR_MODE_SCORING_ONLY''"

definition nlp_term_vector_mode_from_str_name :: "string \<Rightarrow> nlp_term_vector_mode option" where
  "nlp_term_vector_mode_from_str_name = map_of [
     (''TERM_VECTOR_MODE_UNSPECIFIED'', NlpTermVectorModeUnspecified),
     (''TERM_VECTOR_MODE_FULL'', NlpTermVectorModeFull),
     (''TERM_VECTOR_MODE_SCORING_ONLY'', NlpTermVectorModeScoringOnly)]"

interpretation nlp_term_vector_mode_names: wire_enum UNIV nlp_term_vector_mode_number nlp_term_vector_mode_str_name nlp_term_vector_mode_from_str_name
proof (rule wire_enum_arms)
  show "a = b" if "nlp_term_vector_mode_number a = nlp_term_vector_mode_number b" for a b
    using that by (cases a; cases b) simp_all
  show "nlp_term_vector_mode_from_str_name (nlp_term_vector_mode_str_name a) = Some a" for a
    by (cases a) (simp_all only: nlp_term_vector_mode_from_str_name_def nlp_term_vector_mode_str_name.simps literals_apart cong: conj_left_cong)
  show "s = nlp_term_vector_mode_str_name a" if "nlp_term_vector_mode_from_str_name s = Some a" for s a
    using map_of_SomeD [OF that [unfolded nlp_term_vector_mode_from_str_name_def]] by auto
qed

datatype nlp_layer_scope =
  NlpLayerScopeUnspecified | NlpLayerScopePositional | NlpLayerScopeDocument

fun nlp_layer_scope_number :: "nlp_layer_scope \<Rightarrow> int" where
  "nlp_layer_scope_number NlpLayerScopeUnspecified = 0"
| "nlp_layer_scope_number NlpLayerScopePositional = 1"
| "nlp_layer_scope_number NlpLayerScopeDocument = 2"

fun nlp_layer_scope_str_name :: "nlp_layer_scope \<Rightarrow> string" where
  "nlp_layer_scope_str_name NlpLayerScopeUnspecified = ''LAYER_SCOPE_UNSPECIFIED''"
| "nlp_layer_scope_str_name NlpLayerScopePositional = ''LAYER_SCOPE_POSITIONAL''"
| "nlp_layer_scope_str_name NlpLayerScopeDocument = ''LAYER_SCOPE_DOCUMENT''"

definition nlp_layer_scope_from_str_name :: "string \<Rightarrow> nlp_layer_scope option" where
  "nlp_layer_scope_from_str_name = map_of [
     (''LAYER_SCOPE_UNSPECIFIED'', NlpLayerScopeUnspecified),
     (''LAYER_SCOPE_POSITIONAL'', NlpLayerScopePositional),
     (''LAYER_SCOPE_DOCUMENT'', NlpLayerScopeDocument)]"

interpretation nlp_layer_scope_names: wire_enum UNIV nlp_layer_scope_number nlp_layer_scope_str_name nlp_layer_scope_from_str_name
proof (rule wire_enum_arms)
  show "a = b" if "nlp_layer_scope_number a = nlp_layer_scope_number b" for a b
    using that by (cases a; cases b) simp_all
  show "nlp_layer_scope_from_str_name (nlp_layer_scope_str_name a) = Some a" for a
    by (cases a) (simp_all only: nlp_layer_scope_from_str_name_def nlp_layer_scope_str_name.simps literals_apart cong: conj_left_cong)
  show "s = nlp_layer_scope_str_name a" if "nlp_layer_scope_from_str_name s = Some a" for s a
    using map_of_SomeD [OF that [unfolded nlp_layer_scope_from_str_name_def]] by auto
qed

datatype nlp_document_word_type =
  NlpDocumentWordTypeUnspecified | NlpDocumentWordTypeAlphanumeric |
  NlpDocumentWordTypeNumeric | NlpDocumentWordTypeIdeographic |
  NlpDocumentWordTypeHiragana | NlpDocumentWordTypeKatakana | NlpDocumentWordTypeHangul |
  NlpDocumentWordTypeSoutheastAsian | NlpDocumentWordTypeEmoji

fun nlp_document_word_type_number :: "nlp_document_word_type \<Rightarrow> int" where
  "nlp_document_word_type_number NlpDocumentWordTypeUnspecified = 0"
| "nlp_document_word_type_number NlpDocumentWordTypeAlphanumeric = 1"
| "nlp_document_word_type_number NlpDocumentWordTypeNumeric = 2"
| "nlp_document_word_type_number NlpDocumentWordTypeIdeographic = 3"
| "nlp_document_word_type_number NlpDocumentWordTypeHiragana = 4"
| "nlp_document_word_type_number NlpDocumentWordTypeKatakana = 5"
| "nlp_document_word_type_number NlpDocumentWordTypeHangul = 6"
| "nlp_document_word_type_number NlpDocumentWordTypeSoutheastAsian = 7"
| "nlp_document_word_type_number NlpDocumentWordTypeEmoji = 8"

fun nlp_document_word_type_str_name :: "nlp_document_word_type \<Rightarrow> string" where
  "nlp_document_word_type_str_name NlpDocumentWordTypeUnspecified = ''DOCUMENT_WORD_TYPE_UNSPECIFIED''"
| "nlp_document_word_type_str_name NlpDocumentWordTypeAlphanumeric = ''DOCUMENT_WORD_TYPE_ALPHANUMERIC''"
| "nlp_document_word_type_str_name NlpDocumentWordTypeNumeric = ''DOCUMENT_WORD_TYPE_NUMERIC''"
| "nlp_document_word_type_str_name NlpDocumentWordTypeIdeographic = ''DOCUMENT_WORD_TYPE_IDEOGRAPHIC''"
| "nlp_document_word_type_str_name NlpDocumentWordTypeHiragana = ''DOCUMENT_WORD_TYPE_HIRAGANA''"
| "nlp_document_word_type_str_name NlpDocumentWordTypeKatakana = ''DOCUMENT_WORD_TYPE_KATAKANA''"
| "nlp_document_word_type_str_name NlpDocumentWordTypeHangul = ''DOCUMENT_WORD_TYPE_HANGUL''"
| "nlp_document_word_type_str_name NlpDocumentWordTypeSoutheastAsian = ''DOCUMENT_WORD_TYPE_SOUTHEAST_ASIAN''"
| "nlp_document_word_type_str_name NlpDocumentWordTypeEmoji = ''DOCUMENT_WORD_TYPE_EMOJI''"

definition nlp_document_word_type_from_str_name :: "string \<Rightarrow> nlp_document_word_type option" where
  "nlp_document_word_type_from_str_name = map_of [
     (''DOCUMENT_WORD_TYPE_UNSPECIFIED'', NlpDocumentWordTypeUnspecified),
     (''DOCUMENT_WORD_TYPE_ALPHANUMERIC'', NlpDocumentWordTypeAlphanumeric),
     (''DOCUMENT_WORD_TYPE_NUMERIC'', NlpDocumentWordTypeNumeric),
     (''DOCUMENT_WORD_TYPE_IDEOGRAPHIC'', NlpDocumentWordTypeIdeographic),
     (''DOCUMENT_WORD_TYPE_HIRAGANA'', NlpDocumentWordTypeHiragana),
     (''DOCUMENT_WORD_TYPE_KATAKANA'', NlpDocumentWordTypeKatakana),
     (''DOCUMENT_WORD_TYPE_HANGUL'', NlpDocumentWordTypeHangul),
     (''DOCUMENT_WORD_TYPE_SOUTHEAST_ASIAN'', NlpDocumentWordTypeSoutheastAsian),
     (''DOCUMENT_WORD_TYPE_EMOJI'', NlpDocumentWordTypeEmoji)]"

interpretation nlp_document_word_type_names: wire_enum UNIV nlp_document_word_type_number nlp_document_word_type_str_name nlp_document_word_type_from_str_name
proof (rule wire_enum_arms)
  show "a = b" if "nlp_document_word_type_number a = nlp_document_word_type_number b" for a b
    using that by (cases a; cases b) simp_all
  show "nlp_document_word_type_from_str_name (nlp_document_word_type_str_name a) = Some a" for a
    by (cases a) (simp_all only: nlp_document_word_type_from_str_name_def nlp_document_word_type_str_name.simps literals_apart cong: conj_left_cong)
  show "s = nlp_document_word_type_str_name a" if "nlp_document_word_type_from_str_name s = Some a" for s a
    using map_of_SomeD [OF that [unfolded nlp_document_word_type_from_str_name_def]] by auto
qed

datatype nlp_lexical_expansion_kind =
  NlpLexicalExpansionKindUnspecified | NlpLexicalExpansionKindSynonym |
  NlpLexicalExpansionKindHypernym | NlpLexicalExpansionKindHyponym

fun nlp_lexical_expansion_kind_number :: "nlp_lexical_expansion_kind \<Rightarrow> int" where
  "nlp_lexical_expansion_kind_number NlpLexicalExpansionKindUnspecified = 0"
| "nlp_lexical_expansion_kind_number NlpLexicalExpansionKindSynonym = 1"
| "nlp_lexical_expansion_kind_number NlpLexicalExpansionKindHypernym = 2"
| "nlp_lexical_expansion_kind_number NlpLexicalExpansionKindHyponym = 3"

fun nlp_lexical_expansion_kind_str_name :: "nlp_lexical_expansion_kind \<Rightarrow> string" where
  "nlp_lexical_expansion_kind_str_name NlpLexicalExpansionKindUnspecified = ''LEXICAL_EXPANSION_KIND_UNSPECIFIED''"
| "nlp_lexical_expansion_kind_str_name NlpLexicalExpansionKindSynonym = ''LEXICAL_EXPANSION_KIND_SYNONYM''"
| "nlp_lexical_expansion_kind_str_name NlpLexicalExpansionKindHypernym = ''LEXICAL_EXPANSION_KIND_HYPERNYM''"
| "nlp_lexical_expansion_kind_str_name NlpLexicalExpansionKindHyponym = ''LEXICAL_EXPANSION_KIND_HYPONYM''"

definition nlp_lexical_expansion_kind_from_str_name :: "string \<Rightarrow> nlp_lexical_expansion_kind option" where
  "nlp_lexical_expansion_kind_from_str_name = map_of [
     (''LEXICAL_EXPANSION_KIND_UNSPECIFIED'', NlpLexicalExpansionKindUnspecified),
     (''LEXICAL_EXPANSION_KIND_SYNONYM'', NlpLexicalExpansionKindSynonym),
     (''LEXICAL_EXPANSION_KIND_HYPERNYM'', NlpLexicalExpansionKindHypernym),
     (''LEXICAL_EXPANSION_KIND_HYPONYM'', NlpLexicalExpansionKindHyponym)]"

interpretation nlp_lexical_expansion_kind_names: wire_enum UNIV nlp_lexical_expansion_kind_number nlp_lexical_expansion_kind_str_name nlp_lexical_expansion_kind_from_str_name
proof (rule wire_enum_arms)
  show "a = b" if "nlp_lexical_expansion_kind_number a = nlp_lexical_expansion_kind_number b" for a b
    using that by (cases a; cases b) simp_all
  show "nlp_lexical_expansion_kind_from_str_name (nlp_lexical_expansion_kind_str_name a) = Some a" for a
    by (cases a) (simp_all only: nlp_lexical_expansion_kind_from_str_name_def nlp_lexical_expansion_kind_str_name.simps literals_apart cong: conj_left_cong)
  show "s = nlp_lexical_expansion_kind_str_name a" if "nlp_lexical_expansion_kind_from_str_name s = Some a" for s a
    using map_of_SomeD [OF that [unfolded nlp_lexical_expansion_kind_from_str_name_def]] by auto
qed

datatype nlp_coref_mention_kind =
  NlpCorefMentionKindUnspecified | NlpCorefMentionKindEntity | NlpCorefMentionKindNominal |
  NlpCorefMentionKindPronoun | NlpCorefMentionKindGold

fun nlp_coref_mention_kind_number :: "nlp_coref_mention_kind \<Rightarrow> int" where
  "nlp_coref_mention_kind_number NlpCorefMentionKindUnspecified = 0"
| "nlp_coref_mention_kind_number NlpCorefMentionKindEntity = 1"
| "nlp_coref_mention_kind_number NlpCorefMentionKindNominal = 2"
| "nlp_coref_mention_kind_number NlpCorefMentionKindPronoun = 3"
| "nlp_coref_mention_kind_number NlpCorefMentionKindGold = 4"

fun nlp_coref_mention_kind_str_name :: "nlp_coref_mention_kind \<Rightarrow> string" where
  "nlp_coref_mention_kind_str_name NlpCorefMentionKindUnspecified = ''COREF_MENTION_KIND_UNSPECIFIED''"
| "nlp_coref_mention_kind_str_name NlpCorefMentionKindEntity = ''COREF_MENTION_KIND_ENTITY''"
| "nlp_coref_mention_kind_str_name NlpCorefMentionKindNominal = ''COREF_MENTION_KIND_NOMINAL''"
| "nlp_coref_mention_kind_str_name NlpCorefMentionKindPronoun = ''COREF_MENTION_KIND_PRONOUN''"
| "nlp_coref_mention_kind_str_name NlpCorefMentionKindGold = ''COREF_MENTION_KIND_GOLD''"

definition nlp_coref_mention_kind_from_str_name :: "string \<Rightarrow> nlp_coref_mention_kind option" where
  "nlp_coref_mention_kind_from_str_name = map_of [
     (''COREF_MENTION_KIND_UNSPECIFIED'', NlpCorefMentionKindUnspecified),
     (''COREF_MENTION_KIND_ENTITY'', NlpCorefMentionKindEntity),
     (''COREF_MENTION_KIND_NOMINAL'', NlpCorefMentionKindNominal),
     (''COREF_MENTION_KIND_PRONOUN'', NlpCorefMentionKindPronoun),
     (''COREF_MENTION_KIND_GOLD'', NlpCorefMentionKindGold)]"

interpretation nlp_coref_mention_kind_names: wire_enum UNIV nlp_coref_mention_kind_number nlp_coref_mention_kind_str_name nlp_coref_mention_kind_from_str_name
proof (rule wire_enum_arms)
  show "a = b" if "nlp_coref_mention_kind_number a = nlp_coref_mention_kind_number b" for a b
    using that by (cases a; cases b) simp_all
  show "nlp_coref_mention_kind_from_str_name (nlp_coref_mention_kind_str_name a) = Some a" for a
    by (cases a) (simp_all only: nlp_coref_mention_kind_from_str_name_def nlp_coref_mention_kind_str_name.simps literals_apart cong: conj_left_cong)
  show "s = nlp_coref_mention_kind_str_name a" if "nlp_coref_mention_kind_from_str_name s = Some a" for s a
    using map_of_SomeD [OF that [unfolded nlp_coref_mention_kind_from_str_name_def]] by auto
qed

datatype nlp_word_net_pos =
  NlpWordNetPosUnspecified | NlpWordNetPosNoun | NlpWordNetPosVerb | NlpWordNetPosAdjective

fun nlp_word_net_pos_number :: "nlp_word_net_pos \<Rightarrow> int" where
  "nlp_word_net_pos_number NlpWordNetPosUnspecified = 0"
| "nlp_word_net_pos_number NlpWordNetPosNoun = 1"
| "nlp_word_net_pos_number NlpWordNetPosVerb = 2"
| "nlp_word_net_pos_number NlpWordNetPosAdjective = 3"

fun nlp_word_net_pos_str_name :: "nlp_word_net_pos \<Rightarrow> string" where
  "nlp_word_net_pos_str_name NlpWordNetPosUnspecified = ''WORD_NET_POS_UNSPECIFIED''"
| "nlp_word_net_pos_str_name NlpWordNetPosNoun = ''WORD_NET_POS_NOUN''"
| "nlp_word_net_pos_str_name NlpWordNetPosVerb = ''WORD_NET_POS_VERB''"
| "nlp_word_net_pos_str_name NlpWordNetPosAdjective = ''WORD_NET_POS_ADJECTIVE''"

definition nlp_word_net_pos_from_str_name :: "string \<Rightarrow> nlp_word_net_pos option" where
  "nlp_word_net_pos_from_str_name = map_of [
     (''WORD_NET_POS_UNSPECIFIED'', NlpWordNetPosUnspecified),
     (''WORD_NET_POS_NOUN'', NlpWordNetPosNoun),
     (''WORD_NET_POS_VERB'', NlpWordNetPosVerb),
     (''WORD_NET_POS_ADJECTIVE'', NlpWordNetPosAdjective)]"

interpretation nlp_word_net_pos_names: wire_enum UNIV nlp_word_net_pos_number nlp_word_net_pos_str_name nlp_word_net_pos_from_str_name
proof (rule wire_enum_arms)
  show "a = b" if "nlp_word_net_pos_number a = nlp_word_net_pos_number b" for a b
    using that by (cases a; cases b) simp_all
  show "nlp_word_net_pos_from_str_name (nlp_word_net_pos_str_name a) = Some a" for a
    by (cases a) (simp_all only: nlp_word_net_pos_from_str_name_def nlp_word_net_pos_str_name.simps literals_apart cong: conj_left_cong)
  show "s = nlp_word_net_pos_str_name a" if "nlp_word_net_pos_from_str_name s = Some a" for s a
    using map_of_SomeD [OF that [unfolded nlp_word_net_pos_from_str_name_def]] by auto
qed

definition nlp_word_net_relation_tags :: "string list" where
  "nlp_word_net_relation_tags = [
     ''UNSPECIFIED'', ''ANTONYM'', ''HYPERNYM'', ''INSTANCE_HYPERNYM'', ''HYPONYM'',
     ''INSTANCE_HYPONYM'', ''MEMBER_HOLONYM'', ''SUBSTANCE_HOLONYM'', ''PART_HOLONYM'',
     ''MEMBER_MERONYM'', ''SUBSTANCE_MERONYM'', ''PART_MERONYM'', ''ATTRIBUTE'',
     ''DERIVATIONALLY_RELATED'', ''ENTAILMENT'', ''ENTAILED_BY'', ''CAUSE'', ''CAUSED_BY'',
     ''ALSO_SEE'', ''VERB_GROUP'', ''SIMILAR_TO'', ''PARTICIPLE'', ''PERTAINYM'',
     ''DOMAIN_TOPIC'', ''MEMBER_OF_DOMAIN_TOPIC'', ''DOMAIN_REGION'',
     ''MEMBER_OF_DOMAIN_REGION'', ''DOMAIN_USAGE'', ''MEMBER_OF_DOMAIN_USAGE'', ''AGENT'',
     ''BE_IN_STATE'', ''CLASSIFIED_BY'', ''CLASSIFIES'', ''CO_AGENT_INSTRUMENT'',
     ''CO_AGENT_PATIENT'', ''CO_AGENT_RESULT'', ''CO_INSTRUMENT_AGENT'',
     ''CO_INSTRUMENT_PATIENT'', ''CO_INSTRUMENT_RESULT'', ''CO_PATIENT_AGENT'',
     ''CO_PATIENT_INSTRUMENT'', ''CO_RESULT_AGENT'', ''CO_RESULT_INSTRUMENT'', ''CO_ROLE'',
     ''DIRECTION'', ''EQ_SYNONYM'', ''LOCATION_HOLONYM'', ''PORTION_HOLONYM'', ''HOLONYM'',
     ''IN_MANNER'', ''INSTRUMENT'', ''LOCATION'', ''INVOLVED'', ''INVOLVED_AGENT'',
     ''INVOLVED_DIRECTION'', ''INVOLVED_INSTRUMENT'', ''INVOLVED_LOCATION'',
     ''INVOLVED_PATIENT'', ''INVOLVED_RESULT'', ''INVOLVED_SOURCE_DIRECTION'',
     ''INVOLVED_TARGET_DIRECTION'', ''IR_SYNONYM'', ''IS_SUBEVENT_OF'', ''MANNER_OF'',
     ''LOCATION_MERONYM'', ''PORTION_MERONYM'', ''MERONYM'', ''PATIENT'', ''RESTRICTED_BY'',
     ''RESTRICTS'', ''RESULT'', ''ROLE'', ''SOURCE_DIRECTION'', ''STATE_OF'', ''SUBEVENT'',
     ''TARGET_DIRECTION'', ''FEMININE'', ''HAS_FEMININE'', ''MASCULINE'', ''HAS_MASCULINE'',
     ''YOUNG'', ''HAS_YOUNG'', ''DIMINUTIVE'', ''HAS_DIMINUTIVE'', ''AUGMENTATIVE'',
     ''HAS_AUGMENTATIVE'', ''ANTO_GRADABLE'', ''ANTO_SIMPLE'', ''ANTO_CONVERSE'',
     ''SIMPLE_ASPECT_IP'', ''SECONDARY_ASPECT_IP'', ''SIMPLE_ASPECT_PI'',
     ''SECONDARY_ASPECT_PI'', ''METAPHOR'', ''HAS_METAPHOR'', ''METONYM'', ''HAS_METONYM'',
     ''MATERIAL'', ''EVENT'', ''BY_MEANS_OF'', ''UNDERGOER'', ''PROPERTY'', ''STATE'',
     ''USES'', ''DESTINATION'', ''BODY_PART'']"

definition nlp_word_net_relation_from_str_name :: "string \<Rightarrow> int option" where
  "nlp_word_net_relation_from_str_name name = numbered_from_str_name ''WORD_NET_RELATION_'' nlp_word_net_relation_tags name"

definition nlp_word_net_relation_str_name :: "int \<Rightarrow> string" where
  "nlp_word_net_relation_str_name n = numbered_str_name ''WORD_NET_RELATION_'' nlp_word_net_relation_tags n"

lemma nlp_word_net_relation_tags_distinct: "distinct nlp_word_net_relation_tags"
  by (simp only: nlp_word_net_relation_tags_def literals_apart cong: conj_left_cong)

interpretation nlp_word_net_relation_names: wire_enum "{0..<int (length nlp_word_net_relation_tags)}" id nlp_word_net_relation_str_name nlp_word_net_relation_from_str_name
  unfolding nlp_word_net_relation_from_str_name_def [abs_def] nlp_word_net_relation_str_name_def [abs_def]
  by (rule wire_enum_numbered [OF nlp_word_net_relation_tags_distinct])

datatype nlp_temporal_granularity =
  NlpTemporalGranularityUnspecified | NlpTemporalGranularityDay |
  NlpTemporalGranularityWeek | NlpTemporalGranularityMonth |
  NlpTemporalGranularityQuarter | NlpTemporalGranularityYear

fun nlp_temporal_granularity_number :: "nlp_temporal_granularity \<Rightarrow> int" where
  "nlp_temporal_granularity_number NlpTemporalGranularityUnspecified = 0"
| "nlp_temporal_granularity_number NlpTemporalGranularityDay = 1"
| "nlp_temporal_granularity_number NlpTemporalGranularityWeek = 2"
| "nlp_temporal_granularity_number NlpTemporalGranularityMonth = 3"
| "nlp_temporal_granularity_number NlpTemporalGranularityQuarter = 4"
| "nlp_temporal_granularity_number NlpTemporalGranularityYear = 5"

fun nlp_temporal_granularity_str_name :: "nlp_temporal_granularity \<Rightarrow> string" where
  "nlp_temporal_granularity_str_name NlpTemporalGranularityUnspecified = ''TEMPORAL_GRANULARITY_UNSPECIFIED''"
| "nlp_temporal_granularity_str_name NlpTemporalGranularityDay = ''TEMPORAL_GRANULARITY_DAY''"
| "nlp_temporal_granularity_str_name NlpTemporalGranularityWeek = ''TEMPORAL_GRANULARITY_WEEK''"
| "nlp_temporal_granularity_str_name NlpTemporalGranularityMonth = ''TEMPORAL_GRANULARITY_MONTH''"
| "nlp_temporal_granularity_str_name NlpTemporalGranularityQuarter = ''TEMPORAL_GRANULARITY_QUARTER''"
| "nlp_temporal_granularity_str_name NlpTemporalGranularityYear = ''TEMPORAL_GRANULARITY_YEAR''"

definition nlp_temporal_granularity_from_str_name :: "string \<Rightarrow> nlp_temporal_granularity option" where
  "nlp_temporal_granularity_from_str_name = map_of [
     (''TEMPORAL_GRANULARITY_UNSPECIFIED'', NlpTemporalGranularityUnspecified),
     (''TEMPORAL_GRANULARITY_DAY'', NlpTemporalGranularityDay),
     (''TEMPORAL_GRANULARITY_WEEK'', NlpTemporalGranularityWeek),
     (''TEMPORAL_GRANULARITY_MONTH'', NlpTemporalGranularityMonth),
     (''TEMPORAL_GRANULARITY_QUARTER'', NlpTemporalGranularityQuarter),
     (''TEMPORAL_GRANULARITY_YEAR'', NlpTemporalGranularityYear)]"

interpretation nlp_temporal_granularity_names: wire_enum UNIV nlp_temporal_granularity_number nlp_temporal_granularity_str_name nlp_temporal_granularity_from_str_name
proof (rule wire_enum_arms)
  show "a = b" if "nlp_temporal_granularity_number a = nlp_temporal_granularity_number b" for a b
    using that by (cases a; cases b) simp_all
  show "nlp_temporal_granularity_from_str_name (nlp_temporal_granularity_str_name a) = Some a" for a
    by (cases a) (simp_all only: nlp_temporal_granularity_from_str_name_def nlp_temporal_granularity_str_name.simps literals_apart cong: conj_left_cong)
  show "s = nlp_temporal_granularity_str_name a" if "nlp_temporal_granularity_from_str_name s = Some a" for s a
    using map_of_SomeD [OF that [unfolded nlp_temporal_granularity_from_str_name_def]] by auto
qed

datatype nlp_temporal_origin =
  NlpTemporalOriginUnspecified | NlpTemporalOriginAbsolute | NlpTemporalOriginRelative

fun nlp_temporal_origin_number :: "nlp_temporal_origin \<Rightarrow> int" where
  "nlp_temporal_origin_number NlpTemporalOriginUnspecified = 0"
| "nlp_temporal_origin_number NlpTemporalOriginAbsolute = 1"
| "nlp_temporal_origin_number NlpTemporalOriginRelative = 2"

fun nlp_temporal_origin_str_name :: "nlp_temporal_origin \<Rightarrow> string" where
  "nlp_temporal_origin_str_name NlpTemporalOriginUnspecified = ''TEMPORAL_ORIGIN_UNSPECIFIED''"
| "nlp_temporal_origin_str_name NlpTemporalOriginAbsolute = ''TEMPORAL_ORIGIN_ABSOLUTE''"
| "nlp_temporal_origin_str_name NlpTemporalOriginRelative = ''TEMPORAL_ORIGIN_RELATIVE''"

definition nlp_temporal_origin_from_str_name :: "string \<Rightarrow> nlp_temporal_origin option" where
  "nlp_temporal_origin_from_str_name = map_of [
     (''TEMPORAL_ORIGIN_UNSPECIFIED'', NlpTemporalOriginUnspecified),
     (''TEMPORAL_ORIGIN_ABSOLUTE'', NlpTemporalOriginAbsolute),
     (''TEMPORAL_ORIGIN_RELATIVE'', NlpTemporalOriginRelative)]"

interpretation nlp_temporal_origin_names: wire_enum UNIV nlp_temporal_origin_number nlp_temporal_origin_str_name nlp_temporal_origin_from_str_name
proof (rule wire_enum_arms)
  show "a = b" if "nlp_temporal_origin_number a = nlp_temporal_origin_number b" for a b
    using that by (cases a; cases b) simp_all
  show "nlp_temporal_origin_from_str_name (nlp_temporal_origin_str_name a) = Some a" for a
    by (cases a) (simp_all only: nlp_temporal_origin_from_str_name_def nlp_temporal_origin_str_name.simps literals_apart cong: conj_left_cong)
  show "s = nlp_temporal_origin_str_name a" if "nlp_temporal_origin_from_str_name s = Some a" for s a
    using map_of_SomeD [OF that [unfolded nlp_temporal_origin_from_str_name_def]] by auto
qed

datatype nlp_place_feature_class =
  NlpPlaceFeatureClassUnspecified | NlpPlaceFeatureClassCity | NlpPlaceFeatureClassAdmin |
  NlpPlaceFeatureClassPoi

fun nlp_place_feature_class_number :: "nlp_place_feature_class \<Rightarrow> int" where
  "nlp_place_feature_class_number NlpPlaceFeatureClassUnspecified = 0"
| "nlp_place_feature_class_number NlpPlaceFeatureClassCity = 1"
| "nlp_place_feature_class_number NlpPlaceFeatureClassAdmin = 2"
| "nlp_place_feature_class_number NlpPlaceFeatureClassPoi = 3"

fun nlp_place_feature_class_str_name :: "nlp_place_feature_class \<Rightarrow> string" where
  "nlp_place_feature_class_str_name NlpPlaceFeatureClassUnspecified = ''PLACE_FEATURE_CLASS_UNSPECIFIED''"
| "nlp_place_feature_class_str_name NlpPlaceFeatureClassCity = ''PLACE_FEATURE_CLASS_CITY''"
| "nlp_place_feature_class_str_name NlpPlaceFeatureClassAdmin = ''PLACE_FEATURE_CLASS_ADMIN''"
| "nlp_place_feature_class_str_name NlpPlaceFeatureClassPoi = ''PLACE_FEATURE_CLASS_POI''"

definition nlp_place_feature_class_from_str_name :: "string \<Rightarrow> nlp_place_feature_class option" where
  "nlp_place_feature_class_from_str_name = map_of [
     (''PLACE_FEATURE_CLASS_UNSPECIFIED'', NlpPlaceFeatureClassUnspecified),
     (''PLACE_FEATURE_CLASS_CITY'', NlpPlaceFeatureClassCity),
     (''PLACE_FEATURE_CLASS_ADMIN'', NlpPlaceFeatureClassAdmin),
     (''PLACE_FEATURE_CLASS_POI'', NlpPlaceFeatureClassPoi)]"

interpretation nlp_place_feature_class_names: wire_enum UNIV nlp_place_feature_class_number nlp_place_feature_class_str_name nlp_place_feature_class_from_str_name
proof (rule wire_enum_arms)
  show "a = b" if "nlp_place_feature_class_number a = nlp_place_feature_class_number b" for a b
    using that by (cases a; cases b) simp_all
  show "nlp_place_feature_class_from_str_name (nlp_place_feature_class_str_name a) = Some a" for a
    by (cases a) (simp_all only: nlp_place_feature_class_from_str_name_def nlp_place_feature_class_str_name.simps literals_apart cong: conj_left_cong)
  show "s = nlp_place_feature_class_str_name a" if "nlp_place_feature_class_from_str_name s = Some a" for s a
    using map_of_SomeD [OF that [unfolded nlp_place_feature_class_from_str_name_def]] by auto
qed

datatype nlp_pii_type =
  NlpPiiTypeUnspecified | NlpPiiTypeEmail | NlpPiiTypePhone | NlpPiiTypeIban |
  NlpPiiTypeCard | NlpPiiTypeMac | NlpPiiTypeAwsAccessKey | NlpPiiTypeGithubToken |
  NlpPiiTypeJwt | NlpPiiTypeBtcAddress | NlpPiiTypeEthAddress | NlpPiiTypeAbaRouting |
  NlpPiiTypeUrlCredential | NlpPiiTypeUsSsn | NlpPiiTypeUsItin | NlpPiiTypeUkNhs |
  NlpPiiTypeDeSteuerId | NlpPiiTypeImei | NlpPiiTypeCaSin

fun nlp_pii_type_number :: "nlp_pii_type \<Rightarrow> int" where
  "nlp_pii_type_number NlpPiiTypeUnspecified = 0"
| "nlp_pii_type_number NlpPiiTypeEmail = 1"
| "nlp_pii_type_number NlpPiiTypePhone = 2"
| "nlp_pii_type_number NlpPiiTypeIban = 3"
| "nlp_pii_type_number NlpPiiTypeCard = 4"
| "nlp_pii_type_number NlpPiiTypeMac = 5"
| "nlp_pii_type_number NlpPiiTypeAwsAccessKey = 6"
| "nlp_pii_type_number NlpPiiTypeGithubToken = 7"
| "nlp_pii_type_number NlpPiiTypeJwt = 8"
| "nlp_pii_type_number NlpPiiTypeBtcAddress = 9"
| "nlp_pii_type_number NlpPiiTypeEthAddress = 10"
| "nlp_pii_type_number NlpPiiTypeAbaRouting = 11"
| "nlp_pii_type_number NlpPiiTypeUrlCredential = 12"
| "nlp_pii_type_number NlpPiiTypeUsSsn = 13"
| "nlp_pii_type_number NlpPiiTypeUsItin = 14"
| "nlp_pii_type_number NlpPiiTypeUkNhs = 15"
| "nlp_pii_type_number NlpPiiTypeDeSteuerId = 16"
| "nlp_pii_type_number NlpPiiTypeImei = 17"
| "nlp_pii_type_number NlpPiiTypeCaSin = 18"

fun nlp_pii_type_str_name :: "nlp_pii_type \<Rightarrow> string" where
  "nlp_pii_type_str_name NlpPiiTypeUnspecified = ''PII_TYPE_UNSPECIFIED''"
| "nlp_pii_type_str_name NlpPiiTypeEmail = ''PII_TYPE_EMAIL''"
| "nlp_pii_type_str_name NlpPiiTypePhone = ''PII_TYPE_PHONE''"
| "nlp_pii_type_str_name NlpPiiTypeIban = ''PII_TYPE_IBAN''"
| "nlp_pii_type_str_name NlpPiiTypeCard = ''PII_TYPE_CARD''"
| "nlp_pii_type_str_name NlpPiiTypeMac = ''PII_TYPE_MAC''"
| "nlp_pii_type_str_name NlpPiiTypeAwsAccessKey = ''PII_TYPE_AWS_ACCESS_KEY''"
| "nlp_pii_type_str_name NlpPiiTypeGithubToken = ''PII_TYPE_GITHUB_TOKEN''"
| "nlp_pii_type_str_name NlpPiiTypeJwt = ''PII_TYPE_JWT''"
| "nlp_pii_type_str_name NlpPiiTypeBtcAddress = ''PII_TYPE_BTC_ADDRESS''"
| "nlp_pii_type_str_name NlpPiiTypeEthAddress = ''PII_TYPE_ETH_ADDRESS''"
| "nlp_pii_type_str_name NlpPiiTypeAbaRouting = ''PII_TYPE_ABA_ROUTING''"
| "nlp_pii_type_str_name NlpPiiTypeUrlCredential = ''PII_TYPE_URL_CREDENTIAL''"
| "nlp_pii_type_str_name NlpPiiTypeUsSsn = ''PII_TYPE_US_SSN''"
| "nlp_pii_type_str_name NlpPiiTypeUsItin = ''PII_TYPE_US_ITIN''"
| "nlp_pii_type_str_name NlpPiiTypeUkNhs = ''PII_TYPE_UK_NHS''"
| "nlp_pii_type_str_name NlpPiiTypeDeSteuerId = ''PII_TYPE_DE_STEUER_ID''"
| "nlp_pii_type_str_name NlpPiiTypeImei = ''PII_TYPE_IMEI''"
| "nlp_pii_type_str_name NlpPiiTypeCaSin = ''PII_TYPE_CA_SIN''"

definition nlp_pii_type_from_str_name :: "string \<Rightarrow> nlp_pii_type option" where
  "nlp_pii_type_from_str_name = map_of [
     (''PII_TYPE_UNSPECIFIED'', NlpPiiTypeUnspecified),
     (''PII_TYPE_EMAIL'', NlpPiiTypeEmail),
     (''PII_TYPE_PHONE'', NlpPiiTypePhone),
     (''PII_TYPE_IBAN'', NlpPiiTypeIban),
     (''PII_TYPE_CARD'', NlpPiiTypeCard),
     (''PII_TYPE_MAC'', NlpPiiTypeMac),
     (''PII_TYPE_AWS_ACCESS_KEY'', NlpPiiTypeAwsAccessKey),
     (''PII_TYPE_GITHUB_TOKEN'', NlpPiiTypeGithubToken),
     (''PII_TYPE_JWT'', NlpPiiTypeJwt),
     (''PII_TYPE_BTC_ADDRESS'', NlpPiiTypeBtcAddress),
     (''PII_TYPE_ETH_ADDRESS'', NlpPiiTypeEthAddress),
     (''PII_TYPE_ABA_ROUTING'', NlpPiiTypeAbaRouting),
     (''PII_TYPE_URL_CREDENTIAL'', NlpPiiTypeUrlCredential),
     (''PII_TYPE_US_SSN'', NlpPiiTypeUsSsn),
     (''PII_TYPE_US_ITIN'', NlpPiiTypeUsItin),
     (''PII_TYPE_UK_NHS'', NlpPiiTypeUkNhs),
     (''PII_TYPE_DE_STEUER_ID'', NlpPiiTypeDeSteuerId),
     (''PII_TYPE_IMEI'', NlpPiiTypeImei),
     (''PII_TYPE_CA_SIN'', NlpPiiTypeCaSin)]"

interpretation nlp_pii_type_names: wire_enum UNIV nlp_pii_type_number nlp_pii_type_str_name nlp_pii_type_from_str_name
proof (rule wire_enum_arms)
  show "a = b" if "nlp_pii_type_number a = nlp_pii_type_number b" for a b
    using that by (cases a; cases b) simp_all
  show "nlp_pii_type_from_str_name (nlp_pii_type_str_name a) = Some a" for a
    by (cases a) (simp_all only: nlp_pii_type_from_str_name_def nlp_pii_type_str_name.simps literals_apart cong: conj_left_cong)
  show "s = nlp_pii_type_str_name a" if "nlp_pii_type_from_str_name s = Some a" for s a
    using map_of_SomeD [OF that [unfolded nlp_pii_type_from_str_name_def]] by auto
qed

datatype nlp_noise_severity =
  NlpNoiseSeverityUnspecified | NlpNoiseSeverityMisspelled | NlpNoiseSeverityDamaged |
  NlpNoiseSeverityGibberish | NlpNoiseSeverityBinaryish

fun nlp_noise_severity_number :: "nlp_noise_severity \<Rightarrow> int" where
  "nlp_noise_severity_number NlpNoiseSeverityUnspecified = 0"
| "nlp_noise_severity_number NlpNoiseSeverityMisspelled = 1"
| "nlp_noise_severity_number NlpNoiseSeverityDamaged = 2"
| "nlp_noise_severity_number NlpNoiseSeverityGibberish = 3"
| "nlp_noise_severity_number NlpNoiseSeverityBinaryish = 4"

fun nlp_noise_severity_str_name :: "nlp_noise_severity \<Rightarrow> string" where
  "nlp_noise_severity_str_name NlpNoiseSeverityUnspecified = ''NOISE_SEVERITY_UNSPECIFIED''"
| "nlp_noise_severity_str_name NlpNoiseSeverityMisspelled = ''NOISE_SEVERITY_MISSPELLED''"
| "nlp_noise_severity_str_name NlpNoiseSeverityDamaged = ''NOISE_SEVERITY_DAMAGED''"
| "nlp_noise_severity_str_name NlpNoiseSeverityGibberish = ''NOISE_SEVERITY_GIBBERISH''"
| "nlp_noise_severity_str_name NlpNoiseSeverityBinaryish = ''NOISE_SEVERITY_BINARYISH''"

definition nlp_noise_severity_from_str_name :: "string \<Rightarrow> nlp_noise_severity option" where
  "nlp_noise_severity_from_str_name = map_of [
     (''NOISE_SEVERITY_UNSPECIFIED'', NlpNoiseSeverityUnspecified),
     (''NOISE_SEVERITY_MISSPELLED'', NlpNoiseSeverityMisspelled),
     (''NOISE_SEVERITY_DAMAGED'', NlpNoiseSeverityDamaged),
     (''NOISE_SEVERITY_GIBBERISH'', NlpNoiseSeverityGibberish),
     (''NOISE_SEVERITY_BINARYISH'', NlpNoiseSeverityBinaryish)]"

interpretation nlp_noise_severity_names: wire_enum UNIV nlp_noise_severity_number nlp_noise_severity_str_name nlp_noise_severity_from_str_name
proof (rule wire_enum_arms)
  show "a = b" if "nlp_noise_severity_number a = nlp_noise_severity_number b" for a b
    using that by (cases a; cases b) simp_all
  show "nlp_noise_severity_from_str_name (nlp_noise_severity_str_name a) = Some a" for a
    by (cases a) (simp_all only: nlp_noise_severity_from_str_name_def nlp_noise_severity_str_name.simps literals_apart cong: conj_left_cong)
  show "s = nlp_noise_severity_str_name a" if "nlp_noise_severity_from_str_name s = Some a" for s a
    using map_of_SomeD [OF that [unfolded nlp_noise_severity_from_str_name_def]] by auto
qed

datatype nlp_text_artifact_type =
  NlpTextArtifactTypeUnspecified | NlpTextArtifactTypeReplacement |
  NlpTextArtifactTypeControl | NlpTextArtifactTypeNoncharacter |
  NlpTextArtifactTypeUnpairedSurrogate | NlpTextArtifactTypePrivateUse |
  NlpTextArtifactTypeBidiControl | NlpTextArtifactTypeZeroWidth |
  NlpTextArtifactTypeUnicodeTag | NlpTextArtifactTypeMojibake

fun nlp_text_artifact_type_number :: "nlp_text_artifact_type \<Rightarrow> int" where
  "nlp_text_artifact_type_number NlpTextArtifactTypeUnspecified = 0"
| "nlp_text_artifact_type_number NlpTextArtifactTypeReplacement = 1"
| "nlp_text_artifact_type_number NlpTextArtifactTypeControl = 2"
| "nlp_text_artifact_type_number NlpTextArtifactTypeNoncharacter = 3"
| "nlp_text_artifact_type_number NlpTextArtifactTypeUnpairedSurrogate = 4"
| "nlp_text_artifact_type_number NlpTextArtifactTypePrivateUse = 5"
| "nlp_text_artifact_type_number NlpTextArtifactTypeBidiControl = 6"
| "nlp_text_artifact_type_number NlpTextArtifactTypeZeroWidth = 7"
| "nlp_text_artifact_type_number NlpTextArtifactTypeUnicodeTag = 8"
| "nlp_text_artifact_type_number NlpTextArtifactTypeMojibake = 9"

fun nlp_text_artifact_type_str_name :: "nlp_text_artifact_type \<Rightarrow> string" where
  "nlp_text_artifact_type_str_name NlpTextArtifactTypeUnspecified = ''TEXT_ARTIFACT_TYPE_UNSPECIFIED''"
| "nlp_text_artifact_type_str_name NlpTextArtifactTypeReplacement = ''TEXT_ARTIFACT_TYPE_REPLACEMENT''"
| "nlp_text_artifact_type_str_name NlpTextArtifactTypeControl = ''TEXT_ARTIFACT_TYPE_CONTROL''"
| "nlp_text_artifact_type_str_name NlpTextArtifactTypeNoncharacter = ''TEXT_ARTIFACT_TYPE_NONCHARACTER''"
| "nlp_text_artifact_type_str_name NlpTextArtifactTypeUnpairedSurrogate = ''TEXT_ARTIFACT_TYPE_UNPAIRED_SURROGATE''"
| "nlp_text_artifact_type_str_name NlpTextArtifactTypePrivateUse = ''TEXT_ARTIFACT_TYPE_PRIVATE_USE''"
| "nlp_text_artifact_type_str_name NlpTextArtifactTypeBidiControl = ''TEXT_ARTIFACT_TYPE_BIDI_CONTROL''"
| "nlp_text_artifact_type_str_name NlpTextArtifactTypeZeroWidth = ''TEXT_ARTIFACT_TYPE_ZERO_WIDTH''"
| "nlp_text_artifact_type_str_name NlpTextArtifactTypeUnicodeTag = ''TEXT_ARTIFACT_TYPE_UNICODE_TAG''"
| "nlp_text_artifact_type_str_name NlpTextArtifactTypeMojibake = ''TEXT_ARTIFACT_TYPE_MOJIBAKE''"

definition nlp_text_artifact_type_from_str_name :: "string \<Rightarrow> nlp_text_artifact_type option" where
  "nlp_text_artifact_type_from_str_name = map_of [
     (''TEXT_ARTIFACT_TYPE_UNSPECIFIED'', NlpTextArtifactTypeUnspecified),
     (''TEXT_ARTIFACT_TYPE_REPLACEMENT'', NlpTextArtifactTypeReplacement),
     (''TEXT_ARTIFACT_TYPE_CONTROL'', NlpTextArtifactTypeControl),
     (''TEXT_ARTIFACT_TYPE_NONCHARACTER'', NlpTextArtifactTypeNoncharacter),
     (''TEXT_ARTIFACT_TYPE_UNPAIRED_SURROGATE'', NlpTextArtifactTypeUnpairedSurrogate),
     (''TEXT_ARTIFACT_TYPE_PRIVATE_USE'', NlpTextArtifactTypePrivateUse),
     (''TEXT_ARTIFACT_TYPE_BIDI_CONTROL'', NlpTextArtifactTypeBidiControl),
     (''TEXT_ARTIFACT_TYPE_ZERO_WIDTH'', NlpTextArtifactTypeZeroWidth),
     (''TEXT_ARTIFACT_TYPE_UNICODE_TAG'', NlpTextArtifactTypeUnicodeTag),
     (''TEXT_ARTIFACT_TYPE_MOJIBAKE'', NlpTextArtifactTypeMojibake)]"

interpretation nlp_text_artifact_type_names: wire_enum UNIV nlp_text_artifact_type_number nlp_text_artifact_type_str_name nlp_text_artifact_type_from_str_name
proof (rule wire_enum_arms)
  show "a = b" if "nlp_text_artifact_type_number a = nlp_text_artifact_type_number b" for a b
    using that by (cases a; cases b) simp_all
  show "nlp_text_artifact_type_from_str_name (nlp_text_artifact_type_str_name a) = Some a" for a
    by (cases a) (simp_all only: nlp_text_artifact_type_from_str_name_def nlp_text_artifact_type_str_name.simps literals_apart cong: conj_left_cong)
  show "s = nlp_text_artifact_type_str_name a" if "nlp_text_artifact_type_from_str_name s = Some a" for s a
    using map_of_SomeD [OF that [unfolded nlp_text_artifact_type_from_str_name_def]] by auto
qed

datatype nlp_asset_format =
  NlpAssetFormatUnspecified | NlpAssetFormatPng | NlpAssetFormatJpeg | NlpAssetFormatGif |
  NlpAssetFormatWebp | NlpAssetFormatWav | NlpAssetFormatPdf | NlpAssetFormatZip |
  NlpAssetFormatTiff | NlpAssetFormatGzip | NlpAssetFormatSevenZip | NlpAssetFormatRar |
  NlpAssetFormatFlac | NlpAssetFormatOgg | NlpAssetFormatMidi

fun nlp_asset_format_number :: "nlp_asset_format \<Rightarrow> int" where
  "nlp_asset_format_number NlpAssetFormatUnspecified = 0"
| "nlp_asset_format_number NlpAssetFormatPng = 1"
| "nlp_asset_format_number NlpAssetFormatJpeg = 2"
| "nlp_asset_format_number NlpAssetFormatGif = 3"
| "nlp_asset_format_number NlpAssetFormatWebp = 4"
| "nlp_asset_format_number NlpAssetFormatWav = 5"
| "nlp_asset_format_number NlpAssetFormatPdf = 6"
| "nlp_asset_format_number NlpAssetFormatZip = 7"
| "nlp_asset_format_number NlpAssetFormatTiff = 8"
| "nlp_asset_format_number NlpAssetFormatGzip = 9"
| "nlp_asset_format_number NlpAssetFormatSevenZip = 10"
| "nlp_asset_format_number NlpAssetFormatRar = 11"
| "nlp_asset_format_number NlpAssetFormatFlac = 12"
| "nlp_asset_format_number NlpAssetFormatOgg = 13"
| "nlp_asset_format_number NlpAssetFormatMidi = 14"

fun nlp_asset_format_str_name :: "nlp_asset_format \<Rightarrow> string" where
  "nlp_asset_format_str_name NlpAssetFormatUnspecified = ''ASSET_FORMAT_UNSPECIFIED''"
| "nlp_asset_format_str_name NlpAssetFormatPng = ''ASSET_FORMAT_PNG''"
| "nlp_asset_format_str_name NlpAssetFormatJpeg = ''ASSET_FORMAT_JPEG''"
| "nlp_asset_format_str_name NlpAssetFormatGif = ''ASSET_FORMAT_GIF''"
| "nlp_asset_format_str_name NlpAssetFormatWebp = ''ASSET_FORMAT_WEBP''"
| "nlp_asset_format_str_name NlpAssetFormatWav = ''ASSET_FORMAT_WAV''"
| "nlp_asset_format_str_name NlpAssetFormatPdf = ''ASSET_FORMAT_PDF''"
| "nlp_asset_format_str_name NlpAssetFormatZip = ''ASSET_FORMAT_ZIP''"
| "nlp_asset_format_str_name NlpAssetFormatTiff = ''ASSET_FORMAT_TIFF''"
| "nlp_asset_format_str_name NlpAssetFormatGzip = ''ASSET_FORMAT_GZIP''"
| "nlp_asset_format_str_name NlpAssetFormatSevenZip = ''ASSET_FORMAT_SEVEN_ZIP''"
| "nlp_asset_format_str_name NlpAssetFormatRar = ''ASSET_FORMAT_RAR''"
| "nlp_asset_format_str_name NlpAssetFormatFlac = ''ASSET_FORMAT_FLAC''"
| "nlp_asset_format_str_name NlpAssetFormatOgg = ''ASSET_FORMAT_OGG''"
| "nlp_asset_format_str_name NlpAssetFormatMidi = ''ASSET_FORMAT_MIDI''"

definition nlp_asset_format_from_str_name :: "string \<Rightarrow> nlp_asset_format option" where
  "nlp_asset_format_from_str_name = map_of [
     (''ASSET_FORMAT_UNSPECIFIED'', NlpAssetFormatUnspecified),
     (''ASSET_FORMAT_PNG'', NlpAssetFormatPng),
     (''ASSET_FORMAT_JPEG'', NlpAssetFormatJpeg),
     (''ASSET_FORMAT_GIF'', NlpAssetFormatGif),
     (''ASSET_FORMAT_WEBP'', NlpAssetFormatWebp),
     (''ASSET_FORMAT_WAV'', NlpAssetFormatWav),
     (''ASSET_FORMAT_PDF'', NlpAssetFormatPdf),
     (''ASSET_FORMAT_ZIP'', NlpAssetFormatZip),
     (''ASSET_FORMAT_TIFF'', NlpAssetFormatTiff),
     (''ASSET_FORMAT_GZIP'', NlpAssetFormatGzip),
     (''ASSET_FORMAT_SEVEN_ZIP'', NlpAssetFormatSevenZip),
     (''ASSET_FORMAT_RAR'', NlpAssetFormatRar),
     (''ASSET_FORMAT_FLAC'', NlpAssetFormatFlac),
     (''ASSET_FORMAT_OGG'', NlpAssetFormatOgg),
     (''ASSET_FORMAT_MIDI'', NlpAssetFormatMidi)]"

interpretation nlp_asset_format_names: wire_enum UNIV nlp_asset_format_number nlp_asset_format_str_name nlp_asset_format_from_str_name
proof (rule wire_enum_arms)
  show "a = b" if "nlp_asset_format_number a = nlp_asset_format_number b" for a b
    using that by (cases a; cases b) simp_all
  show "nlp_asset_format_from_str_name (nlp_asset_format_str_name a) = Some a" for a
    by (cases a) (simp_all only: nlp_asset_format_from_str_name_def nlp_asset_format_str_name.simps literals_apart cong: conj_left_cong)
  show "s = nlp_asset_format_str_name a" if "nlp_asset_format_from_str_name s = Some a" for s a
    using map_of_SomeD [OF that [unfolded nlp_asset_format_from_str_name_def]] by auto
qed

end
