(* ===== verification/Spec2Isabelle.thy ===== *)
theory Spec2Isabelle imports Handler Startup DocEnums NlpEnums begin

text \<open>
  A model of \<open>grpc-epub\<close>, a gRPC service that takes an EPUB on a stream of frames, keeps it in memory,
  and streams back what is in it: an opening description of the book, its table of contents, its media
  overlays, its chapters in spine order, its selected resources, on request one document projected
  from all of these, and a trailer.  Sources are under \<open>src/src/\<close>.  The library the theorems rest on is
  Isabelle's own; nothing of the repository's dependencies is defined, they are parameters.

  How a call runs, and where it is modelled

  \<^item> \<open>Service\<close> (\<open>service.rs\<close>): the upload under two clocks (\<open>next_frame\<close>, \<open>timeout_at\<close>), the process-wide
    budget (\<open>reserve_upload\<close>, \<open>grow\<close>), the frames (\<open>receive_frame\<close>, \<open>receive\<close>), the supervisor
    (\<open>supervise\<close>), and the process: \<open>world\<close> and \<open>step\<close>, calls interleaved between their awaits.
  \<^item> \<open>Startup\<close> (\<open>main.rs\<close>): the process from its environment to its listener, with \<open>SockAddr\<close>, the standard
    library's reading of the address.  \<open>Routes\<close> (the generated server and client of
    \<open>gen/ai/pipestream/epub/v1/\<close>, \<open>into_service\<close> of \<open>service.rs\<close>): which handler a request reaches, and
    the limit its decoder is given.
  \<^item> \<open>Handler\<close> (\<open>parse_epub\<close> of \<open>service.rs\<close>): one call from its first frame to the end of its stream.
  \<^item> \<open>Extract\<close> and \<open>Driver\<close> (\<open>extract.rs\<close>): classification, resolution of the manifest and the spine, the
    plan of resources (\<open>Extract\<close>); the sink, entries read ahead, the stages of a parse and \<open>run\<close>
    (\<open>Driver\<close>).  A parse is a state-and-error computation: \<open>call_state\<close> holds the budget, the warnings,
    the entries read ahead, the counts and the sink; \<open>abort\<close> is why it ends early.
  \<^item> \<open>Archive\<close> (\<open>archive.rs\<close>): the record walk, the scan, inflation under budget and ratio.
  \<^item> \<open>Xml\<close>, \<open>Opf\<close> (\<open>opf.rs\<close>): XML policy; container, encryption descriptor, package document.
  \<^item> \<open>Nav\<close> (\<open>nav.rs\<close>), \<open>Smil\<close> with \<open>F64\<close> (\<open>smil.rs\<close>): tables of contents and media overlays.
  \<^item> \<open>Href\<close> (\<open>href.rs\<close>), \<open>Datetime\<close> (\<open>datetime.rs\<close>), \<open>ServerLimits\<close> (\<open>limits.rs\<close>), \<open>Metrics\<close>
    (\<open>metrics.rs\<close>): references, dates, ceilings, counters.
  \<^item> \<open>Messages\<close> (\<open>gen/ai/pipestream/epub/v1/\<close>): the wire messages.  \<open>DocCommon\<close>, \<open>DocItems\<close>,
    \<open>DocPictures\<close>, \<open>DocTables\<close>, \<open>DocAbout\<close>, \<open>DocSchema\<close> (\<open>gen/ai/pipestream/document/v1/\<close>): the messages of
    the projected document, a record each, with the defaults prost gives them.  \<open>NlpCommon\<close>,
    \<open>NlpDocument\<close>, \<open>NlpAnnotations\<close> (\<open>gen/org/apache/opennlp/grpc/v1/\<close>): the analyses it can hold.
    \<open>DocEnums\<close>, \<open>NlpEnums\<close>: the enumerations of the two schemas, their numbers and names.
  \<^item> \<open>Projection\<close> and \<open>DocumentFold\<close> (\<open>document_fold.rs\<close>): the interface of the fold the driver uses, the
    fold itself, and the integrity check of a document.
  \<^item> \<open>Prelude\<close>, \<open>RustStr\<close>: machine integers, results, statuses, and Rust's string operations on bytes.

  What is shown

  \<^item> Whole calls (\<open>Handler\<close>): what a complete call ends with, what a client is told when it is not, that
    a call is a path of the process and gives back what it took, and when a parse can panic.  They
    compose \<open>Driver.run_cases\<close> (how a parse can end), \<open>FoldIntegrity.fold_state\<close> (what the fold has
    become) and \<open>Service.process\<close> (the invariant of the process).  \<open>SampleCall\<close> evaluates a small book
    from upload to trailer; it is the witness of these.
  \<^item> The driver: the stream is \<open>script\<close>, computed from the settled book and the entries' contents alone;
    of any call, what was sent is \<open>in_order\<close>: the chapters and resources are told one by one from the
    package and the manifest, each resource where its entry is reached.  Bytes sent are charged, the
    trailer has the counts and the charges, and the counters count the stream too (\<open>Counters\<close>).
    The rules \<open>emits\<close> give each operation the events it sends and the invariant it keeps.
  \<^item> The start: when it panics or fails, and what every process that starts has, whatever its environment.
  \<^item> The process: permits, slots and counters under any interleaving, an invariant over \<open>step\<close>.
  \<^item> The document (\<open>FoldIntegrity\<close>): the check accepts exactly well linked documents, the fold's are.
  \<^item> The readers: each agrees with a reading of the tree its events come from (\<open>Opf\<close>), or gives back
    what a rendering states (\<open>Nav\<close>, \<open>Smil\<close>); sizes, depths and references are bounded.
  \<^item> Archives: what is accepted is exactly what the limits say; nothing is inflated past the budget.
  \<^item> References stay inside the archive; dates are the Gregorian calendar's; requests only lower limits.

  Interfaces

  \<^item> \<open>budgeted_reader\<close> (\<open>Archive\<close>): a reader that takes what it reads off a budget; interpreted on \<open>read_entry\<close>.
  \<^item> \<open>path_policy\<close> (\<open>Href\<close>): references that resolve to safe paths; interpreted on \<open>resolve\<close>.
  \<^item> \<open>outline_parser\<close> (\<open>Nav\<close>): an event step that keeps the outline's invariant; interpreted on both dialects.
  \<^item> \<open>wire_enum\<close> (\<open>WireEnum\<close>): a generated enumeration, whose names read back; every enumeration of the
    three schemas interprets it.
  \<^item> \<open>machine\<close> (\<open>Service\<close>): a start, a step and an invariant; interpreted on the process.
  \<^item> \<open>raising_at_info\<close> (\<open>Projection\<close>): a fold that panics at the opening event only; the driver's lemma on
    panics is proved in it, and it is interpreted on the document fold (\<open>FoldIntegrity\<close>).

  Parameters and bounds

  \<^item> \<open>xml_reader\<close> is quick-xml: the results of successive reads for a document's bytes.
  \<^item> \<open>zip_new\<close> and \<open>memory_archive\<close> are the zip crate: the headers it shows and the answers of its readers.
  \<^item> The response channel is \<open>nat \<Rightarrow> delivery\<close>: what it answers to the n-th message.
  \<^item> The request stream is a list of frames with the instants they are there; time is nanoseconds.
  \<^item> The crate's version is an argument.
  \<^item> No fuel is used but in \<open>extend_chain\<close>, whose bound is the code's own \<open>MAX_FALLBACK_CHAIN\<close>; every
    other loop terminates by its structure or by a measure.
  \<^item> Theorems on documents assume at most \<open>2 ^ 64\<close> events, which a \<open>usize\<close> index needs.
  \<^item> \<open>f64\<close> arithmetic is rounding of exact values; \<open>usize\<close> is 64 bits.

  Not modelled

  \<^item> \<open>lib.rs\<close>, \<open>proto.rs\<close>: module declarations.
  \<^item> tokio's runtime, the listener, health and reflection behind \<open>main.rs\<close>; the settings of the generated
    client, which only pass arguments on to tonic; prost's encoding.
  \<^item> A clock so late that an instant a year ahead does not fit, where \<open>after\<close> panics.
  \<^item> Allocation: \<open>reserve_exact\<close> is taken to give the capacity it is asked for.
\<close>

end
